theory Spec2Isabelle
  imports Main "HOL-Library.Word"
begin

unbundle bit_operations_syntax

section \<open>Values of the TypeScript client\<close>

text \<open>
  The chronik client (\<^verbatim>\<open>ts/chronik-client\<close>) is embedded as pure functions.
  A \<^verbatim>\<open>Uint8Array\<close> is a list of 8-bit words, a JavaScript string is the list of its
  UTF-16 code units, a \<^verbatim>\<open>number\<close> holding an integer is an \<open>int\<close>, and a \<^verbatim>\<open>Long\<close>
  is its 64 bits (the signedness flag is fixed by the declared field type).
  A \<^verbatim>\<open>throw\<close> is the left injection of a sum.
\<close>

type_synonym byte = "8 word"
type_synonym bytes = "byte list"
type_synonym jsstring = "16 word list"
type_synonym Long = "64 word"

definition str :: "string \<Rightarrow> jsstring" where
  "str s = map of_char s"

text \<open>A store into a \<^verbatim>\<open>Uint8Array\<close> keeps the low 8 bits of the number, and
  \<^verbatim>\<open>String.fromCharCode\<close> the low 16 bits.\<close>

definition byte_of :: "nat \<Rightarrow> byte" where
  "byte_of n = of_nat n"

definition fromCharCode :: "int \<Rightarrow> 16 word" where
  "fromCharCode n = of_int n"

datatype error =
    Error jsstring
  | IndexOutOfRange
  | InvalidVarint
  | InvalidWireType nat

definition bind :: "error + 'a \<Rightarrow> ('a \<Rightarrow> error + 'b) \<Rightarrow> error + 'b" where
  "bind r f = (case r of Inl e \<Rightarrow> Inl e | Inr x \<Rightarrow> f x)"

text \<open>\<^verbatim>\<open>xs.map(f)\<close> where \<open>f\<close> may throw: elements in order, the first throw ends the call.\<close>

fun map_result :: "('a \<Rightarrow> error + 'b) \<Rightarrow> 'a list \<Rightarrow> error + 'b list" where
  "map_result f [] = Inr []"
| "map_result f (x # xs) =
     bind (f x) (\<lambda>y. bind (map_result f xs) (\<lambda>ys. Inr (y # ys)))"

text \<open>\<^verbatim>\<open>v !== undefined ? f(v) : undefined\<close>\<close>

fun option_result :: "('a \<Rightarrow> error + 'b) \<Rightarrow> 'a option \<Rightarrow> error + 'b option" where
  "option_result f None = Inr None"
| "option_result f (Some v) = bind (f v) (\<lambda>y. Inr (Some y))"

text \<open>\<^verbatim>\<open>String.prototype.startsWith\<close>, \<^verbatim>\<open>endsWith\<close> and \<^verbatim>\<open>substr\<close> with one argument.\<close>

definition startsWith :: "jsstring \<Rightarrow> jsstring \<Rightarrow> bool" where
  "startsWith s p = (take (length p) s = p)"

definition endsWith :: "jsstring \<Rightarrow> jsstring \<Rightarrow> bool" where
  "endsWith s p = (length p \<le> length s \<and> drop (length s - length p) s = p)"

definition substr :: "jsstring \<Rightarrow> nat \<Rightarrow> jsstring" where
  "substr s n = drop n s"

text \<open>Decimal rendering of an integer, as a template literal renders a \<^verbatim>\<open>number\<close>.\<close>

fun digits :: "nat \<Rightarrow> jsstring" where
  "digits n = (if n < 10 then [of_nat (48 + n)] else digits (n div 10) @ [of_nat (48 + n mod 10)])"

definition Number_toString :: "int \<Rightarrow> jsstring" where
  "Number_toString i = (if i < 0 then str ''-'' @ digits (nat (- i)) else digits (nat i))"

subsection \<open>hex.ts\<close>

text \<open>
  Modelled from the spec: \<^verbatim>\<open>ts/chronik-client/hex.ts\<close> (\<^verbatim>\<open>toHex\<close>, \<^verbatim>\<open>toHexRev\<close>,
  \<^verbatim>\<open>fromHex\<close>, \<^verbatim>\<open>fromHexRev\<close>) is imported by \<^verbatim>\<open>index.ts\<close> but is not among the
  sources. The spec says that hashes travel in natural byte order and are displayed in
  reversed order; so \<open>toHex\<close> is the lower-case hex encoding of the bytes in order,
  \<open>toHexRev\<close> the hex encoding of the reversed bytes, and \<open>fromHex\<close>, \<open>fromHexRev\<close>
  their inverses, throwing on text that is not lower-case hex of even length.
\<close>

definition hexDigit :: "byte \<Rightarrow> 16 word" where
  "hexDigit n = (if n < 10 then 48 + ucast n else 87 + ucast n)"

definition toHex :: "bytes \<Rightarrow> jsstring" where
  "toHex buffer = concat (map (\<lambda>b. [hexDigit (drop_bit 4 b), hexDigit (b AND 15)]) buffer)"

definition toHexRev :: "bytes \<Rightarrow> jsstring" where
  "toHexRev buffer = toHex (rev buffer)"

definition hexValue :: "16 word \<Rightarrow> byte option" where
  "hexValue c = (if 48 \<le> c \<and> c \<le> 57 then Some (ucast (c - 48))
                 else if 97 \<le> c \<and> c \<le> 102 then Some (ucast (c - 87))
                 else None)"

fun fromHex :: "jsstring \<Rightarrow> error + bytes" where
  "fromHex [] = Inr []"
| "fromHex [c] = Inl (Error (str ''Odd hex length''))"
| "fromHex (a # b # rest) =
     (case (hexValue a, hexValue b) of
        (Some hi, Some lo) \<Rightarrow> bind (fromHex rest) (\<lambda>bs. Inr ((push_bit 4 hi OR lo) # bs))
      | _ \<Rightarrow> Inl (Error (str ''Invalid hex pair'')))"

definition fromHexRev :: "jsstring \<Rightarrow> error + bytes" where
  "fromHexRev s = bind (fromHex s) (\<lambda>bs. Inr (rev bs))"

section \<open>protobufjs/minimal: Writer and Reader\<close>

text \<open>
  The generated codec (\<^verbatim>\<open>chronik.ts\<close>) drives the \<^verbatim>\<open>Writer\<close> and \<^verbatim>\<open>Reader\<close> of
  \<^verbatim>\<open>protobufjs/minimal\<close>, a library outside the repository. Its operations are
  modelled here after the library: a writer call appends bytes, a reader is the list of
  the bytes from \<^verbatim>\<open>reader.pos\<close> to the end of the buffer, and a read returns the value
  with the remaining bytes or throws.
\<close>

subsection \<open>Writer\<close>

text \<open>\<^verbatim>\<open>writeVarint32\<close>, \<^verbatim>\<open>writeVarint64\<close>: seven bits per byte, low bits first.\<close>

fun writeVarint :: "nat \<Rightarrow> bytes" where
  "writeVarint val =
     (if val < 128 then [byte_of val]
      else byte_of (val mod 128 + 128) # writeVarint (val div 128))"

declare writeVarint.simps [simp del]

text \<open>\<^verbatim>\<open>Writer.uint32(value)\<close> writes \<^verbatim>\<open>value >>> 0\<close>.\<close>

definition w_uint32 :: "int \<Rightarrow> bytes" where
  "w_uint32 v = writeVarint (nat (v mod 2 ^ 32))"

text \<open>\<^verbatim>\<open>Writer.int32(value)\<close>: a negative value is written as the ten bytes of its
  64-bit two's complement (\<^verbatim>\<open>LongBits.fromNumber\<close>).\<close>

definition w_int32 :: "int \<Rightarrow> bytes" where
  "w_int32 v = (if v < 0 then writeVarint (nat (v mod 2 ^ 64)) else w_uint32 v)"

definition w_int64 :: "Long \<Rightarrow> bytes" where
  "w_int64 v = writeVarint (unat v)"

definition w_uint64 :: "Long \<Rightarrow> bytes" where
  "w_uint64 v = writeVarint (unat v)"

definition w_bool :: "bool \<Rightarrow> bytes" where
  "w_bool v = [if v then 1 else 0]"

text \<open>\<^verbatim>\<open>Writer.bytes(value)\<close>: \<^verbatim>\<open>len = value.length >>> 0\<close>; a zero \<open>len\<close> writes the
  single byte 0, otherwise the length and the bytes.\<close>

definition w_bytes :: "bytes \<Rightarrow> bytes" where
  "w_bytes v = (if int (length v) mod 2 ^ 32 = 0 then [0] else w_uint32 (int (length v)) @ v)"

text \<open>\<^verbatim>\<open>utf8.write\<close> and \<^verbatim>\<open>utf8.length\<close> of the library, with the shifts and masks read
  as arithmetic on the code unit. A high surrogate followed by a low surrogate is one
  four-byte sequence.\<close>

fun utf8_write :: "jsstring \<Rightarrow> bytes" where
  "utf8_write [] = []"
| "utf8_write [c1] =
     (let c = unat c1 in
      if c < 128 then [byte_of c]
      else if c < 2048 then [byte_of (c div 64 + 192), byte_of (c mod 64 + 128)]
      else [byte_of (c div 4096 + 224), byte_of (c div 64 mod 64 + 128), byte_of (c mod 64 + 128)])"
| "utf8_write (c1 # c2 # rest) =
     (let c = unat c1; d = unat c2 in
      if c < 128 then byte_of c # utf8_write (c2 # rest)
      else if c < 2048
      then byte_of (c div 64 + 192) # byte_of (c mod 64 + 128) # utf8_write (c2 # rest)
      else if 55296 \<le> c \<and> c < 56320 \<and> 56320 \<le> d \<and> d < 57344
      then (let p = 65536 + (c mod 1024) * 1024 + d mod 1024 in
            byte_of (p div 262144 + 240) # byte_of (p div 4096 mod 64 + 128)
              # byte_of (p div 64 mod 64 + 128) # byte_of (p mod 64 + 128) # utf8_write rest)
      else byte_of (c div 4096 + 224) # byte_of (c div 64 mod 64 + 128)
             # byte_of (c mod 64 + 128) # utf8_write (c2 # rest))"

definition utf8_length :: "jsstring \<Rightarrow> nat" where
  "utf8_length s = length (utf8_write s)"

text \<open>\<^verbatim>\<open>Writer.string(value)\<close>\<close>

definition w_string :: "jsstring \<Rightarrow> bytes" where
  "w_string v = (if utf8_length v = 0 then [0]
                 else w_uint32 (int (utf8_length v)) @ utf8_write v)"

text \<open>\<^verbatim>\<open>X.encode(v, writer.uint32(tag).fork()).ldelim()\<close>: the tag, the length of the
  nested encoding (again through \<^verbatim>\<open>uint32\<close>), and the nested encoding.\<close>

definition ldelim :: "bytes \<Rightarrow> bytes" where
  "ldelim sub = w_uint32 (int (length sub)) @ sub"

subsection \<open>Reader\<close>

text \<open>
  Up to \<open>k\<close> bytes of a varint: the value of the seven-bit groups read, whether a byte
  without the continuation bit closed it, and the remaining bytes. A byte read past the
  end of the buffer is \<^verbatim>\<open>undefined\<close>: it adds nothing and does not close the varint.
\<close>

fun read_groups :: "nat \<Rightarrow> bytes \<Rightarrow> nat \<times> bool \<times> bytes" where
  "read_groups 0 bs = (0, False, bs)"
| "read_groups (Suc k) [] = (0, False, [])"
| "read_groups (Suc k) (b # bs) =
     (if b < 128 then (unat b, True, bs)
      else (case read_groups k bs of (v, fin, rest) \<Rightarrow> (unat b mod 128 + 128 * v, fin, rest)))"

text \<open>\<^verbatim>\<open>Reader.uint32()\<close>: five bytes give the 32 bits; when the fifth still has the
  continuation bit, five more bytes are skipped unread, and the read throws when that
  leaves the buffer.\<close>

definition r_uint32 :: "bytes \<Rightarrow> error + (int \<times> bytes)" where
  "r_uint32 bs =
     (case read_groups 5 bs of
        (v, fin, rest) \<Rightarrow>
          if fin then Inr (int (v mod 2 ^ 32), rest)
          else if length bs < 10 then Inl IndexOutOfRange
          else Inr (int (v mod 2 ^ 32), drop 10 bs))"

text \<open>\<^verbatim>\<open>Reader.int32()\<close> is \<^verbatim>\<open>this.uint32() | 0\<close>.\<close>

definition r_int32 :: "bytes \<Rightarrow> error + (int \<times> bytes)" where
  "r_int32 bs =
     (case r_uint32 bs of Inl e \<Rightarrow> Inl e
      | Inr (v, rest) \<Rightarrow> Inr (if v < 2 ^ 31 then v else v - 2 ^ 32, rest))"

definition r_bool :: "bytes \<Rightarrow> error + (bool \<times> bytes)" where
  "r_bool bs =
     (case r_uint32 bs of Inl e \<Rightarrow> Inl e
      | Inr (v, rest) \<Rightarrow> Inr (v \<noteq> 0, rest))"

text \<open>\<^verbatim>\<open>readLongVarint\<close>: with more than four bytes left, up to ten bytes are read;
  with four or fewer, three bytes are read with a bounds check and a fourth is taken
  as the last whatever it holds.\<close>

definition byte_at :: "bytes \<Rightarrow> nat \<Rightarrow> nat" where
  "byte_at bs i = (if i < length bs then unat (bs ! i) else 0)"

definition readLongVarint :: "bytes \<Rightarrow> error + (Long \<times> bytes)" where
  "readLongVarint bs =
     (if length bs > 4
      then (case read_groups 10 bs of
              (v, fin, rest) \<Rightarrow>
                if fin then Inr (of_nat v, rest)
                else if length bs < 10 then Inl IndexOutOfRange
                else Inl InvalidVarint)
      else (case read_groups 3 bs of
              (v, fin, rest) \<Rightarrow>
                if fin then Inr (of_nat v, rest)
                else if length bs < 3 then Inl IndexOutOfRange
                else Inr (of_nat (v + byte_at bs 3 mod 128 * 2097152), drop 4 bs)))"

definition r_int64 :: "bytes \<Rightarrow> error + (Long \<times> bytes)" where
  "r_int64 bs = readLongVarint bs"

definition r_uint64 :: "bytes \<Rightarrow> error + (Long \<times> bytes)" where
  "r_uint64 bs = readLongVarint bs"

text \<open>\<^verbatim>\<open>Reader.bytes()\<close>: the length, then that many bytes, or a throw when they are
  not there.\<close>

definition r_bytes :: "bytes \<Rightarrow> error + (bytes \<times> bytes)" where
  "r_bytes bs =
     (case r_uint32 bs of Inl e \<Rightarrow> Inl e
      | Inr (len, rest) \<Rightarrow>
          if int (length rest) < len then Inl IndexOutOfRange
          else Inr (take (nat len) rest, drop (nat len) rest))"

text \<open>\<^verbatim>\<open>utf8.read\<close>: a continuation byte missing at the end of the slice reads as 0.\<close>

function utf8_read :: "bytes \<Rightarrow> jsstring" where
  "utf8_read [] = []"
| "utf8_read (b # bs) =
     (let t = unat b in
      if t < 128 then fromCharCode (int t) # utf8_read bs
      else if 191 < t \<and> t < 224
      then fromCharCode (int (t mod 32 * 64 + byte_at bs 0 mod 64)) # utf8_read (drop 1 bs)
      else if 239 < t
      then (let v = int (t mod 8 * 262144 + byte_at bs 0 mod 64 * 4096
                          + byte_at bs 1 mod 64 * 64 + byte_at bs 2 mod 64) - 65536 in
            fromCharCode (55296 + v div 1024) # fromCharCode (56320 + v mod 1024)
              # utf8_read (drop 3 bs))
      else fromCharCode (int (t mod 16 * 4096 + byte_at bs 0 mod 64 * 64 + byte_at bs 1 mod 64))
             # utf8_read (drop 2 bs))"
  by pat_completeness auto
termination
  by (relation "measure length") auto

definition r_string :: "bytes \<Rightarrow> error + (jsstring \<times> bytes)" where
  "r_string bs =
     (case r_bytes bs of Inl e \<Rightarrow> Inl e
      | Inr (v, rest) \<Rightarrow> Inr (utf8_read v, rest))"

text \<open>\<^verbatim>\<open>Reader.skip(length)\<close> and \<^verbatim>\<open>Reader.skip()\<close> (a varint of any length).\<close>

definition skip_n :: "int \<Rightarrow> bytes \<Rightarrow> error + bytes" where
  "skip_n n bs = (if int (length bs) < n then Inl IndexOutOfRange else Inr (drop (nat n) bs))"

fun skip_varint :: "bytes \<Rightarrow> error + bytes" where
  "skip_varint [] = Inl IndexOutOfRange"
| "skip_varint (b # bs) = (if b < 128 then Inr bs else skip_varint bs)"

text \<open>\<^verbatim>\<open>Reader.skipType(wireType)\<close> for the wire types that are not groups.\<close>

definition skip_scalar :: "int \<Rightarrow> bytes \<Rightarrow> error + bytes" where
  "skip_scalar wireType bs =
     (if wireType = 0 then skip_varint bs
      else if wireType = 1 then skip_n 8 bs
      else if wireType = 2
      then (case r_uint32 bs of Inl e \<Rightarrow> Inl e | Inr (len, rest) \<Rightarrow> skip_n len rest)
      else if wireType = 5 then skip_n 4 bs
      else Inl (InvalidWireType (nat wireType)))"

lemma read_groups_length: "read_groups k bs = (v, fin, rest) \<Longrightarrow> length rest \<le> length bs"
proof (induction k bs arbitrary: v fin rest rule: read_groups.induct)
  case (3 k b bs)
  then show ?case
    by (auto split: if_splits prod.splits)
qed auto

lemma read_groups_fin_length:
  "read_groups k bs = (v, True, rest) \<Longrightarrow> length rest < length bs"
proof (induction k bs arbitrary: v rest rule: read_groups.induct)
  case (3 k b bs)
  then show ?case
    by (auto split: if_splits prod.splits)
qed auto

lemma r_uint32_length: "r_uint32 bs = Inr (v, rest) \<Longrightarrow> length rest < length bs"
  by (auto simp add: r_uint32_def split: prod.splits if_splits dest: read_groups_fin_length)

lemma skip_n_length: "skip_n n bs = Inr rest \<Longrightarrow> length rest \<le> length bs"
  by (auto simp add: skip_n_def split: if_splits)

lemma skip_varint_length: "skip_varint bs = Inr rest \<Longrightarrow> length rest < length bs"
  by (induction bs) (auto split: if_splits)

lemma skip_scalar_length: "skip_scalar wt bs = Inr rest \<Longrightarrow> length rest \<le> length bs"
  by (auto simp add: skip_scalar_def split: if_splits sum.splits
      dest!: skip_n_length skip_varint_length r_uint32_length)

text \<open>
  \<^verbatim>\<open>skipType(3)\<close> skips a group: fields are skipped until an end-group tag (wire type
  4). The library recurses for a group inside a group; here \<open>depth\<close> counts the groups
  still open.
\<close>

function skip_group :: "nat \<Rightarrow> bytes \<Rightarrow> error + bytes" where
  "skip_group depth bs =
     (case r_uint32 bs of Inl e \<Rightarrow> Inl e
      | Inr (tag, rest) \<Rightarrow>
          if tag mod 8 = 4 then (if depth = 0 then Inr rest else skip_group (depth - 1) rest)
          else if tag mod 8 = 3 then skip_group (Suc depth) rest
          else (case skip_scalar (tag mod 8) rest of Inl e \<Rightarrow> Inl e
                | Inr rest' \<Rightarrow> skip_group depth rest'))"
  by pat_completeness auto
termination
  by (relation "measure (\<lambda>(depth, bs). length bs)")
    (auto dest!: r_uint32_length skip_scalar_length)

declare skip_group.simps [simp del]

definition skipType :: "int \<Rightarrow> bytes \<Rightarrow> error + bytes" where
  "skipType wireType bs = (if wireType = 3 then skip_group 0 bs else skip_scalar wireType bs)"

lemma skip_group_length: "skip_group depth bs = Inr rest \<Longrightarrow> length rest < length bs"
proof (induction depth bs arbitrary: rest rule: skip_group.induct)
  case (1 depth bs)
  from "1.prems" obtain tag r where u: "r_uint32 bs = Inr (tag, r)"
    by (subst (asm) skip_group.simps) (auto split: sum.splits)
  have lt: "length r < length bs"
    using r_uint32_length [OF u] .
  show ?case
  proof (cases "tag mod 8 = 4")
    case True
    show ?thesis
    proof (cases "depth = 0")
      case True
      with \<open>tag mod 8 = 4\<close> u "1.prems" lt show ?thesis
        by (subst (asm) skip_group.simps) simp
    next
      case False
      with \<open>tag mod 8 = 4\<close> u "1.prems" have "skip_group (depth - 1) r = Inr rest"
        by (subst (asm) skip_group.simps) simp
      from "1.IH"(1) [OF u refl \<open>tag mod 8 = 4\<close> False this] lt show ?thesis
        by simp
    qed
  next
    case False
    show ?thesis
    proof (cases "tag mod 8 = 3")
      case True
      with False u "1.prems" have "skip_group (Suc depth) r = Inr rest"
        by (subst (asm) skip_group.simps) simp
      from "1.IH"(2) [OF u refl False True this] lt show ?thesis
        by simp
    next
      case neq3: False
      with False u "1.prems" obtain r' where
        s: "skip_scalar (tag mod 8) r = Inr r'" and g: "skip_group depth r' = Inr rest"
        by (subst (asm) skip_group.simps) (auto split: sum.splits)
      from "1.IH"(3) [OF u refl False neq3 s g] skip_scalar_length [OF s] lt show ?thesis
        by simp
    qed
  qed
qed

lemma skipType_length: "skipType wt bs = Inr rest \<Longrightarrow> length rest \<le> length bs"
  by (auto simp add: skipType_def split: if_splits
      dest: skip_group_length skip_scalar_length)

lemma r_int32_length: "r_int32 bs = Inr (v, rest) \<Longrightarrow> length rest < length bs"
  by (auto simp add: r_int32_def split: sum.splits dest: r_uint32_length)

lemma r_bool_length: "r_bool bs = Inr (v, rest) \<Longrightarrow> length rest < length bs"
  by (auto simp add: r_bool_def split: sum.splits dest: r_uint32_length)

lemma readLongVarint_length: "readLongVarint bs = Inr (v, rest) \<Longrightarrow> length rest < length bs"
  by (auto simp add: readLongVarint_def split: prod.splits if_splits
      dest: read_groups_fin_length)

lemma r_bytes_length: "r_bytes bs = Inr (v, rest) \<Longrightarrow> length rest < length bs"
  by (auto simp add: r_bytes_def split: sum.splits if_splits dest!: r_uint32_length)

lemma r_string_length: "r_string bs = Inr (v, rest) \<Longrightarrow> length rest < length bs"
  by (auto simp add: r_string_def split: sum.splits dest: r_bytes_length)

section \<open>chronik.ts: the generated codec\<close>

text \<open>
  Every \<^verbatim>\<open>decode\<close> has the same shape: a loop \<^verbatim>\<open>while (reader.pos < end)\<close> that reads a
  tag and switches on \<^verbatim>\<open>tag >>> 3\<close>. In the model \<open>X_field\<close> is the switch and
  \<open>X_decode_loop\<close> the loop; \<open>stop\<close> is the number of bytes that remain in the
  buffer at \<^verbatim>\<open>end\<close>, so that \<^verbatim>\<open>reader.pos < end\<close> reads \<open>stop < length reader\<close>.
  \<open>X_decode_from reader len\<close> is \<^verbatim>\<open>X.decode(reader, len)\<close> on a reader and returns the
  message with the reader after it; \<open>X_decode\<close> is \<^verbatim>\<open>X.decode(bytes)\<close>.
\<close>

text \<open>\<^verbatim>\<open>message.f = reader.read()\<close>\<close>

definition set_field :: "error + ('v \<times> bytes) \<Rightarrow> ('v \<Rightarrow> 'm) \<Rightarrow> error + ('m \<times> bytes)" where
  "set_field r upd = (case r of Inl e \<Rightarrow> Inl e | Inr (v, rest) \<Rightarrow> Inr (upd v, rest))"

text \<open>\<^verbatim>\<open>X.decode(reader, reader.uint32())\<close>\<close>

definition nested :: "(bytes \<Rightarrow> int option \<Rightarrow> error + ('v \<times> bytes)) \<Rightarrow> bytes \<Rightarrow> error + ('v \<times> bytes)" where
  "nested decode_from reader =
     (case r_uint32 reader of Inl e \<Rightarrow> Inl e | Inr (len, rest) \<Rightarrow> decode_from rest (Some len))"

text \<open>\<^verbatim>\<open>default: reader.skipType(tag & 7)\<close>\<close>

definition skip_field :: "int \<Rightarrow> bytes \<Rightarrow> 'm \<Rightarrow> error + ('m \<times> bytes)" where
  "skip_field wireType reader message =
     (case skipType wireType reader of Inl e \<Rightarrow> Inl e | Inr rest \<Rightarrow> Inr (message, rest))"

text \<open>A read never gives bytes back: what it leaves is no longer than what it got.\<close>

definition shrinks :: "(bytes \<Rightarrow> error + ('a \<times> bytes)) \<Rightarrow> bool" where
  "shrinks f = (\<forall>bs v rest. f bs = Inr (v, rest) \<longrightarrow> length rest \<le> length bs)"

named_theorems shrinks_intros

lemma shrinksD: "shrinks f \<Longrightarrow> f bs = Inr (v, rest) \<Longrightarrow> length rest \<le> length bs"
  by (auto simp add: shrinks_def)

lemma shrinks_if [shrinks_intros]:
  "shrinks f \<Longrightarrow> shrinks g \<Longrightarrow> shrinks (\<lambda>bs. if c then f bs else g bs)"
  by (simp add: shrinks_def)

lemma shrinks_set_field [shrinks_intros]:
  "shrinks f \<Longrightarrow> shrinks (\<lambda>bs. set_field (f bs) upd)"
  by (auto simp add: shrinks_def set_field_def split: sum.splits)

lemma shrinks_nested [shrinks_intros]:
  assumes "\<And>len. shrinks (\<lambda>bs. dec bs len)"
  shows "shrinks (nested dec)"
  unfolding shrinks_def nested_def
proof (intro allI impI)
  fix bs v rest
  assume "(case r_uint32 bs of Inl e \<Rightarrow> Inl e | Inr (len, r) \<Rightarrow> dec r (Some len)) = Inr (v, rest)"
  then obtain len r where u: "r_uint32 bs = Inr (len, r)" and d: "dec r (Some len) = Inr (v, rest)"
    by (auto split: sum.splits)
  from shrinksD [OF assms d] r_uint32_length [OF u] show "length rest \<le> length bs"
    by simp
qed

lemma shrinks_skip_field [shrinks_intros]: "shrinks (\<lambda>bs. skip_field wt bs message)"
  by (auto simp add: shrinks_def skip_field_def split: sum.splits dest: skipType_length)

lemma shrinks_r_uint32 [shrinks_intros]: "shrinks r_uint32"
  by (auto simp add: shrinks_def dest!: r_uint32_length)

lemma shrinks_r_int32 [shrinks_intros]: "shrinks r_int32"
  by (auto simp add: shrinks_def dest!: r_int32_length)

lemma shrinks_r_bool [shrinks_intros]: "shrinks r_bool"
  by (auto simp add: shrinks_def dest!: r_bool_length)

lemma shrinks_r_int64 [shrinks_intros]: "shrinks r_int64"
  by (auto simp add: shrinks_def r_int64_def dest!: readLongVarint_length)

lemma shrinks_r_uint64 [shrinks_intros]: "shrinks r_uint64"
  by (auto simp add: shrinks_def r_uint64_def dest!: readLongVarint_length)

lemma shrinks_r_bytes [shrinks_intros]: "shrinks r_bytes"
  by (auto simp add: shrinks_def dest!: r_bytes_length)

lemma shrinks_r_string [shrinks_intros]: "shrinks r_string"
  by (auto simp add: shrinks_def dest!: r_string_length)

text \<open>Every function that satisfies the equation of a decode loop shrinks its reader.\<close>

lemma decode_loop_shrinks:
  fixes L :: "bytes \<Rightarrow> int \<Rightarrow> 'm \<Rightarrow> error + ('m \<times> bytes)"
  assumes eq: "\<And>reader stop message. L reader stop message =
     (if stop < int (length reader)
      then (case r_uint32 reader of Inl e \<Rightarrow> Inl e
            | Inr (tag, reader1) \<Rightarrow>
                (case field tag reader1 message of Inl e \<Rightarrow> Inl e
                 | Inr (message1, reader2) \<Rightarrow> L reader2 stop message1))
      else Inr (message, reader))"
    and field: "\<And>tag message. shrinks (\<lambda>reader. field tag reader message)"
  shows "shrinks (\<lambda>reader. L reader (stop reader) message)"
proof -
  have "L reader s message = Inr (m, rest) \<Longrightarrow> length rest \<le> length reader"
    for reader s message m rest
  proof (induction "length reader" arbitrary: reader message rule: less_induct)
    case less
    show ?case
    proof (cases "s < int (length reader)")
      case True
      with less.prems obtain tag r1 m1 r2 where
        u: "r_uint32 reader = Inr (tag, r1)" and f: "field tag r1 message = Inr (m1, r2)"
        and l: "L r2 s m1 = Inr (m, rest)"
        by (subst (asm) eq) (auto split: sum.splits)
      have "length r2 < length reader"
        using r_uint32_length [OF u] shrinksD [OF field f] by simp
      from less.hyps [OF this l] this show ?thesis
        by simp
    next
      case False
      with less.prems show ?thesis
        by (subst (asm) eq) simp
    qed
  qed
  then show ?thesis
    by (auto simp add: shrinks_def)
qed

subsection \<open>Enums\<close>

definition SlpTokenType_FUNGIBLE :: int where "SlpTokenType_FUNGIBLE = 0"
definition SlpTokenType_NFT1_GROUP :: int where "SlpTokenType_NFT1_GROUP = 1"
definition SlpTokenType_NFT1_CHILD :: int where "SlpTokenType_NFT1_CHILD = 2"
definition SlpTokenType_UNKNOWN_TOKEN_TYPE :: int where "SlpTokenType_UNKNOWN_TOKEN_TYPE = 3"
definition SlpTokenType_UNRECOGNIZED :: int where "SlpTokenType_UNRECOGNIZED = - 1"

definition SlpTxType_GENESIS :: int where "SlpTxType_GENESIS = 0"
definition SlpTxType_SEND :: int where "SlpTxType_SEND = 1"
definition SlpTxType_MINT :: int where "SlpTxType_MINT = 2"
definition SlpTxType_UNKNOWN_TX_TYPE :: int where "SlpTxType_UNKNOWN_TX_TYPE = 3"
definition SlpTxType_UNRECOGNIZED :: int where "SlpTxType_UNRECOGNIZED = - 1"

definition Network_BCH :: int where "Network_BCH = 0"
definition Network_XEC :: int where "Network_XEC = 1"
definition Network_XPI :: int where "Network_XPI = 2"
definition Network_XRG :: int where "Network_XRG = 3"
definition Network_UNRECOGNIZED :: int where "Network_UNRECOGNIZED = - 1"

definition UtxoStateVariant_UNSPENT :: int where "UtxoStateVariant_UNSPENT = 0"
definition UtxoStateVariant_SPENT :: int where "UtxoStateVariant_SPENT = 1"
definition UtxoStateVariant_NO_SUCH_TX :: int where "UtxoStateVariant_NO_SUCH_TX = 2"
definition UtxoStateVariant_NO_SUCH_OUTPUT :: int where "UtxoStateVariant_NO_SUCH_OUTPUT = 3"
definition UtxoStateVariant_UNRECOGNIZED :: int where "UtxoStateVariant_UNRECOGNIZED = - 1"

subsection \<open>OutPoint\<close>

record proto_OutPoint =
  p_OutPoint_txid :: bytes
  p_OutPoint_outIdx :: int

definition baseOutPoint :: "proto_OutPoint" where
  "baseOutPoint = \<lparr>p_OutPoint_txid = [], p_OutPoint_outIdx = 0\<rparr>"

definition OutPoint_encode :: "proto_OutPoint \<Rightarrow> bytes" where
  "OutPoint_encode message =
     (if length (p_OutPoint_txid message) \<noteq> 0 then w_uint32 10 @ w_bytes (p_OutPoint_txid message) else [])
     @ (if p_OutPoint_outIdx message \<noteq> 0 then w_uint32 16 @ w_uint32 (p_OutPoint_outIdx message) else [])"

definition OutPoint_field :: "int \<Rightarrow> bytes \<Rightarrow> proto_OutPoint \<Rightarrow> error + (proto_OutPoint \<times> bytes)" where
  "OutPoint_field tag reader message =
     (if tag div 8 = 1 then set_field (r_bytes reader) (\<lambda>v. message\<lparr>p_OutPoint_txid := v\<rparr>)
      else if tag div 8 = 2 then set_field (r_uint32 reader) (\<lambda>v. message\<lparr>p_OutPoint_outIdx := v\<rparr>)
      else skip_field (tag mod 8) reader message)"

lemma OutPoint_field_shrinks [shrinks_intros]: "shrinks (\<lambda>reader. OutPoint_field tag reader message)"
  unfolding OutPoint_field_def by (intro shrinks_intros)

function OutPoint_decode_loop :: "bytes \<Rightarrow> int \<Rightarrow> proto_OutPoint \<Rightarrow> error + (proto_OutPoint \<times> bytes)" where
  "OutPoint_decode_loop reader stop message =
     (if stop < int (length reader)
      then (case r_uint32 reader of Inl e \<Rightarrow> Inl e
            | Inr (tag, reader1) \<Rightarrow>
                (case OutPoint_field tag reader1 message of Inl e \<Rightarrow> Inl e
                 | Inr (message1, reader2) \<Rightarrow> OutPoint_decode_loop reader2 stop message1))
      else Inr (message, reader))"
  by pat_completeness auto
termination
  by (relation "measure (\<lambda>(reader, stop, message). length reader)")
    (auto dest!: r_uint32_length shrinksD [OF OutPoint_field_shrinks])

declare OutPoint_decode_loop.simps [simp del]

lemma OutPoint_decode_loop_shrinks [shrinks_intros]:
  "shrinks (\<lambda>reader. OutPoint_decode_loop reader (stop reader) message)"
  by (rule decode_loop_shrinks [OF OutPoint_decode_loop.simps OutPoint_field_shrinks])

definition OutPoint_decode_from :: "bytes \<Rightarrow> int option \<Rightarrow> error + (proto_OutPoint \<times> bytes)" where
  "OutPoint_decode_from reader len =
     OutPoint_decode_loop reader (case len of None \<Rightarrow> 0 | Some l \<Rightarrow> int (length reader) - l) baseOutPoint"

lemma OutPoint_decode_from_shrinks [shrinks_intros]: "shrinks (\<lambda>reader. OutPoint_decode_from reader len)"
  unfolding OutPoint_decode_from_def by (rule OutPoint_decode_loop_shrinks)

definition OutPoint_decode :: "bytes \<Rightarrow> error + proto_OutPoint" where
  "OutPoint_decode input =
     (case OutPoint_decode_from input None of Inl e \<Rightarrow> Inl e | Inr (message, rest) \<Rightarrow> Inr message)"

subsection \<open>SlpToken\<close>

record proto_SlpToken =
  p_SlpToken_amount :: Long
  p_SlpToken_isMintBaton :: bool

definition baseSlpToken :: "proto_SlpToken" where
  "baseSlpToken = \<lparr>p_SlpToken_amount = 0, p_SlpToken_isMintBaton = False\<rparr>"

definition SlpToken_encode :: "proto_SlpToken \<Rightarrow> bytes" where
  "SlpToken_encode message =
     (if p_SlpToken_amount message \<noteq> 0 then w_uint32 8 @ w_uint64 (p_SlpToken_amount message) else [])
     @ (if p_SlpToken_isMintBaton message = True then w_uint32 16 @ w_bool (p_SlpToken_isMintBaton message) else [])"

definition SlpToken_field :: "int \<Rightarrow> bytes \<Rightarrow> proto_SlpToken \<Rightarrow> error + (proto_SlpToken \<times> bytes)" where
  "SlpToken_field tag reader message =
     (if tag div 8 = 1 then set_field (r_uint64 reader) (\<lambda>v. message\<lparr>p_SlpToken_amount := v\<rparr>)
      else if tag div 8 = 2 then set_field (r_bool reader) (\<lambda>v. message\<lparr>p_SlpToken_isMintBaton := v\<rparr>)
      else skip_field (tag mod 8) reader message)"

lemma SlpToken_field_shrinks [shrinks_intros]: "shrinks (\<lambda>reader. SlpToken_field tag reader message)"
  unfolding SlpToken_field_def by (intro shrinks_intros)

function SlpToken_decode_loop :: "bytes \<Rightarrow> int \<Rightarrow> proto_SlpToken \<Rightarrow> error + (proto_SlpToken \<times> bytes)" where
  "SlpToken_decode_loop reader stop message =
     (if stop < int (length reader)
      then (case r_uint32 reader of Inl e \<Rightarrow> Inl e
            | Inr (tag, reader1) \<Rightarrow>
                (case SlpToken_field tag reader1 message of Inl e \<Rightarrow> Inl e
                 | Inr (message1, reader2) \<Rightarrow> SlpToken_decode_loop reader2 stop message1))
      else Inr (message, reader))"
  by pat_completeness auto
termination
  by (relation "measure (\<lambda>(reader, stop, message). length reader)")
    (auto dest!: r_uint32_length shrinksD [OF SlpToken_field_shrinks])

declare SlpToken_decode_loop.simps [simp del]

lemma SlpToken_decode_loop_shrinks [shrinks_intros]:
  "shrinks (\<lambda>reader. SlpToken_decode_loop reader (stop reader) message)"
  by (rule decode_loop_shrinks [OF SlpToken_decode_loop.simps SlpToken_field_shrinks])

definition SlpToken_decode_from :: "bytes \<Rightarrow> int option \<Rightarrow> error + (proto_SlpToken \<times> bytes)" where
  "SlpToken_decode_from reader len =
     SlpToken_decode_loop reader (case len of None \<Rightarrow> 0 | Some l \<Rightarrow> int (length reader) - l) baseSlpToken"

lemma SlpToken_decode_from_shrinks [shrinks_intros]: "shrinks (\<lambda>reader. SlpToken_decode_from reader len)"
  unfolding SlpToken_decode_from_def by (rule SlpToken_decode_loop_shrinks)

definition SlpToken_decode :: "bytes \<Rightarrow> error + proto_SlpToken" where
  "SlpToken_decode input =
     (case SlpToken_decode_from input None of Inl e \<Rightarrow> Inl e | Inr (message, rest) \<Rightarrow> Inr message)"

subsection \<open>SlpBurn\<close>

record proto_SlpBurn =
  p_SlpBurn_token :: "proto_SlpToken option"
  p_SlpBurn_tokenId :: bytes

definition baseSlpBurn :: "proto_SlpBurn" where
  "baseSlpBurn = \<lparr>p_SlpBurn_token = None, p_SlpBurn_tokenId = []\<rparr>"

definition SlpBurn_encode :: "proto_SlpBurn \<Rightarrow> bytes" where
  "SlpBurn_encode message =
     (case p_SlpBurn_token message of None \<Rightarrow> [] | Some v \<Rightarrow> w_uint32 10 @ ldelim (SlpToken_encode v))
     @ (if length (p_SlpBurn_tokenId message) \<noteq> 0 then w_uint32 18 @ w_bytes (p_SlpBurn_tokenId message) else [])"

definition SlpBurn_field :: "int \<Rightarrow> bytes \<Rightarrow> proto_SlpBurn \<Rightarrow> error + (proto_SlpBurn \<times> bytes)" where
  "SlpBurn_field tag reader message =
     (if tag div 8 = 1
      then set_field (nested SlpToken_decode_from reader) (\<lambda>v. message\<lparr>p_SlpBurn_token := Some v\<rparr>)
      else if tag div 8 = 2 then set_field (r_bytes reader) (\<lambda>v. message\<lparr>p_SlpBurn_tokenId := v\<rparr>)
      else skip_field (tag mod 8) reader message)"

lemma SlpBurn_field_shrinks [shrinks_intros]: "shrinks (\<lambda>reader. SlpBurn_field tag reader message)"
  unfolding SlpBurn_field_def by (intro shrinks_intros)

function SlpBurn_decode_loop :: "bytes \<Rightarrow> int \<Rightarrow> proto_SlpBurn \<Rightarrow> error + (proto_SlpBurn \<times> bytes)" where
  "SlpBurn_decode_loop reader stop message =
     (if stop < int (length reader)
      then (case r_uint32 reader of Inl e \<Rightarrow> Inl e
            | Inr (tag, reader1) \<Rightarrow>
                (case SlpBurn_field tag reader1 message of Inl e \<Rightarrow> Inl e
                 | Inr (message1, reader2) \<Rightarrow> SlpBurn_decode_loop reader2 stop message1))
      else Inr (message, reader))"
  by pat_completeness auto
termination
  by (relation "measure (\<lambda>(reader, stop, message). length reader)")
    (auto dest!: r_uint32_length shrinksD [OF SlpBurn_field_shrinks])

declare SlpBurn_decode_loop.simps [simp del]

lemma SlpBurn_decode_loop_shrinks [shrinks_intros]:
  "shrinks (\<lambda>reader. SlpBurn_decode_loop reader (stop reader) message)"
  by (rule decode_loop_shrinks [OF SlpBurn_decode_loop.simps SlpBurn_field_shrinks])

definition SlpBurn_decode_from :: "bytes \<Rightarrow> int option \<Rightarrow> error + (proto_SlpBurn \<times> bytes)" where
  "SlpBurn_decode_from reader len =
     SlpBurn_decode_loop reader (case len of None \<Rightarrow> 0 | Some l \<Rightarrow> int (length reader) - l) baseSlpBurn"

lemma SlpBurn_decode_from_shrinks [shrinks_intros]: "shrinks (\<lambda>reader. SlpBurn_decode_from reader len)"
  unfolding SlpBurn_decode_from_def by (rule SlpBurn_decode_loop_shrinks)

definition SlpBurn_decode :: "bytes \<Rightarrow> error + proto_SlpBurn" where
  "SlpBurn_decode input =
     (case SlpBurn_decode_from input None of Inl e \<Rightarrow> Inl e | Inr (message, rest) \<Rightarrow> Inr message)"

subsection \<open>SlpMeta\<close>

record proto_SlpMeta =
  p_SlpMeta_tokenType :: int
  p_SlpMeta_txType :: int
  p_SlpMeta_tokenId :: bytes
  p_SlpMeta_groupTokenId :: bytes

definition baseSlpMeta :: "proto_SlpMeta" where
  "baseSlpMeta = \<lparr>p_SlpMeta_tokenType = 0, p_SlpMeta_txType = 0, p_SlpMeta_tokenId = [], p_SlpMeta_groupTokenId = []\<rparr>"

definition SlpMeta_encode :: "proto_SlpMeta \<Rightarrow> bytes" where
  "SlpMeta_encode message =
     (if p_SlpMeta_tokenType message \<noteq> 0 then w_uint32 8 @ w_int32 (p_SlpMeta_tokenType message) else [])
     @ (if p_SlpMeta_txType message \<noteq> 0 then w_uint32 16 @ w_int32 (p_SlpMeta_txType message) else [])
     @ (if length (p_SlpMeta_tokenId message) \<noteq> 0 then w_uint32 26 @ w_bytes (p_SlpMeta_tokenId message) else [])
     @ (if length (p_SlpMeta_groupTokenId message) \<noteq> 0 then w_uint32 34 @ w_bytes (p_SlpMeta_groupTokenId message) else [])"

definition SlpMeta_field :: "int \<Rightarrow> bytes \<Rightarrow> proto_SlpMeta \<Rightarrow> error + (proto_SlpMeta \<times> bytes)" where
  "SlpMeta_field tag reader message =
     (if tag div 8 = 1 then set_field (r_int32 reader) (\<lambda>v. message\<lparr>p_SlpMeta_tokenType := v\<rparr>)
      else if tag div 8 = 2 then set_field (r_int32 reader) (\<lambda>v. message\<lparr>p_SlpMeta_txType := v\<rparr>)
      else if tag div 8 = 3 then set_field (r_bytes reader) (\<lambda>v. message\<lparr>p_SlpMeta_tokenId := v\<rparr>)
      else if tag div 8 = 4 then set_field (r_bytes reader) (\<lambda>v. message\<lparr>p_SlpMeta_groupTokenId := v\<rparr>)
      else skip_field (tag mod 8) reader message)"

lemma SlpMeta_field_shrinks [shrinks_intros]: "shrinks (\<lambda>reader. SlpMeta_field tag reader message)"
  unfolding SlpMeta_field_def by (intro shrinks_intros)

function SlpMeta_decode_loop :: "bytes \<Rightarrow> int \<Rightarrow> proto_SlpMeta \<Rightarrow> error + (proto_SlpMeta \<times> bytes)" where
  "SlpMeta_decode_loop reader stop message =
     (if stop < int (length reader)
      then (case r_uint32 reader of Inl e \<Rightarrow> Inl e
            | Inr (tag, reader1) \<Rightarrow>
                (case SlpMeta_field tag reader1 message of Inl e \<Rightarrow> Inl e
                 | Inr (message1, reader2) \<Rightarrow> SlpMeta_decode_loop reader2 stop message1))
      else Inr (message, reader))"
  by pat_completeness auto
termination
  by (relation "measure (\<lambda>(reader, stop, message). length reader)")
    (auto dest!: r_uint32_length shrinksD [OF SlpMeta_field_shrinks])

declare SlpMeta_decode_loop.simps [simp del]

lemma SlpMeta_decode_loop_shrinks [shrinks_intros]:
  "shrinks (\<lambda>reader. SlpMeta_decode_loop reader (stop reader) message)"
  by (rule decode_loop_shrinks [OF SlpMeta_decode_loop.simps SlpMeta_field_shrinks])

definition SlpMeta_decode_from :: "bytes \<Rightarrow> int option \<Rightarrow> error + (proto_SlpMeta \<times> bytes)" where
  "SlpMeta_decode_from reader len =
     SlpMeta_decode_loop reader (case len of None \<Rightarrow> 0 | Some l \<Rightarrow> int (length reader) - l) baseSlpMeta"

lemma SlpMeta_decode_from_shrinks [shrinks_intros]: "shrinks (\<lambda>reader. SlpMeta_decode_from reader len)"
  unfolding SlpMeta_decode_from_def by (rule SlpMeta_decode_loop_shrinks)

definition SlpMeta_decode :: "bytes \<Rightarrow> error + proto_SlpMeta" where
  "SlpMeta_decode input =
     (case SlpMeta_decode_from input None of Inl e \<Rightarrow> Inl e | Inr (message, rest) \<Rightarrow> Inr message)"

subsection \<open>SlpGenesisInfo\<close>

record proto_SlpGenesisInfo =
  p_SlpGenesisInfo_tokenTicker :: bytes
  p_SlpGenesisInfo_tokenName :: bytes
  p_SlpGenesisInfo_tokenDocumentUrl :: bytes
  p_SlpGenesisInfo_tokenDocumentHash :: bytes
  p_SlpGenesisInfo_decimals :: int

definition baseSlpGenesisInfo :: "proto_SlpGenesisInfo" where
  "baseSlpGenesisInfo = \<lparr>p_SlpGenesisInfo_tokenTicker = [], p_SlpGenesisInfo_tokenName = [], p_SlpGenesisInfo_tokenDocumentUrl = [], p_SlpGenesisInfo_tokenDocumentHash = [], p_SlpGenesisInfo_decimals = 0\<rparr>"

definition SlpGenesisInfo_encode :: "proto_SlpGenesisInfo \<Rightarrow> bytes" where
  "SlpGenesisInfo_encode message =
     (if length (p_SlpGenesisInfo_tokenTicker message) \<noteq> 0 then w_uint32 10 @ w_bytes (p_SlpGenesisInfo_tokenTicker message) else [])
     @ (if length (p_SlpGenesisInfo_tokenName message) \<noteq> 0 then w_uint32 18 @ w_bytes (p_SlpGenesisInfo_tokenName message) else [])
     @ (if length (p_SlpGenesisInfo_tokenDocumentUrl message) \<noteq> 0 then w_uint32 26 @ w_bytes (p_SlpGenesisInfo_tokenDocumentUrl message) else [])
     @ (if length (p_SlpGenesisInfo_tokenDocumentHash message) \<noteq> 0 then w_uint32 34 @ w_bytes (p_SlpGenesisInfo_tokenDocumentHash message) else [])
     @ (if p_SlpGenesisInfo_decimals message \<noteq> 0 then w_uint32 40 @ w_uint32 (p_SlpGenesisInfo_decimals message) else [])"

definition SlpGenesisInfo_field :: "int \<Rightarrow> bytes \<Rightarrow> proto_SlpGenesisInfo \<Rightarrow> error + (proto_SlpGenesisInfo \<times> bytes)" where
  "SlpGenesisInfo_field tag reader message =
     (if tag div 8 = 1 then set_field (r_bytes reader) (\<lambda>v. message\<lparr>p_SlpGenesisInfo_tokenTicker := v\<rparr>)
      else if tag div 8 = 2 then set_field (r_bytes reader) (\<lambda>v. message\<lparr>p_SlpGenesisInfo_tokenName := v\<rparr>)
      else if tag div 8 = 3 then set_field (r_bytes reader) (\<lambda>v. message\<lparr>p_SlpGenesisInfo_tokenDocumentUrl := v\<rparr>)
      else if tag div 8 = 4 then set_field (r_bytes reader) (\<lambda>v. message\<lparr>p_SlpGenesisInfo_tokenDocumentHash := v\<rparr>)
      else if tag div 8 = 5 then set_field (r_uint32 reader) (\<lambda>v. message\<lparr>p_SlpGenesisInfo_decimals := v\<rparr>)
      else skip_field (tag mod 8) reader message)"

lemma SlpGenesisInfo_field_shrinks [shrinks_intros]: "shrinks (\<lambda>reader. SlpGenesisInfo_field tag reader message)"
  unfolding SlpGenesisInfo_field_def by (intro shrinks_intros)

function SlpGenesisInfo_decode_loop :: "bytes \<Rightarrow> int \<Rightarrow> proto_SlpGenesisInfo \<Rightarrow> error + (proto_SlpGenesisInfo \<times> bytes)" where
  "SlpGenesisInfo_decode_loop reader stop message =
     (if stop < int (length reader)
      then (case r_uint32 reader of Inl e \<Rightarrow> Inl e
            | Inr (tag, reader1) \<Rightarrow>
                (case SlpGenesisInfo_field tag reader1 message of Inl e \<Rightarrow> Inl e
                 | Inr (message1, reader2) \<Rightarrow> SlpGenesisInfo_decode_loop reader2 stop message1))
      else Inr (message, reader))"
  by pat_completeness auto
termination
  by (relation "measure (\<lambda>(reader, stop, message). length reader)")
    (auto dest!: r_uint32_length shrinksD [OF SlpGenesisInfo_field_shrinks])

declare SlpGenesisInfo_decode_loop.simps [simp del]

lemma SlpGenesisInfo_decode_loop_shrinks [shrinks_intros]:
  "shrinks (\<lambda>reader. SlpGenesisInfo_decode_loop reader (stop reader) message)"
  by (rule decode_loop_shrinks [OF SlpGenesisInfo_decode_loop.simps SlpGenesisInfo_field_shrinks])

definition SlpGenesisInfo_decode_from :: "bytes \<Rightarrow> int option \<Rightarrow> error + (proto_SlpGenesisInfo \<times> bytes)" where
  "SlpGenesisInfo_decode_from reader len =
     SlpGenesisInfo_decode_loop reader (case len of None \<Rightarrow> 0 | Some l \<Rightarrow> int (length reader) - l) baseSlpGenesisInfo"

lemma SlpGenesisInfo_decode_from_shrinks [shrinks_intros]: "shrinks (\<lambda>reader. SlpGenesisInfo_decode_from reader len)"
  unfolding SlpGenesisInfo_decode_from_def by (rule SlpGenesisInfo_decode_loop_shrinks)

definition SlpGenesisInfo_decode :: "bytes \<Rightarrow> error + proto_SlpGenesisInfo" where
  "SlpGenesisInfo_decode input =
     (case SlpGenesisInfo_decode_from input None of Inl e \<Rightarrow> Inl e | Inr (message, rest) \<Rightarrow> Inr message)"

subsection \<open>SlpTxData\<close>

record proto_SlpTxData =
  p_SlpTxData_slpMeta :: "proto_SlpMeta option"
  p_SlpTxData_genesisInfo :: "proto_SlpGenesisInfo option"

definition baseSlpTxData :: "proto_SlpTxData" where
  "baseSlpTxData = \<lparr>p_SlpTxData_slpMeta = None, p_SlpTxData_genesisInfo = None\<rparr>"

definition SlpTxData_encode :: "proto_SlpTxData \<Rightarrow> bytes" where
  "SlpTxData_encode message =
     (case p_SlpTxData_slpMeta message of None \<Rightarrow> [] | Some v \<Rightarrow> w_uint32 10 @ ldelim (SlpMeta_encode v))
     @ (case p_SlpTxData_genesisInfo message of None \<Rightarrow> [] | Some v \<Rightarrow> w_uint32 18 @ ldelim (SlpGenesisInfo_encode v))"

definition SlpTxData_field :: "int \<Rightarrow> bytes \<Rightarrow> proto_SlpTxData \<Rightarrow> error + (proto_SlpTxData \<times> bytes)" where
  "SlpTxData_field tag reader message =
     (if tag div 8 = 1
      then set_field (nested SlpMeta_decode_from reader) (\<lambda>v. message\<lparr>p_SlpTxData_slpMeta := Some v\<rparr>)
      else if tag div 8 = 2
      then set_field (nested SlpGenesisInfo_decode_from reader) (\<lambda>v. message\<lparr>p_SlpTxData_genesisInfo := Some v\<rparr>)
      else skip_field (tag mod 8) reader message)"

lemma SlpTxData_field_shrinks [shrinks_intros]: "shrinks (\<lambda>reader. SlpTxData_field tag reader message)"
  unfolding SlpTxData_field_def by (intro shrinks_intros)

function SlpTxData_decode_loop :: "bytes \<Rightarrow> int \<Rightarrow> proto_SlpTxData \<Rightarrow> error + (proto_SlpTxData \<times> bytes)" where
  "SlpTxData_decode_loop reader stop message =
     (if stop < int (length reader)
      then (case r_uint32 reader of Inl e \<Rightarrow> Inl e
            | Inr (tag, reader1) \<Rightarrow>
                (case SlpTxData_field tag reader1 message of Inl e \<Rightarrow> Inl e
                 | Inr (message1, reader2) \<Rightarrow> SlpTxData_decode_loop reader2 stop message1))
      else Inr (message, reader))"
  by pat_completeness auto
termination
  by (relation "measure (\<lambda>(reader, stop, message). length reader)")
    (auto dest!: r_uint32_length shrinksD [OF SlpTxData_field_shrinks])

declare SlpTxData_decode_loop.simps [simp del]

lemma SlpTxData_decode_loop_shrinks [shrinks_intros]:
  "shrinks (\<lambda>reader. SlpTxData_decode_loop reader (stop reader) message)"
  by (rule decode_loop_shrinks [OF SlpTxData_decode_loop.simps SlpTxData_field_shrinks])

definition SlpTxData_decode_from :: "bytes \<Rightarrow> int option \<Rightarrow> error + (proto_SlpTxData \<times> bytes)" where
  "SlpTxData_decode_from reader len =
     SlpTxData_decode_loop reader (case len of None \<Rightarrow> 0 | Some l \<Rightarrow> int (length reader) - l) baseSlpTxData"

lemma SlpTxData_decode_from_shrinks [shrinks_intros]: "shrinks (\<lambda>reader. SlpTxData_decode_from reader len)"
  unfolding SlpTxData_decode_from_def by (rule SlpTxData_decode_loop_shrinks)

definition SlpTxData_decode :: "bytes \<Rightarrow> error + proto_SlpTxData" where
  "SlpTxData_decode input =
     (case SlpTxData_decode_from input None of Inl e \<Rightarrow> Inl e | Inr (message, rest) \<Rightarrow> Inr message)"

subsection \<open>BlockMetadata\<close>

record proto_BlockMetadata =
  p_BlockMetadata_height :: int
  p_BlockMetadata_hash :: bytes
  p_BlockMetadata_timestamp :: Long

definition baseBlockMetadata :: "proto_BlockMetadata" where
  "baseBlockMetadata = \<lparr>p_BlockMetadata_height = 0, p_BlockMetadata_hash = [], p_BlockMetadata_timestamp = 0\<rparr>"

definition BlockMetadata_encode :: "proto_BlockMetadata \<Rightarrow> bytes" where
  "BlockMetadata_encode message =
     (if p_BlockMetadata_height message \<noteq> 0 then w_uint32 8 @ w_int32 (p_BlockMetadata_height message) else [])
     @ (if length (p_BlockMetadata_hash message) \<noteq> 0 then w_uint32 18 @ w_bytes (p_BlockMetadata_hash message) else [])
     @ (if p_BlockMetadata_timestamp message \<noteq> 0 then w_uint32 24 @ w_int64 (p_BlockMetadata_timestamp message) else [])"

definition BlockMetadata_field :: "int \<Rightarrow> bytes \<Rightarrow> proto_BlockMetadata \<Rightarrow> error + (proto_BlockMetadata \<times> bytes)" where
  "BlockMetadata_field tag reader message =
     (if tag div 8 = 1 then set_field (r_int32 reader) (\<lambda>v. message\<lparr>p_BlockMetadata_height := v\<rparr>)
      else if tag div 8 = 2 then set_field (r_bytes reader) (\<lambda>v. message\<lparr>p_BlockMetadata_hash := v\<rparr>)
      else if tag div 8 = 3 then set_field (r_int64 reader) (\<lambda>v. message\<lparr>p_BlockMetadata_timestamp := v\<rparr>)
      else skip_field (tag mod 8) reader message)"

lemma BlockMetadata_field_shrinks [shrinks_intros]: "shrinks (\<lambda>reader. BlockMetadata_field tag reader message)"
  unfolding BlockMetadata_field_def by (intro shrinks_intros)

function BlockMetadata_decode_loop :: "bytes \<Rightarrow> int \<Rightarrow> proto_BlockMetadata \<Rightarrow> error + (proto_BlockMetadata \<times> bytes)" where
  "BlockMetadata_decode_loop reader stop message =
     (if stop < int (length reader)
      then (case r_uint32 reader of Inl e \<Rightarrow> Inl e
            | Inr (tag, reader1) \<Rightarrow>
                (case BlockMetadata_field tag reader1 message of Inl e \<Rightarrow> Inl e
                 | Inr (message1, reader2) \<Rightarrow> BlockMetadata_decode_loop reader2 stop message1))
      else Inr (message, reader))"
  by pat_completeness auto
termination
  by (relation "measure (\<lambda>(reader, stop, message). length reader)")
    (auto dest!: r_uint32_length shrinksD [OF BlockMetadata_field_shrinks])

declare BlockMetadata_decode_loop.simps [simp del]

lemma BlockMetadata_decode_loop_shrinks [shrinks_intros]:
  "shrinks (\<lambda>reader. BlockMetadata_decode_loop reader (stop reader) message)"
  by (rule decode_loop_shrinks [OF BlockMetadata_decode_loop.simps BlockMetadata_field_shrinks])

definition BlockMetadata_decode_from :: "bytes \<Rightarrow> int option \<Rightarrow> error + (proto_BlockMetadata \<times> bytes)" where
  "BlockMetadata_decode_from reader len =
     BlockMetadata_decode_loop reader (case len of None \<Rightarrow> 0 | Some l \<Rightarrow> int (length reader) - l) baseBlockMetadata"

lemma BlockMetadata_decode_from_shrinks [shrinks_intros]: "shrinks (\<lambda>reader. BlockMetadata_decode_from reader len)"
  unfolding BlockMetadata_decode_from_def by (rule BlockMetadata_decode_loop_shrinks)

definition BlockMetadata_decode :: "bytes \<Rightarrow> error + proto_BlockMetadata" where
  "BlockMetadata_decode input =
     (case BlockMetadata_decode_from input None of Inl e \<Rightarrow> Inl e | Inr (message, rest) \<Rightarrow> Inr message)"

subsection \<open>TxInput\<close>

record proto_TxInput =
  p_TxInput_prevOut :: "proto_OutPoint option"
  p_TxInput_inputScript :: bytes
  p_TxInput_outputScript :: bytes
  p_TxInput_value :: Long
  p_TxInput_sequenceNo :: int
  p_TxInput_slpBurn :: "proto_SlpBurn option"
  p_TxInput_slpToken :: "proto_SlpToken option"

definition baseTxInput :: "proto_TxInput" where
  "baseTxInput = \<lparr>p_TxInput_prevOut = None, p_TxInput_inputScript = [], p_TxInput_outputScript = [], p_TxInput_value = 0, p_TxInput_sequenceNo = 0, p_TxInput_slpBurn = None, p_TxInput_slpToken = None\<rparr>"

definition TxInput_encode :: "proto_TxInput \<Rightarrow> bytes" where
  "TxInput_encode message =
     (case p_TxInput_prevOut message of None \<Rightarrow> [] | Some v \<Rightarrow> w_uint32 10 @ ldelim (OutPoint_encode v))
     @ (if length (p_TxInput_inputScript message) \<noteq> 0 then w_uint32 18 @ w_bytes (p_TxInput_inputScript message) else [])
     @ (if length (p_TxInput_outputScript message) \<noteq> 0 then w_uint32 26 @ w_bytes (p_TxInput_outputScript message) else [])
     @ (if p_TxInput_value message \<noteq> 0 then w_uint32 32 @ w_int64 (p_TxInput_value message) else [])
     @ (if p_TxInput_sequenceNo message \<noteq> 0 then w_uint32 40 @ w_uint32 (p_TxInput_sequenceNo message) else [])
     @ (case p_TxInput_slpBurn message of None \<Rightarrow> [] | Some v \<Rightarrow> w_uint32 50 @ ldelim (SlpBurn_encode v))
     @ (case p_TxInput_slpToken message of None \<Rightarrow> [] | Some v \<Rightarrow> w_uint32 58 @ ldelim (SlpToken_encode v))"

definition TxInput_field :: "int \<Rightarrow> bytes \<Rightarrow> proto_TxInput \<Rightarrow> error + (proto_TxInput \<times> bytes)" where
  "TxInput_field tag reader message =
     (if tag div 8 = 1
      then set_field (nested OutPoint_decode_from reader) (\<lambda>v. message\<lparr>p_TxInput_prevOut := Some v\<rparr>)
      else if tag div 8 = 2 then set_field (r_bytes reader) (\<lambda>v. message\<lparr>p_TxInput_inputScript := v\<rparr>)
      else if tag div 8 = 3 then set_field (r_bytes reader) (\<lambda>v. message\<lparr>p_TxInput_outputScript := v\<rparr>)
      else if tag div 8 = 4 then set_field (r_int64 reader) (\<lambda>v. message\<lparr>p_TxInput_value := v\<rparr>)
      else if tag div 8 = 5 then set_field (r_uint32 reader) (\<lambda>v. message\<lparr>p_TxInput_sequenceNo := v\<rparr>)
      else if tag div 8 = 6
      then set_field (nested SlpBurn_decode_from reader) (\<lambda>v. message\<lparr>p_TxInput_slpBurn := Some v\<rparr>)
      else if tag div 8 = 7
      then set_field (nested SlpToken_decode_from reader) (\<lambda>v. message\<lparr>p_TxInput_slpToken := Some v\<rparr>)
      else skip_field (tag mod 8) reader message)"

lemma TxInput_field_shrinks [shrinks_intros]: "shrinks (\<lambda>reader. TxInput_field tag reader message)"
  unfolding TxInput_field_def by (intro shrinks_intros)

function TxInput_decode_loop :: "bytes \<Rightarrow> int \<Rightarrow> proto_TxInput \<Rightarrow> error + (proto_TxInput \<times> bytes)" where
  "TxInput_decode_loop reader stop message =
     (if stop < int (length reader)
      then (case r_uint32 reader of Inl e \<Rightarrow> Inl e
            | Inr (tag, reader1) \<Rightarrow>
                (case TxInput_field tag reader1 message of Inl e \<Rightarrow> Inl e
                 | Inr (message1, reader2) \<Rightarrow> TxInput_decode_loop reader2 stop message1))
      else Inr (message, reader))"
  by pat_completeness auto
termination
  by (relation "measure (\<lambda>(reader, stop, message). length reader)")
    (auto dest!: r_uint32_length shrinksD [OF TxInput_field_shrinks])

declare TxInput_decode_loop.simps [simp del]

lemma TxInput_decode_loop_shrinks [shrinks_intros]:
  "shrinks (\<lambda>reader. TxInput_decode_loop reader (stop reader) message)"
  by (rule decode_loop_shrinks [OF TxInput_decode_loop.simps TxInput_field_shrinks])

definition TxInput_decode_from :: "bytes \<Rightarrow> int option \<Rightarrow> error + (proto_TxInput \<times> bytes)" where
  "TxInput_decode_from reader len =
     TxInput_decode_loop reader (case len of None \<Rightarrow> 0 | Some l \<Rightarrow> int (length reader) - l) baseTxInput"

lemma TxInput_decode_from_shrinks [shrinks_intros]: "shrinks (\<lambda>reader. TxInput_decode_from reader len)"
  unfolding TxInput_decode_from_def by (rule TxInput_decode_loop_shrinks)

definition TxInput_decode :: "bytes \<Rightarrow> error + proto_TxInput" where
  "TxInput_decode input =
     (case TxInput_decode_from input None of Inl e \<Rightarrow> Inl e | Inr (message, rest) \<Rightarrow> Inr message)"

subsection \<open>TxOutput\<close>

record proto_TxOutput =
  p_TxOutput_value :: Long
  p_TxOutput_outputScript :: bytes
  p_TxOutput_slpToken :: "proto_SlpToken option"
  p_TxOutput_spentBy :: "proto_OutPoint option"

definition baseTxOutput :: "proto_TxOutput" where
  "baseTxOutput = \<lparr>p_TxOutput_value = 0, p_TxOutput_outputScript = [], p_TxOutput_slpToken = None, p_TxOutput_spentBy = None\<rparr>"

definition TxOutput_encode :: "proto_TxOutput \<Rightarrow> bytes" where
  "TxOutput_encode message =
     (if p_TxOutput_value message \<noteq> 0 then w_uint32 8 @ w_int64 (p_TxOutput_value message) else [])
     @ (if length (p_TxOutput_outputScript message) \<noteq> 0 then w_uint32 18 @ w_bytes (p_TxOutput_outputScript message) else [])
     @ (case p_TxOutput_slpToken message of None \<Rightarrow> [] | Some v \<Rightarrow> w_uint32 26 @ ldelim (SlpToken_encode v))
     @ (case p_TxOutput_spentBy message of None \<Rightarrow> [] | Some v \<Rightarrow> w_uint32 34 @ ldelim (OutPoint_encode v))"

definition TxOutput_field :: "int \<Rightarrow> bytes \<Rightarrow> proto_TxOutput \<Rightarrow> error + (proto_TxOutput \<times> bytes)" where
  "TxOutput_field tag reader message =
     (if tag div 8 = 1 then set_field (r_int64 reader) (\<lambda>v. message\<lparr>p_TxOutput_value := v\<rparr>)
      else if tag div 8 = 2 then set_field (r_bytes reader) (\<lambda>v. message\<lparr>p_TxOutput_outputScript := v\<rparr>)
      else if tag div 8 = 3
      then set_field (nested SlpToken_decode_from reader) (\<lambda>v. message\<lparr>p_TxOutput_slpToken := Some v\<rparr>)
      else if tag div 8 = 4
      then set_field (nested OutPoint_decode_from reader) (\<lambda>v. message\<lparr>p_TxOutput_spentBy := Some v\<rparr>)
      else skip_field (tag mod 8) reader message)"

lemma TxOutput_field_shrinks [shrinks_intros]: "shrinks (\<lambda>reader. TxOutput_field tag reader message)"
  unfolding TxOutput_field_def by (intro shrinks_intros)

function TxOutput_decode_loop :: "bytes \<Rightarrow> int \<Rightarrow> proto_TxOutput \<Rightarrow> error + (proto_TxOutput \<times> bytes)" where
  "TxOutput_decode_loop reader stop message =
     (if stop < int (length reader)
      then (case r_uint32 reader of Inl e \<Rightarrow> Inl e
            | Inr (tag, reader1) \<Rightarrow>
                (case TxOutput_field tag reader1 message of Inl e \<Rightarrow> Inl e
                 | Inr (message1, reader2) \<Rightarrow> TxOutput_decode_loop reader2 stop message1))
      else Inr (message, reader))"
  by pat_completeness auto
termination
  by (relation "measure (\<lambda>(reader, stop, message). length reader)")
    (auto dest!: r_uint32_length shrinksD [OF TxOutput_field_shrinks])

declare TxOutput_decode_loop.simps [simp del]

lemma TxOutput_decode_loop_shrinks [shrinks_intros]:
  "shrinks (\<lambda>reader. TxOutput_decode_loop reader (stop reader) message)"
  by (rule decode_loop_shrinks [OF TxOutput_decode_loop.simps TxOutput_field_shrinks])

definition TxOutput_decode_from :: "bytes \<Rightarrow> int option \<Rightarrow> error + (proto_TxOutput \<times> bytes)" where
  "TxOutput_decode_from reader len =
     TxOutput_decode_loop reader (case len of None \<Rightarrow> 0 | Some l \<Rightarrow> int (length reader) - l) baseTxOutput"

lemma TxOutput_decode_from_shrinks [shrinks_intros]: "shrinks (\<lambda>reader. TxOutput_decode_from reader len)"
  unfolding TxOutput_decode_from_def by (rule TxOutput_decode_loop_shrinks)

definition TxOutput_decode :: "bytes \<Rightarrow> error + proto_TxOutput" where
  "TxOutput_decode input =
     (case TxOutput_decode_from input None of Inl e \<Rightarrow> Inl e | Inr (message, rest) \<Rightarrow> Inr message)"

subsection \<open>Tx\<close>

record proto_Tx =
  p_Tx_txid :: bytes
  p_Tx_version :: int
  p_Tx_inputs :: "proto_TxInput list"
  p_Tx_outputs :: "proto_TxOutput list"
  p_Tx_lockTime :: int
  p_Tx_slpTxData :: "proto_SlpTxData option"
  p_Tx_slpErrorMsg :: jsstring
  p_Tx_block :: "proto_BlockMetadata option"
  p_Tx_timeFirstSeen :: Long
  p_Tx_network :: int

definition baseTx :: "proto_Tx" where
  "baseTx = \<lparr>p_Tx_txid = [], p_Tx_version = 0, p_Tx_inputs = [], p_Tx_outputs = [], p_Tx_lockTime = 0, p_Tx_slpTxData = None, p_Tx_slpErrorMsg = [], p_Tx_block = None, p_Tx_timeFirstSeen = 0, p_Tx_network = 0\<rparr>"

definition Tx_encode :: "proto_Tx \<Rightarrow> bytes" where
  "Tx_encode message =
     (if length (p_Tx_txid message) \<noteq> 0 then w_uint32 10 @ w_bytes (p_Tx_txid message) else [])
     @ (if p_Tx_version message \<noteq> 0 then w_uint32 16 @ w_int32 (p_Tx_version message) else [])
     @ concat (map (\<lambda>v. w_uint32 26 @ ldelim (TxInput_encode v)) (p_Tx_inputs message))
     @ concat (map (\<lambda>v. w_uint32 34 @ ldelim (TxOutput_encode v)) (p_Tx_outputs message))
     @ (if p_Tx_lockTime message \<noteq> 0 then w_uint32 40 @ w_uint32 (p_Tx_lockTime message) else [])
     @ (case p_Tx_slpTxData message of None \<Rightarrow> [] | Some v \<Rightarrow> w_uint32 50 @ ldelim (SlpTxData_encode v))
     @ (if p_Tx_slpErrorMsg message \<noteq> [] then w_uint32 58 @ w_string (p_Tx_slpErrorMsg message) else [])
     @ (case p_Tx_block message of None \<Rightarrow> [] | Some v \<Rightarrow> w_uint32 66 @ ldelim (BlockMetadata_encode v))
     @ (if p_Tx_timeFirstSeen message \<noteq> 0 then w_uint32 72 @ w_int64 (p_Tx_timeFirstSeen message) else [])
     @ (if p_Tx_network message \<noteq> 0 then w_uint32 80 @ w_int32 (p_Tx_network message) else [])"

definition Tx_field :: "int \<Rightarrow> bytes \<Rightarrow> proto_Tx \<Rightarrow> error + (proto_Tx \<times> bytes)" where
  "Tx_field tag reader message =
     (if tag div 8 = 1 then set_field (r_bytes reader) (\<lambda>v. message\<lparr>p_Tx_txid := v\<rparr>)
      else if tag div 8 = 2 then set_field (r_int32 reader) (\<lambda>v. message\<lparr>p_Tx_version := v\<rparr>)
      else if tag div 8 = 3
      then set_field (nested TxInput_decode_from reader) (\<lambda>v. message\<lparr>p_Tx_inputs := p_Tx_inputs message @ [v]\<rparr>)
      else if tag div 8 = 4
      then set_field (nested TxOutput_decode_from reader) (\<lambda>v. message\<lparr>p_Tx_outputs := p_Tx_outputs message @ [v]\<rparr>)
      else if tag div 8 = 5 then set_field (r_uint32 reader) (\<lambda>v. message\<lparr>p_Tx_lockTime := v\<rparr>)
      else if tag div 8 = 6
      then set_field (nested SlpTxData_decode_from reader) (\<lambda>v. message\<lparr>p_Tx_slpTxData := Some v\<rparr>)
      else if tag div 8 = 7 then set_field (r_string reader) (\<lambda>v. message\<lparr>p_Tx_slpErrorMsg := v\<rparr>)
      else if tag div 8 = 8
      then set_field (nested BlockMetadata_decode_from reader) (\<lambda>v. message\<lparr>p_Tx_block := Some v\<rparr>)
      else if tag div 8 = 9 then set_field (r_int64 reader) (\<lambda>v. message\<lparr>p_Tx_timeFirstSeen := v\<rparr>)
      else if tag div 8 = 10 then set_field (r_int32 reader) (\<lambda>v. message\<lparr>p_Tx_network := v\<rparr>)
      else skip_field (tag mod 8) reader message)"

lemma Tx_field_shrinks [shrinks_intros]: "shrinks (\<lambda>reader. Tx_field tag reader message)"
  unfolding Tx_field_def by (intro shrinks_intros)

function Tx_decode_loop :: "bytes \<Rightarrow> int \<Rightarrow> proto_Tx \<Rightarrow> error + (proto_Tx \<times> bytes)" where
  "Tx_decode_loop reader stop message =
     (if stop < int (length reader)
      then (case r_uint32 reader of Inl e \<Rightarrow> Inl e
            | Inr (tag, reader1) \<Rightarrow>
                (case Tx_field tag reader1 message of Inl e \<Rightarrow> Inl e
                 | Inr (message1, reader2) \<Rightarrow> Tx_decode_loop reader2 stop message1))
      else Inr (message, reader))"
  by pat_completeness auto
termination
  by (relation "measure (\<lambda>(reader, stop, message). length reader)")
    (auto dest!: r_uint32_length shrinksD [OF Tx_field_shrinks])

declare Tx_decode_loop.simps [simp del]

lemma Tx_decode_loop_shrinks [shrinks_intros]:
  "shrinks (\<lambda>reader. Tx_decode_loop reader (stop reader) message)"
  by (rule decode_loop_shrinks [OF Tx_decode_loop.simps Tx_field_shrinks])

definition Tx_decode_from :: "bytes \<Rightarrow> int option \<Rightarrow> error + (proto_Tx \<times> bytes)" where
  "Tx_decode_from reader len =
     Tx_decode_loop reader (case len of None \<Rightarrow> 0 | Some l \<Rightarrow> int (length reader) - l) baseTx"

lemma Tx_decode_from_shrinks [shrinks_intros]: "shrinks (\<lambda>reader. Tx_decode_from reader len)"
  unfolding Tx_decode_from_def by (rule Tx_decode_loop_shrinks)

definition Tx_decode :: "bytes \<Rightarrow> error + proto_Tx" where
  "Tx_decode input =
     (case Tx_decode_from input None of Inl e \<Rightarrow> Inl e | Inr (message, rest) \<Rightarrow> Inr message)"

subsection \<open>Utxo\<close>

record proto_Utxo =
  p_Utxo_outpoint :: "proto_OutPoint option"
  p_Utxo_blockHeight :: int
  p_Utxo_isCoinbase :: bool
  p_Utxo_value :: Long
  p_Utxo_slpMeta :: "proto_SlpMeta option"
  p_Utxo_slpToken :: "proto_SlpToken option"
  p_Utxo_network :: int

definition baseUtxo :: "proto_Utxo" where
  "baseUtxo = \<lparr>p_Utxo_outpoint = None, p_Utxo_blockHeight = 0, p_Utxo_isCoinbase = False, p_Utxo_value = 0, p_Utxo_slpMeta = None, p_Utxo_slpToken = None, p_Utxo_network = 0\<rparr>"

definition Utxo_encode :: "proto_Utxo \<Rightarrow> bytes" where
  "Utxo_encode message =
     (case p_Utxo_outpoint message of None \<Rightarrow> [] | Some v \<Rightarrow> w_uint32 10 @ ldelim (OutPoint_encode v))
     @ (if p_Utxo_blockHeight message \<noteq> 0 then w_uint32 16 @ w_int32 (p_Utxo_blockHeight message) else [])
     @ (if p_Utxo_isCoinbase message = True then w_uint32 24 @ w_bool (p_Utxo_isCoinbase message) else [])
     @ (if p_Utxo_value message \<noteq> 0 then w_uint32 40 @ w_int64 (p_Utxo_value message) else [])
     @ (case p_Utxo_slpMeta message of None \<Rightarrow> [] | Some v \<Rightarrow> w_uint32 50 @ ldelim (SlpMeta_encode v))
     @ (case p_Utxo_slpToken message of None \<Rightarrow> [] | Some v \<Rightarrow> w_uint32 58 @ ldelim (SlpToken_encode v))
     @ (if p_Utxo_network message \<noteq> 0 then w_uint32 72 @ w_int32 (p_Utxo_network message) else [])"

definition Utxo_field :: "int \<Rightarrow> bytes \<Rightarrow> proto_Utxo \<Rightarrow> error + (proto_Utxo \<times> bytes)" where
  "Utxo_field tag reader message =
     (if tag div 8 = 1
      then set_field (nested OutPoint_decode_from reader) (\<lambda>v. message\<lparr>p_Utxo_outpoint := Some v\<rparr>)
      else if tag div 8 = 2 then set_field (r_int32 reader) (\<lambda>v. message\<lparr>p_Utxo_blockHeight := v\<rparr>)
      else if tag div 8 = 3 then set_field (r_bool reader) (\<lambda>v. message\<lparr>p_Utxo_isCoinbase := v\<rparr>)
      else if tag div 8 = 5 then set_field (r_int64 reader) (\<lambda>v. message\<lparr>p_Utxo_value := v\<rparr>)
      else if tag div 8 = 6
      then set_field (nested SlpMeta_decode_from reader) (\<lambda>v. message\<lparr>p_Utxo_slpMeta := Some v\<rparr>)
      else if tag div 8 = 7
      then set_field (nested SlpToken_decode_from reader) (\<lambda>v. message\<lparr>p_Utxo_slpToken := Some v\<rparr>)
      else if tag div 8 = 9 then set_field (r_int32 reader) (\<lambda>v. message\<lparr>p_Utxo_network := v\<rparr>)
      else skip_field (tag mod 8) reader message)"

lemma Utxo_field_shrinks [shrinks_intros]: "shrinks (\<lambda>reader. Utxo_field tag reader message)"
  unfolding Utxo_field_def by (intro shrinks_intros)

function Utxo_decode_loop :: "bytes \<Rightarrow> int \<Rightarrow> proto_Utxo \<Rightarrow> error + (proto_Utxo \<times> bytes)" where
  "Utxo_decode_loop reader stop message =
     (if stop < int (length reader)
      then (case r_uint32 reader of Inl e \<Rightarrow> Inl e
            | Inr (tag, reader1) \<Rightarrow>
                (case Utxo_field tag reader1 message of Inl e \<Rightarrow> Inl e
                 | Inr (message1, reader2) \<Rightarrow> Utxo_decode_loop reader2 stop message1))
      else Inr (message, reader))"
  by pat_completeness auto
termination
  by (relation "measure (\<lambda>(reader, stop, message). length reader)")
    (auto dest!: r_uint32_length shrinksD [OF Utxo_field_shrinks])

declare Utxo_decode_loop.simps [simp del]

lemma Utxo_decode_loop_shrinks [shrinks_intros]:
  "shrinks (\<lambda>reader. Utxo_decode_loop reader (stop reader) message)"
  by (rule decode_loop_shrinks [OF Utxo_decode_loop.simps Utxo_field_shrinks])

definition Utxo_decode_from :: "bytes \<Rightarrow> int option \<Rightarrow> error + (proto_Utxo \<times> bytes)" where
  "Utxo_decode_from reader len =
     Utxo_decode_loop reader (case len of None \<Rightarrow> 0 | Some l \<Rightarrow> int (length reader) - l) baseUtxo"

lemma Utxo_decode_from_shrinks [shrinks_intros]: "shrinks (\<lambda>reader. Utxo_decode_from reader len)"
  unfolding Utxo_decode_from_def by (rule Utxo_decode_loop_shrinks)

definition Utxo_decode :: "bytes \<Rightarrow> error + proto_Utxo" where
  "Utxo_decode input =
     (case Utxo_decode_from input None of Inl e \<Rightarrow> Inl e | Inr (message, rest) \<Rightarrow> Inr message)"

subsection \<open>ScriptUtxos\<close>

record proto_ScriptUtxos =
  p_ScriptUtxos_outputScript :: bytes
  p_ScriptUtxos_utxos :: "proto_Utxo list"

definition baseScriptUtxos :: "proto_ScriptUtxos" where
  "baseScriptUtxos = \<lparr>p_ScriptUtxos_outputScript = [], p_ScriptUtxos_utxos = []\<rparr>"

definition ScriptUtxos_encode :: "proto_ScriptUtxos \<Rightarrow> bytes" where
  "ScriptUtxos_encode message =
     (if length (p_ScriptUtxos_outputScript message) \<noteq> 0 then w_uint32 10 @ w_bytes (p_ScriptUtxos_outputScript message) else [])
     @ concat (map (\<lambda>v. w_uint32 18 @ ldelim (Utxo_encode v)) (p_ScriptUtxos_utxos message))"

definition ScriptUtxos_field :: "int \<Rightarrow> bytes \<Rightarrow> proto_ScriptUtxos \<Rightarrow> error + (proto_ScriptUtxos \<times> bytes)" where
  "ScriptUtxos_field tag reader message =
     (if tag div 8 = 1 then set_field (r_bytes reader) (\<lambda>v. message\<lparr>p_ScriptUtxos_outputScript := v\<rparr>)
      else if tag div 8 = 2
      then set_field (nested Utxo_decode_from reader) (\<lambda>v. message\<lparr>p_ScriptUtxos_utxos := p_ScriptUtxos_utxos message @ [v]\<rparr>)
      else skip_field (tag mod 8) reader message)"

lemma ScriptUtxos_field_shrinks [shrinks_intros]: "shrinks (\<lambda>reader. ScriptUtxos_field tag reader message)"
  unfolding ScriptUtxos_field_def by (intro shrinks_intros)

function ScriptUtxos_decode_loop :: "bytes \<Rightarrow> int \<Rightarrow> proto_ScriptUtxos \<Rightarrow> error + (proto_ScriptUtxos \<times> bytes)" where
  "ScriptUtxos_decode_loop reader stop message =
     (if stop < int (length reader)
      then (case r_uint32 reader of Inl e \<Rightarrow> Inl e
            | Inr (tag, reader1) \<Rightarrow>
                (case ScriptUtxos_field tag reader1 message of Inl e \<Rightarrow> Inl e
                 | Inr (message1, reader2) \<Rightarrow> ScriptUtxos_decode_loop reader2 stop message1))
      else Inr (message, reader))"
  by pat_completeness auto
termination
  by (relation "measure (\<lambda>(reader, stop, message). length reader)")
    (auto dest!: r_uint32_length shrinksD [OF ScriptUtxos_field_shrinks])

declare ScriptUtxos_decode_loop.simps [simp del]

lemma ScriptUtxos_decode_loop_shrinks [shrinks_intros]:
  "shrinks (\<lambda>reader. ScriptUtxos_decode_loop reader (stop reader) message)"
  by (rule decode_loop_shrinks [OF ScriptUtxos_decode_loop.simps ScriptUtxos_field_shrinks])

definition ScriptUtxos_decode_from :: "bytes \<Rightarrow> int option \<Rightarrow> error + (proto_ScriptUtxos \<times> bytes)" where
  "ScriptUtxos_decode_from reader len =
     ScriptUtxos_decode_loop reader (case len of None \<Rightarrow> 0 | Some l \<Rightarrow> int (length reader) - l) baseScriptUtxos"

lemma ScriptUtxos_decode_from_shrinks [shrinks_intros]: "shrinks (\<lambda>reader. ScriptUtxos_decode_from reader len)"
  unfolding ScriptUtxos_decode_from_def by (rule ScriptUtxos_decode_loop_shrinks)

definition ScriptUtxos_decode :: "bytes \<Rightarrow> error + proto_ScriptUtxos" where
  "ScriptUtxos_decode input =
     (case ScriptUtxos_decode_from input None of Inl e \<Rightarrow> Inl e | Inr (message, rest) \<Rightarrow> Inr message)"

subsection \<open>Utxos\<close>

record proto_Utxos =
  p_Utxos_scriptUtxos :: "proto_ScriptUtxos list"

definition baseUtxos :: "proto_Utxos" where
  "baseUtxos = \<lparr>p_Utxos_scriptUtxos = []\<rparr>"

definition Utxos_encode :: "proto_Utxos \<Rightarrow> bytes" where
  "Utxos_encode message =
     concat (map (\<lambda>v. w_uint32 10 @ ldelim (ScriptUtxos_encode v)) (p_Utxos_scriptUtxos message))"

definition Utxos_field :: "int \<Rightarrow> bytes \<Rightarrow> proto_Utxos \<Rightarrow> error + (proto_Utxos \<times> bytes)" where
  "Utxos_field tag reader message =
     (if tag div 8 = 1
      then set_field (nested ScriptUtxos_decode_from reader) (\<lambda>v. message\<lparr>p_Utxos_scriptUtxos := p_Utxos_scriptUtxos message @ [v]\<rparr>)
      else skip_field (tag mod 8) reader message)"

lemma Utxos_field_shrinks [shrinks_intros]: "shrinks (\<lambda>reader. Utxos_field tag reader message)"
  unfolding Utxos_field_def by (intro shrinks_intros)

function Utxos_decode_loop :: "bytes \<Rightarrow> int \<Rightarrow> proto_Utxos \<Rightarrow> error + (proto_Utxos \<times> bytes)" where
  "Utxos_decode_loop reader stop message =
     (if stop < int (length reader)
      then (case r_uint32 reader of Inl e \<Rightarrow> Inl e
            | Inr (tag, reader1) \<Rightarrow>
                (case Utxos_field tag reader1 message of Inl e \<Rightarrow> Inl e
                 | Inr (message1, reader2) \<Rightarrow> Utxos_decode_loop reader2 stop message1))
      else Inr (message, reader))"
  by pat_completeness auto
termination
  by (relation "measure (\<lambda>(reader, stop, message). length reader)")
    (auto dest!: r_uint32_length shrinksD [OF Utxos_field_shrinks])

declare Utxos_decode_loop.simps [simp del]

lemma Utxos_decode_loop_shrinks [shrinks_intros]:
  "shrinks (\<lambda>reader. Utxos_decode_loop reader (stop reader) message)"
  by (rule decode_loop_shrinks [OF Utxos_decode_loop.simps Utxos_field_shrinks])

definition Utxos_decode_from :: "bytes \<Rightarrow> int option \<Rightarrow> error + (proto_Utxos \<times> bytes)" where
  "Utxos_decode_from reader len =
     Utxos_decode_loop reader (case len of None \<Rightarrow> 0 | Some l \<Rightarrow> int (length reader) - l) baseUtxos"

lemma Utxos_decode_from_shrinks [shrinks_intros]: "shrinks (\<lambda>reader. Utxos_decode_from reader len)"
  unfolding Utxos_decode_from_def by (rule Utxos_decode_loop_shrinks)

definition Utxos_decode :: "bytes \<Rightarrow> error + proto_Utxos" where
  "Utxos_decode input =
     (case Utxos_decode_from input None of Inl e \<Rightarrow> Inl e | Inr (message, rest) \<Rightarrow> Inr message)"

subsection \<open>UtxoState\<close>

record proto_UtxoState =
  p_UtxoState_height :: int
  p_UtxoState_isConfirmed :: bool
  p_UtxoState_state :: int

definition baseUtxoState :: "proto_UtxoState" where
  "baseUtxoState = \<lparr>p_UtxoState_height = 0, p_UtxoState_isConfirmed = False, p_UtxoState_state = 0\<rparr>"

definition UtxoState_encode :: "proto_UtxoState \<Rightarrow> bytes" where
  "UtxoState_encode message =
     (if p_UtxoState_height message \<noteq> 0 then w_uint32 8 @ w_int32 (p_UtxoState_height message) else [])
     @ (if p_UtxoState_isConfirmed message = True then w_uint32 16 @ w_bool (p_UtxoState_isConfirmed message) else [])
     @ (if p_UtxoState_state message \<noteq> 0 then w_uint32 24 @ w_int32 (p_UtxoState_state message) else [])"

definition UtxoState_field :: "int \<Rightarrow> bytes \<Rightarrow> proto_UtxoState \<Rightarrow> error + (proto_UtxoState \<times> bytes)" where
  "UtxoState_field tag reader message =
     (if tag div 8 = 1 then set_field (r_int32 reader) (\<lambda>v. message\<lparr>p_UtxoState_height := v\<rparr>)
      else if tag div 8 = 2 then set_field (r_bool reader) (\<lambda>v. message\<lparr>p_UtxoState_isConfirmed := v\<rparr>)
      else if tag div 8 = 3 then set_field (r_int32 reader) (\<lambda>v. message\<lparr>p_UtxoState_state := v\<rparr>)
      else skip_field (tag mod 8) reader message)"

lemma UtxoState_field_shrinks [shrinks_intros]: "shrinks (\<lambda>reader. UtxoState_field tag reader message)"
  unfolding UtxoState_field_def by (intro shrinks_intros)

function UtxoState_decode_loop :: "bytes \<Rightarrow> int \<Rightarrow> proto_UtxoState \<Rightarrow> error + (proto_UtxoState \<times> bytes)" where
  "UtxoState_decode_loop reader stop message =
     (if stop < int (length reader)
      then (case r_uint32 reader of Inl e \<Rightarrow> Inl e
            | Inr (tag, reader1) \<Rightarrow>
                (case UtxoState_field tag reader1 message of Inl e \<Rightarrow> Inl e
                 | Inr (message1, reader2) \<Rightarrow> UtxoState_decode_loop reader2 stop message1))
      else Inr (message, reader))"
  by pat_completeness auto
termination
  by (relation "measure (\<lambda>(reader, stop, message). length reader)")
    (auto dest!: r_uint32_length shrinksD [OF UtxoState_field_shrinks])

declare UtxoState_decode_loop.simps [simp del]

lemma UtxoState_decode_loop_shrinks [shrinks_intros]:
  "shrinks (\<lambda>reader. UtxoState_decode_loop reader (stop reader) message)"
  by (rule decode_loop_shrinks [OF UtxoState_decode_loop.simps UtxoState_field_shrinks])

definition UtxoState_decode_from :: "bytes \<Rightarrow> int option \<Rightarrow> error + (proto_UtxoState \<times> bytes)" where
  "UtxoState_decode_from reader len =
     UtxoState_decode_loop reader (case len of None \<Rightarrow> 0 | Some l \<Rightarrow> int (length reader) - l) baseUtxoState"

lemma UtxoState_decode_from_shrinks [shrinks_intros]: "shrinks (\<lambda>reader. UtxoState_decode_from reader len)"
  unfolding UtxoState_decode_from_def by (rule UtxoState_decode_loop_shrinks)

definition UtxoState_decode :: "bytes \<Rightarrow> error + proto_UtxoState" where
  "UtxoState_decode input =
     (case UtxoState_decode_from input None of Inl e \<Rightarrow> Inl e | Inr (message, rest) \<Rightarrow> Inr message)"

subsection \<open>ValidateUtxoRequest\<close>

record proto_ValidateUtxoRequest =
  p_ValidateUtxoRequest_outpoints :: "proto_OutPoint list"

definition baseValidateUtxoRequest :: "proto_ValidateUtxoRequest" where
  "baseValidateUtxoRequest = \<lparr>p_ValidateUtxoRequest_outpoints = []\<rparr>"

definition ValidateUtxoRequest_encode :: "proto_ValidateUtxoRequest \<Rightarrow> bytes" where
  "ValidateUtxoRequest_encode message =
     concat (map (\<lambda>v. w_uint32 10 @ ldelim (OutPoint_encode v)) (p_ValidateUtxoRequest_outpoints message))"

definition ValidateUtxoRequest_field :: "int \<Rightarrow> bytes \<Rightarrow> proto_ValidateUtxoRequest \<Rightarrow> error + (proto_ValidateUtxoRequest \<times> bytes)" where
  "ValidateUtxoRequest_field tag reader message =
     (if tag div 8 = 1
      then set_field (nested OutPoint_decode_from reader) (\<lambda>v. message\<lparr>p_ValidateUtxoRequest_outpoints := p_ValidateUtxoRequest_outpoints message @ [v]\<rparr>)
      else skip_field (tag mod 8) reader message)"

lemma ValidateUtxoRequest_field_shrinks [shrinks_intros]: "shrinks (\<lambda>reader. ValidateUtxoRequest_field tag reader message)"
  unfolding ValidateUtxoRequest_field_def by (intro shrinks_intros)

function ValidateUtxoRequest_decode_loop :: "bytes \<Rightarrow> int \<Rightarrow> proto_ValidateUtxoRequest \<Rightarrow> error + (proto_ValidateUtxoRequest \<times> bytes)" where
  "ValidateUtxoRequest_decode_loop reader stop message =
     (if stop < int (length reader)
      then (case r_uint32 reader of Inl e \<Rightarrow> Inl e
            | Inr (tag, reader1) \<Rightarrow>
                (case ValidateUtxoRequest_field tag reader1 message of Inl e \<Rightarrow> Inl e
                 | Inr (message1, reader2) \<Rightarrow> ValidateUtxoRequest_decode_loop reader2 stop message1))
      else Inr (message, reader))"
  by pat_completeness auto
termination
  by (relation "measure (\<lambda>(reader, stop, message). length reader)")
    (auto dest!: r_uint32_length shrinksD [OF ValidateUtxoRequest_field_shrinks])

declare ValidateUtxoRequest_decode_loop.simps [simp del]

lemma ValidateUtxoRequest_decode_loop_shrinks [shrinks_intros]:
  "shrinks (\<lambda>reader. ValidateUtxoRequest_decode_loop reader (stop reader) message)"
  by (rule decode_loop_shrinks [OF ValidateUtxoRequest_decode_loop.simps ValidateUtxoRequest_field_shrinks])

definition ValidateUtxoRequest_decode_from :: "bytes \<Rightarrow> int option \<Rightarrow> error + (proto_ValidateUtxoRequest \<times> bytes)" where
  "ValidateUtxoRequest_decode_from reader len =
     ValidateUtxoRequest_decode_loop reader (case len of None \<Rightarrow> 0 | Some l \<Rightarrow> int (length reader) - l) baseValidateUtxoRequest"

lemma ValidateUtxoRequest_decode_from_shrinks [shrinks_intros]: "shrinks (\<lambda>reader. ValidateUtxoRequest_decode_from reader len)"
  unfolding ValidateUtxoRequest_decode_from_def by (rule ValidateUtxoRequest_decode_loop_shrinks)

definition ValidateUtxoRequest_decode :: "bytes \<Rightarrow> error + proto_ValidateUtxoRequest" where
  "ValidateUtxoRequest_decode input =
     (case ValidateUtxoRequest_decode_from input None of Inl e \<Rightarrow> Inl e | Inr (message, rest) \<Rightarrow> Inr message)"

subsection \<open>ValidateUtxoResponse\<close>

record proto_ValidateUtxoResponse =
  p_ValidateUtxoResponse_utxoStates :: "proto_UtxoState list"

definition baseValidateUtxoResponse :: "proto_ValidateUtxoResponse" where
  "baseValidateUtxoResponse = \<lparr>p_ValidateUtxoResponse_utxoStates = []\<rparr>"

definition ValidateUtxoResponse_encode :: "proto_ValidateUtxoResponse \<Rightarrow> bytes" where
  "ValidateUtxoResponse_encode message =
     concat (map (\<lambda>v. w_uint32 10 @ ldelim (UtxoState_encode v)) (p_ValidateUtxoResponse_utxoStates message))"

definition ValidateUtxoResponse_field :: "int \<Rightarrow> bytes \<Rightarrow> proto_ValidateUtxoResponse \<Rightarrow> error + (proto_ValidateUtxoResponse \<times> bytes)" where
  "ValidateUtxoResponse_field tag reader message =
     (if tag div 8 = 1
      then set_field (nested UtxoState_decode_from reader) (\<lambda>v. message\<lparr>p_ValidateUtxoResponse_utxoStates := p_ValidateUtxoResponse_utxoStates message @ [v]\<rparr>)
      else skip_field (tag mod 8) reader message)"

lemma ValidateUtxoResponse_field_shrinks [shrinks_intros]: "shrinks (\<lambda>reader. ValidateUtxoResponse_field tag reader message)"
  unfolding ValidateUtxoResponse_field_def by (intro shrinks_intros)

function ValidateUtxoResponse_decode_loop :: "bytes \<Rightarrow> int \<Rightarrow> proto_ValidateUtxoResponse \<Rightarrow> error + (proto_ValidateUtxoResponse \<times> bytes)" where
  "ValidateUtxoResponse_decode_loop reader stop message =
     (if stop < int (length reader)
      then (case r_uint32 reader of Inl e \<Rightarrow> Inl e
            | Inr (tag, reader1) \<Rightarrow>
                (case ValidateUtxoResponse_field tag reader1 message of Inl e \<Rightarrow> Inl e
                 | Inr (message1, reader2) \<Rightarrow> ValidateUtxoResponse_decode_loop reader2 stop message1))
      else Inr (message, reader))"
  by pat_completeness auto
termination
  by (relation "measure (\<lambda>(reader, stop, message). length reader)")
    (auto dest!: r_uint32_length shrinksD [OF ValidateUtxoResponse_field_shrinks])

declare ValidateUtxoResponse_decode_loop.simps [simp del]

lemma ValidateUtxoResponse_decode_loop_shrinks [shrinks_intros]:
  "shrinks (\<lambda>reader. ValidateUtxoResponse_decode_loop reader (stop reader) message)"
  by (rule decode_loop_shrinks [OF ValidateUtxoResponse_decode_loop.simps ValidateUtxoResponse_field_shrinks])

definition ValidateUtxoResponse_decode_from :: "bytes \<Rightarrow> int option \<Rightarrow> error + (proto_ValidateUtxoResponse \<times> bytes)" where
  "ValidateUtxoResponse_decode_from reader len =
     ValidateUtxoResponse_decode_loop reader (case len of None \<Rightarrow> 0 | Some l \<Rightarrow> int (length reader) - l) baseValidateUtxoResponse"

lemma ValidateUtxoResponse_decode_from_shrinks [shrinks_intros]: "shrinks (\<lambda>reader. ValidateUtxoResponse_decode_from reader len)"
  unfolding ValidateUtxoResponse_decode_from_def by (rule ValidateUtxoResponse_decode_loop_shrinks)

definition ValidateUtxoResponse_decode :: "bytes \<Rightarrow> error + proto_ValidateUtxoResponse" where
  "ValidateUtxoResponse_decode input =
     (case ValidateUtxoResponse_decode_from input None of Inl e \<Rightarrow> Inl e | Inr (message, rest) \<Rightarrow> Inr message)"

subsection \<open>Subscription\<close>

record proto_Subscription =
  p_Subscription_scriptType :: jsstring
  p_Subscription_payload :: bytes
  p_Subscription_isSubscribe :: bool

definition baseSubscription :: "proto_Subscription" where
  "baseSubscription = \<lparr>p_Subscription_scriptType = [], p_Subscription_payload = [], p_Subscription_isSubscribe = False\<rparr>"

definition Subscription_encode :: "proto_Subscription \<Rightarrow> bytes" where
  "Subscription_encode message =
     (if p_Subscription_scriptType message \<noteq> [] then w_uint32 10 @ w_string (p_Subscription_scriptType message) else [])
     @ (if length (p_Subscription_payload message) \<noteq> 0 then w_uint32 18 @ w_bytes (p_Subscription_payload message) else [])
     @ (if p_Subscription_isSubscribe message = True then w_uint32 24 @ w_bool (p_Subscription_isSubscribe message) else [])"

definition Subscription_field :: "int \<Rightarrow> bytes \<Rightarrow> proto_Subscription \<Rightarrow> error + (proto_Subscription \<times> bytes)" where
  "Subscription_field tag reader message =
     (if tag div 8 = 1 then set_field (r_string reader) (\<lambda>v. message\<lparr>p_Subscription_scriptType := v\<rparr>)
      else if tag div 8 = 2 then set_field (r_bytes reader) (\<lambda>v. message\<lparr>p_Subscription_payload := v\<rparr>)
      else if tag div 8 = 3 then set_field (r_bool reader) (\<lambda>v. message\<lparr>p_Subscription_isSubscribe := v\<rparr>)
      else skip_field (tag mod 8) reader message)"

lemma Subscription_field_shrinks [shrinks_intros]: "shrinks (\<lambda>reader. Subscription_field tag reader message)"
  unfolding Subscription_field_def by (intro shrinks_intros)

function Subscription_decode_loop :: "bytes \<Rightarrow> int \<Rightarrow> proto_Subscription \<Rightarrow> error + (proto_Subscription \<times> bytes)" where
  "Subscription_decode_loop reader stop message =
     (if stop < int (length reader)
      then (case r_uint32 reader of Inl e \<Rightarrow> Inl e
            | Inr (tag, reader1) \<Rightarrow>
                (case Subscription_field tag reader1 message of Inl e \<Rightarrow> Inl e
                 | Inr (message1, reader2) \<Rightarrow> Subscription_decode_loop reader2 stop message1))
      else Inr (message, reader))"
  by pat_completeness auto
termination
  by (relation "measure (\<lambda>(reader, stop, message). length reader)")
    (auto dest!: r_uint32_length shrinksD [OF Subscription_field_shrinks])

declare Subscription_decode_loop.simps [simp del]

lemma Subscription_decode_loop_shrinks [shrinks_intros]:
  "shrinks (\<lambda>reader. Subscription_decode_loop reader (stop reader) message)"
  by (rule decode_loop_shrinks [OF Subscription_decode_loop.simps Subscription_field_shrinks])

definition Subscription_decode_from :: "bytes \<Rightarrow> int option \<Rightarrow> error + (proto_Subscription \<times> bytes)" where
  "Subscription_decode_from reader len =
     Subscription_decode_loop reader (case len of None \<Rightarrow> 0 | Some l \<Rightarrow> int (length reader) - l) baseSubscription"

lemma Subscription_decode_from_shrinks [shrinks_intros]: "shrinks (\<lambda>reader. Subscription_decode_from reader len)"
  unfolding Subscription_decode_from_def by (rule Subscription_decode_loop_shrinks)

definition Subscription_decode :: "bytes \<Rightarrow> error + proto_Subscription" where
  "Subscription_decode input =
     (case Subscription_decode_from input None of Inl e \<Rightarrow> Inl e | Inr (message, rest) \<Rightarrow> Inr message)"

subsection \<open>Error\<close>

record proto_Error =
  p_Error_errorCode :: jsstring
  p_Error_msg :: jsstring
  p_Error_isUserError :: bool

definition baseError :: "proto_Error" where
  "baseError = \<lparr>p_Error_errorCode = [], p_Error_msg = [], p_Error_isUserError = False\<rparr>"

definition Error_encode :: "proto_Error \<Rightarrow> bytes" where
  "Error_encode message =
     (if p_Error_errorCode message \<noteq> [] then w_uint32 10 @ w_string (p_Error_errorCode message) else [])
     @ (if p_Error_msg message \<noteq> [] then w_uint32 18 @ w_string (p_Error_msg message) else [])
     @ (if p_Error_isUserError message = True then w_uint32 24 @ w_bool (p_Error_isUserError message) else [])"

definition Error_field :: "int \<Rightarrow> bytes \<Rightarrow> proto_Error \<Rightarrow> error + (proto_Error \<times> bytes)" where
  "Error_field tag reader message =
     (if tag div 8 = 1 then set_field (r_string reader) (\<lambda>v. message\<lparr>p_Error_errorCode := v\<rparr>)
      else if tag div 8 = 2 then set_field (r_string reader) (\<lambda>v. message\<lparr>p_Error_msg := v\<rparr>)
      else if tag div 8 = 3 then set_field (r_bool reader) (\<lambda>v. message\<lparr>p_Error_isUserError := v\<rparr>)
      else skip_field (tag mod 8) reader message)"

lemma Error_field_shrinks [shrinks_intros]: "shrinks (\<lambda>reader. Error_field tag reader message)"
  unfolding Error_field_def by (intro shrinks_intros)

function Error_decode_loop :: "bytes \<Rightarrow> int \<Rightarrow> proto_Error \<Rightarrow> error + (proto_Error \<times> bytes)" where
  "Error_decode_loop reader stop message =
     (if stop < int (length reader)
      then (case r_uint32 reader of Inl e \<Rightarrow> Inl e
            | Inr (tag, reader1) \<Rightarrow>
                (case Error_field tag reader1 message of Inl e \<Rightarrow> Inl e
                 | Inr (message1, reader2) \<Rightarrow> Error_decode_loop reader2 stop message1))
      else Inr (message, reader))"
  by pat_completeness auto
termination
  by (relation "measure (\<lambda>(reader, stop, message). length reader)")
    (auto dest!: r_uint32_length shrinksD [OF Error_field_shrinks])

declare Error_decode_loop.simps [simp del]

lemma Error_decode_loop_shrinks [shrinks_intros]:
  "shrinks (\<lambda>reader. Error_decode_loop reader (stop reader) message)"
  by (rule decode_loop_shrinks [OF Error_decode_loop.simps Error_field_shrinks])

definition Error_decode_from :: "bytes \<Rightarrow> int option \<Rightarrow> error + (proto_Error \<times> bytes)" where
  "Error_decode_from reader len =
     Error_decode_loop reader (case len of None \<Rightarrow> 0 | Some l \<Rightarrow> int (length reader) - l) baseError"

lemma Error_decode_from_shrinks [shrinks_intros]: "shrinks (\<lambda>reader. Error_decode_from reader len)"
  unfolding Error_decode_from_def by (rule Error_decode_loop_shrinks)

definition Error_decode :: "bytes \<Rightarrow> error + proto_Error" where
  "Error_decode input =
     (case Error_decode_from input None of Inl e \<Rightarrow> Inl e | Inr (message, rest) \<Rightarrow> Inr message)"

section \<open>index.ts\<close>

text \<open>
  The interfaces that \<^verbatim>\<open>index.ts\<close> exports carry the same names as the messages of
  \<^verbatim>\<open>chronik.ts\<close>; the message records are \<open>proto_X\<close> with fields \<open>p_X_f\<close>, the
  exported ones \<open>X\<close> with fields \<open>X_f\<close>. The string literal unions are datatypes.
  A name that starts with an underscore in the source starts with \<open>u_\<close> here.
\<close>

datatype Network = BCH | XEC | XPI | XRG

datatype SlpTxType = GENESIS | SEND | MINT | UNKNOWN_TX_TYPE

datatype SlpTokenType = FUNGIBLE | NFT1_GROUP | NFT1_CHILD | UNKNOWN_TOKEN_TYPE

datatype UtxoStateVariant = UNSPENT | SPENT | NO_SUCH_TX | NO_SUCH_OUTPUT

record OutPoint =
  OutPoint_txid :: jsstring
  OutPoint_outIdx :: int

record SlpToken =
  SlpToken_amount :: Long
  SlpToken_isMintBaton :: bool

record SlpBurn =
  SlpBurn_token :: SlpToken
  SlpBurn_tokenId :: jsstring

record SlpMeta =
  SlpMeta_tokenType :: SlpTokenType
  SlpMeta_txType :: SlpTxType
  SlpMeta_tokenId :: jsstring
  SlpMeta_groupTokenId :: "jsstring option"

record SlpGenesisInfo =
  SlpGenesisInfo_tokenTicker :: jsstring
  SlpGenesisInfo_tokenName :: jsstring
  SlpGenesisInfo_tokenDocumentUrl :: jsstring
  SlpGenesisInfo_tokenDocumentHash :: jsstring
  SlpGenesisInfo_decimals :: int

record SlpTxData =
  SlpTxData_slpMeta :: SlpMeta
  SlpTxData_genesisInfo :: "SlpGenesisInfo option"

record BlockMetadata =
  BlockMetadata_height :: int
  BlockMetadata_hash :: jsstring
  BlockMetadata_timestamp :: Long

record TxInput =
  TxInput_prevOut :: OutPoint
  TxInput_inputScript :: jsstring
  TxInput_outputScript :: "jsstring option"
  TxInput_value :: Long
  TxInput_sequenceNo :: int
  TxInput_slpBurn :: "SlpBurn option"
  TxInput_slpToken :: "SlpToken option"

record TxOutput =
  TxOutput_value :: Long
  TxOutput_outputScript :: jsstring
  TxOutput_slpToken :: "SlpToken option"
  TxOutput_spentBy :: "OutPoint option"

record Tx =
  Tx_txid :: jsstring
  Tx_version :: int
  Tx_inputs :: "TxInput list"
  Tx_outputs :: "TxOutput list"
  Tx_lockTime :: int
  Tx_slpTxData :: "SlpTxData option"
  Tx_slpErrorMsg :: "jsstring option"
  Tx_block :: "BlockMetadata option"
  Tx_timeFirstSeen :: Long
  Tx_network :: Network

record proto_BlockInfo =
  p_BlockInfo_hash :: bytes
  p_BlockInfo_prevHash :: bytes
  p_BlockInfo_height :: int
  p_BlockInfo_nBits :: int
  p_BlockInfo_timestamp :: Long
  p_BlockInfo_blockSize :: Long
  p_BlockInfo_numTxs :: Long
  p_BlockInfo_numInputs :: Long
  p_BlockInfo_numOutputs :: Long
  p_BlockInfo_sumInputSats :: Long
  p_BlockInfo_sumCoinbaseOutputSats :: Long
  p_BlockInfo_sumNormalOutputSats :: Long
  p_BlockInfo_sumBurnedSats :: Long

record BlockInfo =
  BlockInfo_hash :: jsstring
  BlockInfo_prevHash :: jsstring
  BlockInfo_height :: int
  BlockInfo_nBits :: int
  BlockInfo_timestamp :: Long
  BlockInfo_blockSize :: Long
  BlockInfo_numTxs :: Long
  BlockInfo_numInputs :: Long
  BlockInfo_numOutputs :: Long
  BlockInfo_sumInputSats :: Long
  BlockInfo_sumCoinbaseOutputSats :: Long
  BlockInfo_sumNormalOutputSats :: Long
  BlockInfo_sumBurnedSats :: Long

record UtxoState =
  UtxoState_height :: int
  UtxoState_isConfirmed :: bool
  UtxoState_state :: UtxoStateVariant

subsection \<open>The conversion layer\<close>

definition convertToSlpToken :: "proto_SlpToken \<Rightarrow> SlpToken" where
  "convertToSlpToken token =
     \<lparr>SlpToken_amount = p_SlpToken_amount token,
      SlpToken_isMintBaton = p_SlpToken_isMintBaton token\<rparr>"

definition convertToSlpBurn :: "proto_SlpBurn \<Rightarrow> error + SlpBurn" where
  "convertToSlpBurn burn =
     (case p_SlpBurn_token burn of
        None \<Rightarrow> Inl (Error (str ''Invalid burn: token is undefined''))
      | Some token \<Rightarrow>
          Inr \<lparr>SlpBurn_token = convertToSlpToken token,
               SlpBurn_tokenId = toHex (p_SlpBurn_tokenId burn)\<rparr>)"

definition convertToNetwork :: "int \<Rightarrow> error + Network" where
  "convertToNetwork network =
     (if network = Network_BCH then Inr BCH
      else if network = Network_XEC then Inr XEC
      else if network = Network_XPI then Inr XPI
      else if network = Network_XRG then Inr XRG
      else Inl (Error (str ''Unknown network: '' @ Number_toString network)))"

definition convertToUtxoStateVariant :: "int \<Rightarrow> error + UtxoStateVariant" where
  "convertToUtxoStateVariant variant =
     (if variant = UtxoStateVariant_UNSPENT then Inr UNSPENT
      else if variant = UtxoStateVariant_SPENT then Inr SPENT
      else if variant = UtxoStateVariant_NO_SUCH_TX then Inr NO_SUCH_TX
      else if variant = UtxoStateVariant_NO_SUCH_OUTPUT then Inr NO_SUCH_OUTPUT
      else Inl (Error (str ''Unknown UtxoStateVariant: '' @ Number_toString variant)))"

definition convertToBlockMeta :: "proto_BlockMetadata \<Rightarrow> BlockMetadata" where
  "convertToBlockMeta block =
     \<lparr>BlockMetadata_height = p_BlockMetadata_height block,
      BlockMetadata_hash = toHexRev (p_BlockMetadata_hash block),
      BlockMetadata_timestamp = p_BlockMetadata_timestamp block\<rparr>"

text \<open>\<^verbatim>\<open>{ ...block, hash: toHexRev(block.hash), prevHash: toHexRev(block.prevHash) }\<close>\<close>

definition convertToBlockInfo :: "proto_BlockInfo \<Rightarrow> BlockInfo" where
  "convertToBlockInfo block =
     \<lparr>BlockInfo_hash = toHexRev (p_BlockInfo_hash block),
      BlockInfo_prevHash = toHexRev (p_BlockInfo_prevHash block),
      BlockInfo_height = p_BlockInfo_height block,
      BlockInfo_nBits = p_BlockInfo_nBits block,
      BlockInfo_timestamp = p_BlockInfo_timestamp block,
      BlockInfo_blockSize = p_BlockInfo_blockSize block,
      BlockInfo_numTxs = p_BlockInfo_numTxs block,
      BlockInfo_numInputs = p_BlockInfo_numInputs block,
      BlockInfo_numOutputs = p_BlockInfo_numOutputs block,
      BlockInfo_sumInputSats = p_BlockInfo_sumInputSats block,
      BlockInfo_sumCoinbaseOutputSats = p_BlockInfo_sumCoinbaseOutputSats block,
      BlockInfo_sumNormalOutputSats = p_BlockInfo_sumNormalOutputSats block,
      BlockInfo_sumBurnedSats = p_BlockInfo_sumBurnedSats block\<rparr>"

text \<open>The platform's \<^verbatim>\<open>TextDecoder\<close> is a parameter, \<open>decoder\<close>.\<close>

definition convertToSlpGenesisInfo ::
  "(bytes \<Rightarrow> jsstring) \<Rightarrow> proto_SlpGenesisInfo \<Rightarrow> SlpGenesisInfo" where
  "convertToSlpGenesisInfo decoder info =
     \<lparr>SlpGenesisInfo_tokenTicker = decoder (p_SlpGenesisInfo_tokenTicker info),
      SlpGenesisInfo_tokenName = decoder (p_SlpGenesisInfo_tokenName info),
      SlpGenesisInfo_tokenDocumentUrl = decoder (p_SlpGenesisInfo_tokenDocumentUrl info),
      SlpGenesisInfo_tokenDocumentHash = toHex (p_SlpGenesisInfo_tokenDocumentHash info),
      SlpGenesisInfo_decimals = p_SlpGenesisInfo_decimals info\<rparr>"

definition convertToSlpMeta :: "proto_SlpMeta \<Rightarrow> error + SlpMeta" where
  "convertToSlpMeta slpMeta =
     bind (if p_SlpMeta_tokenType slpMeta = SlpTokenType_FUNGIBLE then Inr FUNGIBLE
           else if p_SlpMeta_tokenType slpMeta = SlpTokenType_NFT1_GROUP then Inr NFT1_GROUP
           else if p_SlpMeta_tokenType slpMeta = SlpTokenType_NFT1_CHILD then Inr NFT1_CHILD
           else if p_SlpMeta_tokenType slpMeta = SlpTokenType_UNKNOWN_TOKEN_TYPE
           then Inr UNKNOWN_TOKEN_TYPE
           else Inl (Error (str ''Invalid token type: ''
                            @ Number_toString (p_SlpMeta_tokenType slpMeta))))
       (\<lambda>tokenType.
     bind (if p_SlpMeta_txType slpMeta = SlpTxType_GENESIS then Inr GENESIS
           else if p_SlpMeta_txType slpMeta = SlpTxType_SEND then Inr SEND
           else if p_SlpMeta_txType slpMeta = SlpTxType_MINT then Inr MINT
           else if p_SlpMeta_txType slpMeta = SlpTxType_UNKNOWN_TX_TYPE
           then Inr UNKNOWN_TX_TYPE
           else Inl (Error (str ''Invalid token type: ''
                            @ Number_toString (p_SlpMeta_txType slpMeta))))
       (\<lambda>txType.
     Inr \<lparr>SlpMeta_tokenType = tokenType,
          SlpMeta_txType = txType,
          SlpMeta_tokenId = toHex (p_SlpMeta_tokenId slpMeta),
          SlpMeta_groupTokenId =
            (if length (p_SlpMeta_groupTokenId slpMeta) = 32
             then Some (toHex (p_SlpMeta_groupTokenId slpMeta)) else None)\<rparr>))"

definition convertToSlpTxData ::
  "(bytes \<Rightarrow> jsstring) \<Rightarrow> proto_SlpTxData \<Rightarrow> error + SlpTxData" where
  "convertToSlpTxData decoder slpTxData =
     (case p_SlpTxData_slpMeta slpTxData of
        None \<Rightarrow> Inl (Error (str ''Invalid slpTxData: slpMeta is undefined''))
      | Some slpMeta \<Rightarrow>
          bind (convertToSlpMeta slpMeta) (\<lambda>meta.
          Inr \<lparr>SlpTxData_slpMeta = meta,
               SlpTxData_genesisInfo =
                 map_option (convertToSlpGenesisInfo decoder)
                   (p_SlpTxData_genesisInfo slpTxData)\<rparr>))"

definition convertToTxOutput :: "proto_TxOutput \<Rightarrow> TxOutput" where
  "convertToTxOutput output =
     \<lparr>TxOutput_value = p_TxOutput_value output,
      TxOutput_outputScript = toHex (p_TxOutput_outputScript output),
      TxOutput_slpToken = map_option convertToSlpToken (p_TxOutput_slpToken output),
      TxOutput_spentBy =
        (case p_TxOutput_spentBy output of
           None \<Rightarrow> None
         | Some spentBy \<Rightarrow>
             Some \<lparr>OutPoint_txid = toHex (p_OutPoint_txid spentBy),
                   OutPoint_outIdx = p_OutPoint_outIdx spentBy\<rparr>)\<rparr>"

definition convertToTxInput :: "proto_TxInput \<Rightarrow> error + TxInput" where
  "convertToTxInput input =
     (case p_TxInput_prevOut input of
        None \<Rightarrow> Inl (Error (str ''Invalid proto, no prevOut''))
      | Some prevOut \<Rightarrow>
          bind (option_result convertToSlpBurn (p_TxInput_slpBurn input)) (\<lambda>slpBurn.
          Inr \<lparr>TxInput_prevOut =
                 \<lparr>OutPoint_txid = toHexRev (p_OutPoint_txid prevOut),
                  OutPoint_outIdx = p_OutPoint_outIdx prevOut\<rparr>,
               TxInput_inputScript = toHex (p_TxInput_inputScript input),
               TxInput_outputScript =
                 (if length (p_TxInput_outputScript input) > 0
                  then Some (toHex (p_TxInput_outputScript input)) else None),
               TxInput_value = p_TxInput_value input,
               TxInput_sequenceNo = p_TxInput_sequenceNo input,
               TxInput_slpBurn = slpBurn,
               TxInput_slpToken = map_option convertToSlpToken (p_TxInput_slpToken input)\<rparr>))"

definition convertToTx :: "(bytes \<Rightarrow> jsstring) \<Rightarrow> proto_Tx \<Rightarrow> error + Tx" where
  "convertToTx decoder tx =
     bind (map_result convertToTxInput (p_Tx_inputs tx)) (\<lambda>inputs.
     bind (option_result (convertToSlpTxData decoder) (p_Tx_slpTxData tx)) (\<lambda>slpTxData.
     bind (convertToNetwork (p_Tx_network tx)) (\<lambda>network.
     Inr \<lparr>Tx_txid = toHexRev (p_Tx_txid tx),
          Tx_version = p_Tx_version tx,
          Tx_inputs = inputs,
          Tx_outputs = map convertToTxOutput (p_Tx_outputs tx),
          Tx_lockTime = p_Tx_lockTime tx,
          Tx_slpTxData = slpTxData,
          Tx_slpErrorMsg =
            (if length (p_Tx_slpErrorMsg tx) \<noteq> 0 then Some (p_Tx_slpErrorMsg tx) else None),
          Tx_block = map_option convertToBlockMeta (p_Tx_block tx),
          Tx_timeFirstSeen = p_Tx_timeFirstSeen tx,
          Tx_network = network\<rparr>)))"

subsection \<open>The query helpers\<close>

text \<open>
  \<^verbatim>\<open>axios.get\<close> and \<^verbatim>\<open>axios.post\<close> are parameters: the network answers a request with a
  response, or the call throws. With \<^verbatim>\<open>validateStatus: undefined\<close> no status throws.
\<close>

record AxiosResponse =
  response_status :: int
  response_data :: bytes

definition ensureResponseErrorThrown :: "AxiosResponse \<Rightarrow> jsstring \<Rightarrow> error + unit" where
  "ensureResponseErrorThrown response path =
     (if response_status response \<noteq> 200
      then bind (Error_decode (response_data response)) (\<lambda>error.
           Inl (Error (str ''Failed getting '' @ path @ str '' ('' @ p_Error_errorCode error
                       @ str ''): '' @ p_Error_msg error)))
      else Inr ())"

definition u_get ::
  "(jsstring \<Rightarrow> error + AxiosResponse) \<Rightarrow> jsstring \<Rightarrow> jsstring \<Rightarrow> error + bytes" where
  "u_get axios_get url path =
     bind (axios_get (url @ path)) (\<lambda>response.
     bind (ensureResponseErrorThrown response path) (\<lambda>_.
     Inr (response_data response)))"

definition u_post ::
  "(jsstring \<Rightarrow> bytes \<Rightarrow> error + AxiosResponse) \<Rightarrow> jsstring \<Rightarrow> jsstring \<Rightarrow> bytes
    \<Rightarrow> error + bytes" where
  "u_post axios_post url path data =
     bind (axios_post (url @ path) data) (\<lambda>response.
     bind (ensureResponseErrorThrown response path) (\<lambda>_.
     Inr (response_data response)))"

subsection \<open>ChronikClient\<close>

record ChronikClient =
  client_url :: jsstring
  client_wsUrl :: jsstring

definition new_ChronikClient :: "jsstring \<Rightarrow> error + ChronikClient" where
  "new_ChronikClient url =
     (if endsWith url (str ''/'')
      then Inl (Error (str ''`url` cannot end with '/', got: '' @ url))
      else if startsWith url (str ''https://'')
      then Inr \<lparr>client_url = url,
                client_wsUrl = str ''wss://'' @ substr url (length (str ''https://''))\<rparr>
      else if startsWith url (str ''http://'')
      then Inr \<lparr>client_url = url,
                client_wsUrl = str ''ws://'' @ substr url (length (str ''http://''))\<rparr>
      else Inl (Error (str ''`url` must start with 'https://' or 'http://', got: '' @ url)))"

text \<open>The request of \<^verbatim>\<open>validateUtxos\<close>: the bytes handed to \<^verbatim>\<open>_post\<close>.\<close>

definition validateUtxos_outpoint :: "OutPoint \<Rightarrow> error + proto_OutPoint" where
  "validateUtxos_outpoint outpoint =
     bind (fromHexRev (OutPoint_txid outpoint)) (\<lambda>txid.
     Inr \<lparr>p_OutPoint_txid = txid, p_OutPoint_outIdx = OutPoint_outIdx outpoint\<rparr>)"

definition validateUtxos_request :: "OutPoint list \<Rightarrow> error + bytes" where
  "validateUtxos_request outpoints =
     bind (map_result validateUtxos_outpoint outpoints) (\<lambda>ops.
     Inr (ValidateUtxoRequest_encode \<lparr>p_ValidateUtxoRequest_outpoints = ops\<rparr>))"

definition validateUtxos_state :: "proto_UtxoState \<Rightarrow> error + UtxoState" where
  "validateUtxos_state state =
     bind (convertToUtxoStateVariant (p_UtxoState_state state)) (\<lambda>variant.
     Inr \<lparr>UtxoState_height = p_UtxoState_height state,
          UtxoState_isConfirmed = p_UtxoState_isConfirmed state,
          UtxoState_state = variant\<rparr>)"

definition validateUtxos ::
  "(jsstring \<Rightarrow> bytes \<Rightarrow> error + AxiosResponse) \<Rightarrow> ChronikClient \<Rightarrow> OutPoint list
    \<Rightarrow> error + UtxoState list" where
  "validateUtxos axios_post client outpoints =
     bind (validateUtxos_request outpoints) (\<lambda>request.
     bind (u_post axios_post (client_url client) (str ''/validate-utxos'') request) (\<lambda>data.
     bind (ValidateUtxoResponse_decode data) (\<lambda>validationStates.
     map_result validateUtxos_state (p_ValidateUtxoResponse_utxoStates validationStates))))"

definition ChronikClient_tx ::
  "(jsstring \<Rightarrow> error + AxiosResponse) \<Rightarrow> (bytes \<Rightarrow> jsstring) \<Rightarrow> ChronikClient \<Rightarrow> jsstring
    \<Rightarrow> error + Tx" where
  "ChronikClient_tx axios_get decoder client txid =
     bind (u_get axios_get (client_url client) (str ''/tx/'' @ txid)) (\<lambda>data.
     bind (Tx_decode data) (\<lambda>t. convertToTx decoder t))"

subsection \<open>WsEndpoint\<close>

text \<open>
  The endpoint is a state: its fields, and the \<^verbatim>\<open>WebSocket\<close> objects it has created
  (\<open>ep_sockets\<close>, each with the frames it has transmitted). \<open>ep_ws\<close> is the index of the
  socket \<^verbatim>\<open>this._ws\<close>. The callback \<^verbatim>\<open>config.onReconnect\<close> is taken to return:
  \<open>ep_reconnects\<close> counts its calls. A method that throws after it has changed the state
  returns the error with the changed state.

  The socket is the one of the WebSocket API (\<^verbatim>\<open>isomorphic-ws\<close>: the browser's, or the one
  of the package \<^verbatim>\<open>ws\<close>), outside the repository. A new socket is \<^verbatim>\<open>CONNECTING\<close>; it is
  \<^verbatim>\<open>OPEN\<close> when the runtime calls \<^verbatim>\<open>onopen\<close>; \<^verbatim>\<open>close()\<close> makes it \<^verbatim>\<open>CLOSING\<close>; it is
  \<^verbatim>\<open>CLOSED\<close> when the runtime calls \<^verbatim>\<open>onclose\<close>. \<^verbatim>\<open>send\<close> throws while the socket is
  \<^verbatim>\<open>CONNECTING\<close>, transmits the frame when the socket is \<^verbatim>\<open>OPEN\<close>, and discards it without
  an error once the closing has started.
\<close>

datatype ReadyState = CONNECTING | OPEN | CLOSING | CLOSED

record WebSocket =
  socket_url :: jsstring
  socket_readyState :: ReadyState
  socket_sent :: "bytes list"
  socket_close_called :: bool

record Sub =
  sub_scriptType :: jsstring
  sub_scriptPayload :: jsstring

record WsEndpoint =
  ep_ws :: "nat option"
  ep_wsUrl :: jsstring
  ep_onReconnect :: bool
  ep_reconnects :: nat
  ep_closed :: bool
  ep_subs :: "Sub list"
  ep_sockets :: "WebSocket list"

text \<open>\<^verbatim>\<open>this._ws.send(encodedSubscription)\<close>, on the socket with index \<open>k\<close>.\<close>

definition socket_send :: "nat \<Rightarrow> bytes \<Rightarrow> WsEndpoint \<Rightarrow> error option \<times> WsEndpoint" where
  "socket_send k frame this =
     (case socket_readyState (ep_sockets this ! k) of
        CONNECTING \<Rightarrow>
          (Some (Error (str ''WebSocket is not open: readyState 0 (CONNECTING)'')), this)
      | OPEN \<Rightarrow>
          (None, this\<lparr>ep_sockets := (ep_sockets this)
             [k := (ep_sockets this ! k)
                \<lparr>socket_sent := socket_sent (ep_sockets this ! k) @ [frame]\<rparr>]\<rparr>)
      | CLOSING \<Rightarrow> (None, this)
      | CLOSED \<Rightarrow> (None, this))"

definition u_connect :: "WsEndpoint \<Rightarrow> WsEndpoint" where
  "u_connect this =
     this\<lparr>ep_sockets := ep_sockets this
             @ [\<lparr>socket_url = ep_wsUrl this, socket_readyState = CONNECTING,
                 socket_sent = [], socket_close_called = False\<rparr>],
          ep_ws := Some (length (ep_sockets this))\<rparr>"

definition new_WsEndpoint :: "jsstring \<Rightarrow> bool \<Rightarrow> WsEndpoint" where
  "new_WsEndpoint wsUrl onReconnect =
     u_connect \<lparr>ep_ws = None, ep_wsUrl = wsUrl, ep_onReconnect = onReconnect,
                ep_reconnects = 0, ep_closed = False, ep_subs = [], ep_sockets = []\<rparr>"

definition u_subUnsub ::
  "bool \<Rightarrow> jsstring \<Rightarrow> jsstring \<Rightarrow> WsEndpoint \<Rightarrow> error option \<times> WsEndpoint" where
  "u_subUnsub isSubscribe scriptType scriptPayload this =
     (case fromHex scriptPayload of
        Inl e \<Rightarrow> (Some e, this)
      | Inr payload \<Rightarrow>
          (let encodedSubscription = Subscription_encode
                 \<lparr>p_Subscription_scriptType = scriptType,
                  p_Subscription_payload = payload,
                  p_Subscription_isSubscribe = isSubscribe\<rparr>
           in case ep_ws this of
                None \<Rightarrow> (Some (Error (str ''Invalid state; _ws is undefined'')), this)
              | Some k \<Rightarrow> socket_send k encodedSubscription this))"

definition subscribe :: "jsstring \<Rightarrow> jsstring \<Rightarrow> WsEndpoint \<Rightarrow> error option \<times> WsEndpoint" where
  "subscribe scriptType scriptPayload this =
     u_subUnsub True scriptType scriptPayload
       (this\<lparr>ep_subs := ep_subs this
          @ [\<lparr>sub_scriptType = scriptType, sub_scriptPayload = scriptPayload\<rparr>]\<rparr>)"

definition unsubscribe :: "jsstring \<Rightarrow> jsstring \<Rightarrow> WsEndpoint \<Rightarrow> error option \<times> WsEndpoint" where
  "unsubscribe scriptType scriptPayload this =
     u_subUnsub False scriptType scriptPayload
       (this\<lparr>ep_subs := filter
          (\<lambda>sub. sub_scriptType sub \<noteq> scriptType \<or> sub_scriptPayload sub \<noteq> scriptPayload)
          (ep_subs this)\<rparr>)"

text \<open>\<^verbatim>\<open>this._closed = true; this._ws?.close()\<close>: \<^verbatim>\<open>close()\<close> of a socket that is not yet
  \<^verbatim>\<open>CLOSED\<close> starts its closing.\<close>

definition WsEndpoint_close :: "WsEndpoint \<Rightarrow> WsEndpoint" where
  "WsEndpoint_close this =
     (let this1 = this\<lparr>ep_closed := True\<rparr> in
      case ep_ws this1 of
        None \<Rightarrow> this1
      | Some k \<Rightarrow> this1\<lparr>ep_sockets := (ep_sockets this1)
                   [k := (ep_sockets this1 ! k)
                      \<lparr>socket_close_called := True,
                       socket_readyState :=
                         (if socket_readyState (ep_sockets this1 ! k) = CLOSED
                          then CLOSED else CLOSING)\<rparr>]\<rparr>)"

text \<open>\<^verbatim>\<open>this._subs.forEach(sub => this._subUnsub(true, sub.scriptType, sub.scriptPayload))\<close>\<close>

fun subs_forEach :: "Sub list \<Rightarrow> WsEndpoint \<Rightarrow> error option \<times> WsEndpoint" where
  "subs_forEach [] this = (None, this)"
| "subs_forEach (sub # subs) this =
     (case u_subUnsub True (sub_scriptType sub) (sub_scriptPayload sub) this of
        (Some e, this1) \<Rightarrow> (Some e, this1)
      | (None, this1) \<Rightarrow> subs_forEach subs this1)"

text \<open>The handlers \<^verbatim>\<open>ws.onopen\<close> and \<^verbatim>\<open>ws.onclose\<close> that \<^verbatim>\<open>_connect\<close> installs.\<close>

definition ws_onopen :: "WsEndpoint \<Rightarrow> error option \<times> WsEndpoint" where
  "ws_onopen this = subs_forEach (ep_subs this) this"

definition ws_onclose :: "WsEndpoint \<Rightarrow> WsEndpoint" where
  "ws_onclose this =
     (if ep_closed this then this
      else u_connect (if ep_onReconnect this
                      then this\<lparr>ep_reconnects := Suc (ep_reconnects this)\<rparr> else this))"

text \<open>The two events of the runtime on the socket with index \<open>k\<close>: the connection is
  established (the socket becomes \<^verbatim>\<open>OPEN\<close>, then its \<^verbatim>\<open>onopen\<close> runs), and the connection is
  closed (the socket becomes \<^verbatim>\<open>CLOSED\<close>, then its \<^verbatim>\<open>onclose\<close> runs).\<close>

definition socket_opened :: "nat \<Rightarrow> WsEndpoint \<Rightarrow> error option \<times> WsEndpoint" where
  "socket_opened k this =
     ws_onopen (this\<lparr>ep_sockets := (ep_sockets this)
       [k := (ep_sockets this ! k)\<lparr>socket_readyState := OPEN\<rparr>]\<rparr>)"

definition socket_closed :: "nat \<Rightarrow> WsEndpoint \<Rightarrow> WsEndpoint" where
  "socket_closed k this =
     ws_onclose (this\<lparr>ep_sockets := (ep_sockets this)
       [k := (ep_sockets this ! k)\<lparr>socket_readyState := CLOSED\<rparr>]\<rparr>)"

subsection \<open>Notions used in the statements\<close>

text \<open>The key of a field on the wire: \<^verbatim>\<open>(fieldNumber << 3) | wireType\<close>, as a varint.\<close>

definition field_key :: "int \<Rightarrow> int \<Rightarrow> bytes" where
  "field_key fieldNumber wireType = w_uint32 (fieldNumber * 8 + wireType)"

text \<open>The subscribe frames for a list of subscriptions whose payloads have been parsed.\<close>

definition subscribe_frames :: "Sub list \<Rightarrow> bytes list \<Rightarrow> bytes list" where
  "subscribe_frames subs payloads =
     map (\<lambda>(sub, payload). Subscription_encode
            \<lparr>p_Subscription_scriptType = sub_scriptType sub,
             p_Subscription_payload = payload,
             p_Subscription_isSubscribe = True\<rparr>) (zip subs payloads)"

text \<open>The wire messages that the conversion layer converts without throwing: an input has
  its \<^verbatim>\<open>prevOut\<close> and its burn, if any, has its \<^verbatim>\<open>token\<close>; the enum fields of an
  \<^verbatim>\<open>SlpMeta\<close> hold one of the values 0 to 3; a transaction has such inputs, token data (if
  any) with such an \<^verbatim>\<open>SlpMeta\<close>, and a network among the values 0 to 3.\<close>

definition convertible_TxInput :: "proto_TxInput \<Rightarrow> bool" where
  "convertible_TxInput input \<longleftrightarrow>
     p_TxInput_prevOut input \<noteq> None
     \<and> (case p_TxInput_slpBurn input of
          None \<Rightarrow> True
        | Some burn \<Rightarrow> p_SlpBurn_token burn \<noteq> None)"

definition convertible_SlpMeta :: "proto_SlpMeta \<Rightarrow> bool" where
  "convertible_SlpMeta slpMeta \<longleftrightarrow>
     0 \<le> p_SlpMeta_tokenType slpMeta \<and> p_SlpMeta_tokenType slpMeta \<le> 3
     \<and> 0 \<le> p_SlpMeta_txType slpMeta \<and> p_SlpMeta_txType slpMeta \<le> 3"

definition convertible_Tx :: "proto_Tx \<Rightarrow> bool" where
  "convertible_Tx tx \<longleftrightarrow>
     list_all convertible_TxInput (p_Tx_inputs tx)
     \<and> (case p_Tx_slpTxData tx of
          None \<Rightarrow> True
        | Some slpTxData \<Rightarrow>
            (case p_SlpTxData_slpMeta slpTxData of
               None \<Rightarrow> False
             | Some slpMeta \<Rightarrow> convertible_SlpMeta slpMeta))
     \<and> 0 \<le> p_Tx_network tx \<and> p_Tx_network tx \<le> 3"

text \<open>Well-formed messages: every \<^verbatim>\<open>int32\<close> field is in the range from -2^31 up to 2^31 - 1, every
  \<^verbatim>\<open>uint32\<close> field in the range from 0 up to 2^32 - 1 (the \<^verbatim>\<open>int64\<close> and \<^verbatim>\<open>uint64\<close> fields are \<^verbatim>\<open>Long\<close>
  values, in range by their type), every nested message is well-formed, and every
  length-delimited field (bytes, string, nested message) is shorter than 2^32 bytes, the
  largest length \<^verbatim>\<open>Writer.uint32\<close> writes without truncating it.\<close>

definition wf_OutPoint :: "proto_OutPoint \<Rightarrow> bool" where
  "wf_OutPoint m \<longleftrightarrow>
     length (p_OutPoint_txid m) < 2 ^ 32
     \<and> 0 \<le> p_OutPoint_outIdx m
     \<and> p_OutPoint_outIdx m < 2 ^ 32"

definition wf_SlpToken :: "proto_SlpToken \<Rightarrow> bool" where
  "wf_SlpToken m \<longleftrightarrow> True"

definition wf_SlpBurn :: "proto_SlpBurn \<Rightarrow> bool" where
  "wf_SlpBurn m \<longleftrightarrow>
     (case p_SlpBurn_token m of None \<Rightarrow> True
        | Some v \<Rightarrow> wf_SlpToken v \<and> length (SlpToken_encode v) < 2 ^ 32)
     \<and> length (p_SlpBurn_tokenId m) < 2 ^ 32"

definition wf_SlpMeta :: "proto_SlpMeta \<Rightarrow> bool" where
  "wf_SlpMeta m \<longleftrightarrow>
     - (2 ^ 31) \<le> p_SlpMeta_tokenType m
     \<and> p_SlpMeta_tokenType m < 2 ^ 31
     \<and> - (2 ^ 31) \<le> p_SlpMeta_txType m
     \<and> p_SlpMeta_txType m < 2 ^ 31
     \<and> length (p_SlpMeta_tokenId m) < 2 ^ 32
     \<and> length (p_SlpMeta_groupTokenId m) < 2 ^ 32"

definition wf_SlpGenesisInfo :: "proto_SlpGenesisInfo \<Rightarrow> bool" where
  "wf_SlpGenesisInfo m \<longleftrightarrow>
     length (p_SlpGenesisInfo_tokenTicker m) < 2 ^ 32
     \<and> length (p_SlpGenesisInfo_tokenName m) < 2 ^ 32
     \<and> length (p_SlpGenesisInfo_tokenDocumentUrl m) < 2 ^ 32
     \<and> length (p_SlpGenesisInfo_tokenDocumentHash m) < 2 ^ 32
     \<and> 0 \<le> p_SlpGenesisInfo_decimals m
     \<and> p_SlpGenesisInfo_decimals m < 2 ^ 32"

definition wf_SlpTxData :: "proto_SlpTxData \<Rightarrow> bool" where
  "wf_SlpTxData m \<longleftrightarrow>
     (case p_SlpTxData_slpMeta m of None \<Rightarrow> True
        | Some v \<Rightarrow> wf_SlpMeta v \<and> length (SlpMeta_encode v) < 2 ^ 32)
     \<and> (case p_SlpTxData_genesisInfo m of None \<Rightarrow> True
        | Some v \<Rightarrow> wf_SlpGenesisInfo v \<and> length (SlpGenesisInfo_encode v) < 2 ^ 32)"

definition wf_BlockMetadata :: "proto_BlockMetadata \<Rightarrow> bool" where
  "wf_BlockMetadata m \<longleftrightarrow>
     - (2 ^ 31) \<le> p_BlockMetadata_height m
     \<and> p_BlockMetadata_height m < 2 ^ 31
     \<and> length (p_BlockMetadata_hash m) < 2 ^ 32"

definition wf_TxInput :: "proto_TxInput \<Rightarrow> bool" where
  "wf_TxInput m \<longleftrightarrow>
     (case p_TxInput_prevOut m of None \<Rightarrow> True
        | Some v \<Rightarrow> wf_OutPoint v \<and> length (OutPoint_encode v) < 2 ^ 32)
     \<and> length (p_TxInput_inputScript m) < 2 ^ 32
     \<and> length (p_TxInput_outputScript m) < 2 ^ 32
     \<and> 0 \<le> p_TxInput_sequenceNo m
     \<and> p_TxInput_sequenceNo m < 2 ^ 32
     \<and> (case p_TxInput_slpBurn m of None \<Rightarrow> True
        | Some v \<Rightarrow> wf_SlpBurn v \<and> length (SlpBurn_encode v) < 2 ^ 32)
     \<and> (case p_TxInput_slpToken m of None \<Rightarrow> True
        | Some v \<Rightarrow> wf_SlpToken v \<and> length (SlpToken_encode v) < 2 ^ 32)"

definition wf_TxOutput :: "proto_TxOutput \<Rightarrow> bool" where
  "wf_TxOutput m \<longleftrightarrow>
     length (p_TxOutput_outputScript m) < 2 ^ 32
     \<and> (case p_TxOutput_slpToken m of None \<Rightarrow> True
        | Some v \<Rightarrow> wf_SlpToken v \<and> length (SlpToken_encode v) < 2 ^ 32)
     \<and> (case p_TxOutput_spentBy m of None \<Rightarrow> True
        | Some v \<Rightarrow> wf_OutPoint v \<and> length (OutPoint_encode v) < 2 ^ 32)"

definition wf_Tx :: "proto_Tx \<Rightarrow> bool" where
  "wf_Tx m \<longleftrightarrow>
     length (p_Tx_txid m) < 2 ^ 32
     \<and> - (2 ^ 31) \<le> p_Tx_version m
     \<and> p_Tx_version m < 2 ^ 31
     \<and> list_all (\<lambda>v. wf_TxInput v \<and> length (TxInput_encode v) < 2 ^ 32) (p_Tx_inputs m)
     \<and> list_all (\<lambda>v. wf_TxOutput v \<and> length (TxOutput_encode v) < 2 ^ 32) (p_Tx_outputs m)
     \<and> 0 \<le> p_Tx_lockTime m
     \<and> p_Tx_lockTime m < 2 ^ 32
     \<and> (case p_Tx_slpTxData m of None \<Rightarrow> True
        | Some v \<Rightarrow> wf_SlpTxData v \<and> length (SlpTxData_encode v) < 2 ^ 32)
     \<and> utf8_length (p_Tx_slpErrorMsg m) < 2 ^ 32
     \<and> (case p_Tx_block m of None \<Rightarrow> True
        | Some v \<Rightarrow> wf_BlockMetadata v \<and> length (BlockMetadata_encode v) < 2 ^ 32)
     \<and> - (2 ^ 31) \<le> p_Tx_network m
     \<and> p_Tx_network m < 2 ^ 31"

definition wf_UtxoState :: "proto_UtxoState \<Rightarrow> bool" where
  "wf_UtxoState m \<longleftrightarrow>
     - (2 ^ 31) \<le> p_UtxoState_height m
     \<and> p_UtxoState_height m < 2 ^ 31
     \<and> - (2 ^ 31) \<le> p_UtxoState_state m
     \<and> p_UtxoState_state m < 2 ^ 31"

definition wf_ValidateUtxoRequest :: "proto_ValidateUtxoRequest \<Rightarrow> bool" where
  "wf_ValidateUtxoRequest m \<longleftrightarrow>
     list_all (\<lambda>v. wf_OutPoint v \<and> length (OutPoint_encode v) < 2 ^ 32) (p_ValidateUtxoRequest_outpoints m)"

definition wf_ValidateUtxoResponse :: "proto_ValidateUtxoResponse \<Rightarrow> bool" where
  "wf_ValidateUtxoResponse m \<longleftrightarrow>
     list_all (\<lambda>v. wf_UtxoState v \<and> length (UtxoState_encode v) < 2 ^ 32) (p_ValidateUtxoResponse_utxoStates m)"

text \<open>Modelled from the spec: the server behind \<^verbatim>\<open>/validate-utxos\<close> is not part of the client.
  The specification says that it "looks up each outpoint independently" and that the "order of
  results matches input order": it decodes the request, classifies each outpoint by itself
  (\<open>classify\<close> stands for the lookup in the node's index) and answers status 200 with the states
  in the order of the request.\<close>

definition in_order_server ::
  "(proto_OutPoint \<Rightarrow> proto_UtxoState) \<Rightarrow> jsstring \<Rightarrow> bytes \<Rightarrow> error + AxiosResponse" where
  "in_order_server classify u request =
     bind (ValidateUtxoRequest_decode request) (\<lambda>r.
     Inr \<lparr>response_status = 200,
          response_data = ValidateUtxoResponse_encode
            \<lparr>p_ValidateUtxoResponse_utxoStates =
               map classify (p_ValidateUtxoRequest_outpoints r)\<rparr>\<rparr>)"

section \<open>Properties\<close>

lemma bind_Inl [simp]: "bind (Inl e) f = Inl e"
  by (simp add: bind_def)

lemma bind_Inr [simp]: "bind (Inr x) f = f x"
  by (simp add: bind_def)

lemma bind_eq_Inr: "bind r f = Inr y \<longleftrightarrow> (\<exists>x. r = Inr x \<and> f x = Inr y)"
  by (cases r) (simp_all add: bind_def)

lemma map_result_Inr_length: "map_result f xs = Inr ys \<Longrightarrow> length ys = length xs"
  by (induction xs arbitrary: ys) (auto simp add: bind_eq_Inr)

subsection \<open>Evaluating the reader on explicit bytes\<close>

lemma read_groups_Nil [simp]: "read_groups k [] = (0, False, [])"
  by (cases k) simp_all

lemma read_groups_Cons:
  "0 < k \<Longrightarrow> read_groups k (b # bs) =
     (if b < 128 then (unat b, True, bs)
      else (case read_groups (k - 1) bs of
              (v, fin, rest) \<Rightarrow> (unat b mod 128 + 128 * v, fin, rest)))"
  by (cases k) simp_all

lemmas reader_eval = read_groups_Cons r_uint32_def r_int32_def r_bool_def r_bytes_def
  r_string_def readLongVarint_def r_int64_def r_uint64_def skipType_def skip_scalar_def
  skip_n_def set_field_def nested_def skip_field_def byte_at_def fromCharCode_def

lemmas writer_eval = w_uint32_def w_int32_def w_int64_def w_uint64_def w_bool_def w_bytes_def
  w_string_def utf8_length_def ldelim_def writeVarint.simps byte_of_def

lemmas hex_eval = toHex_def toHexRev_def hexDigit_def fromHexRev_def hexValue_def str_def

subsection \<open>The constructor\<close>

text \<open>
  C9. The constructor throws exactly for the urls that end with \<open>/\<close> or start with
  neither \<open>http://\<close> nor \<open>https://\<close>. For every other url it succeeds, keeps the url,
  and the websocket url is the url with the leading \<open>https://\<close> replaced by \<open>wss://\<close>,
  or the leading \<open>http://\<close> replaced by \<open>ws://\<close>.
\<close>

theorem ChronikClient_constructor:
  "((endsWith url (str ''/'')
      \<or> \<not> (startsWith url (str ''http://'') \<or> startsWith url (str ''https://'')))
     \<longrightarrow> (\<exists>e. new_ChronikClient url = Inl e))
   \<and> (\<not> (endsWith url (str ''/'')
      \<or> \<not> (startsWith url (str ''http://'') \<or> startsWith url (str ''https://'')))
     \<longrightarrow> (\<exists>c. new_ChronikClient url = Inr c \<and> client_url c = url
          \<and> (\<forall>rest. url = str ''https://'' @ rest \<longrightarrow> client_wsUrl c = str ''wss://'' @ rest)
          \<and> (\<forall>rest. url = str ''http://'' @ rest \<longrightarrow> client_wsUrl c = str ''ws://'' @ rest)))"
  by (auto simp add: new_ChronikClient_def startsWith_def substr_def str_def)

theorem ChronikClient_constructor_witness:
  "new_ChronikClient (str ''/'') = Inl (Error (str ''`url` cannot end with '/', got: /''))
   \<and> (\<exists>e. new_ChronikClient (str ''ftp://chronik.be.cash'') = Inl e)
   \<and> (\<exists>c. new_ChronikClient (str ''https://chronik.be.cash/xec'') = Inr c
        \<and> client_wsUrl c = str ''wss://chronik.be.cash/xec'')
   \<and> (\<exists>c. new_ChronikClient (str ''http://localhost:7123'') = Inr c
        \<and> client_wsUrl c = str ''ws://localhost:7123'')"
  using ChronikClient_constructor [of "str ''/''"]
    ChronikClient_constructor [of "str ''ftp://chronik.be.cash''"]
    ChronikClient_constructor [of "str ''https://chronik.be.cash/xec''"]
    ChronikClient_constructor [of "str ''http://localhost:7123''"]
  by (simp add: new_ChronikClient_def startsWith_def endsWith_def substr_def str_def)

subsection \<open>The conversion layer\<close>

text \<open>
  C1. Hashes are to be rendered in reversed byte order at every conversion site. The
  conversion of an output renders \<^verbatim>\<open>spentBy.txid\<close> with \<open>toHex\<close>, in wire order, where
  every other hash goes through \<open>toHexRev\<close>: for a transaction whose txid and whose
  output's \<^verbatim>\<open>spentBy.txid\<close> are both the bytes 01 02, the txid is rendered \<open>0201\<close> and the
  \<^verbatim>\<open>spentBy.txid\<close> is rendered \<open>0102\<close>.
\<close>

theorem convertToTx_spentBy_txid_not_reversed:
  "convertToTx decoder
     \<lparr>p_Tx_txid = [1, 2], p_Tx_version = 0, p_Tx_inputs = [],
      p_Tx_outputs = [\<lparr>p_TxOutput_value = 0, p_TxOutput_outputScript = [],
                       p_TxOutput_slpToken = None,
                       p_TxOutput_spentBy =
                         Some \<lparr>p_OutPoint_txid = [1, 2], p_OutPoint_outIdx = 0\<rparr>\<rparr>],
      p_Tx_lockTime = 0, p_Tx_slpTxData = None, p_Tx_slpErrorMsg = [], p_Tx_block = None,
      p_Tx_timeFirstSeen = 0, p_Tx_network = 1\<rparr>
   = Inr \<lparr>Tx_txid = str ''0201'', Tx_version = 0, Tx_inputs = [],
          Tx_outputs = [\<lparr>TxOutput_value = 0, TxOutput_outputScript = [],
                         TxOutput_slpToken = None,
                         TxOutput_spentBy =
                           Some \<lparr>OutPoint_txid = str ''0102'', OutPoint_outIdx = 0\<rparr>\<rparr>],
          Tx_lockTime = 0, Tx_slpTxData = None, Tx_slpErrorMsg = None, Tx_block = None,
          Tx_timeFirstSeen = 0, Tx_network = XEC\<rparr>"
  by (simp add: convertToTx_def convertToTxOutput_def convertToNetwork_def
      Network_BCH_def Network_XEC_def hex_eval)

lemma convertToSlpMeta_converts:
  assumes "convertible_SlpMeta slpMeta"
  shows "\<exists>tokenType txType. convertToSlpMeta slpMeta =
      Inr \<lparr>SlpMeta_tokenType = tokenType, SlpMeta_txType = txType,
           SlpMeta_tokenId = toHex (p_SlpMeta_tokenId slpMeta),
           SlpMeta_groupTokenId =
             (if length (p_SlpMeta_groupTokenId slpMeta) = 32
              then Some (toHex (p_SlpMeta_groupTokenId slpMeta)) else None)\<rparr>"
proof -
  from assms have "p_SlpMeta_tokenType slpMeta = 0 \<or> p_SlpMeta_tokenType slpMeta = 1
      \<or> p_SlpMeta_tokenType slpMeta = 2 \<or> p_SlpMeta_tokenType slpMeta = 3"
    unfolding convertible_SlpMeta_def by linarith
  then obtain tokenType where
    1: "(if p_SlpMeta_tokenType slpMeta = SlpTokenType_FUNGIBLE then Inr FUNGIBLE
           else if p_SlpMeta_tokenType slpMeta = SlpTokenType_NFT1_GROUP then Inr NFT1_GROUP
           else if p_SlpMeta_tokenType slpMeta = SlpTokenType_NFT1_CHILD then Inr NFT1_CHILD
           else if p_SlpMeta_tokenType slpMeta = SlpTokenType_UNKNOWN_TOKEN_TYPE
           then Inr UNKNOWN_TOKEN_TYPE
           else Inl (Error (str ''Invalid token type: ''
                            @ Number_toString (p_SlpMeta_tokenType slpMeta)))) = Inr tokenType"
    by (auto simp add: SlpTokenType_FUNGIBLE_def SlpTokenType_NFT1_GROUP_def
        SlpTokenType_NFT1_CHILD_def SlpTokenType_UNKNOWN_TOKEN_TYPE_def)
  from assms have "p_SlpMeta_txType slpMeta = 0 \<or> p_SlpMeta_txType slpMeta = 1
      \<or> p_SlpMeta_txType slpMeta = 2 \<or> p_SlpMeta_txType slpMeta = 3"
    unfolding convertible_SlpMeta_def by linarith
  then obtain txType where
    2: "(if p_SlpMeta_txType slpMeta = SlpTxType_GENESIS then Inr GENESIS
           else if p_SlpMeta_txType slpMeta = SlpTxType_SEND then Inr SEND
           else if p_SlpMeta_txType slpMeta = SlpTxType_MINT then Inr MINT
           else if p_SlpMeta_txType slpMeta = SlpTxType_UNKNOWN_TX_TYPE
           then Inr UNKNOWN_TX_TYPE
           else Inl (Error (str ''Invalid token type: ''
                            @ Number_toString (p_SlpMeta_txType slpMeta)))) = Inr txType"
    by (auto simp add: SlpTxType_GENESIS_def SlpTxType_SEND_def SlpTxType_MINT_def
        SlpTxType_UNKNOWN_TX_TYPE_def)
  show ?thesis
    unfolding convertToSlpMeta_def 1 2 by (simp del: if_split split del: if_split)
qed

lemma convertToTxInput_converts:
  assumes "convertible_TxInput input"
  shows "\<exists>i. convertToTxInput input = Inr i
      \<and> TxInput_outputScript i =
          (if p_TxInput_outputScript input = [] then None
           else Some (toHex (p_TxInput_outputScript input)))"
proof -
  from assms obtain prevOut where p: "p_TxInput_prevOut input = Some prevOut"
    by (auto simp add: convertible_TxInput_def)
  have "\<exists>slpBurn. option_result convertToSlpBurn (p_TxInput_slpBurn input) = Inr slpBurn"
  proof (cases "p_TxInput_slpBurn input")
    case None
    then show ?thesis by simp
  next
    case (Some burn)
    with assms obtain token where "p_SlpBurn_token burn = Some token"
      by (auto simp add: convertible_TxInput_def)
    with Some show ?thesis
      by (simp add: convertToSlpBurn_def)
  qed
  then obtain slpBurn where
    b: "option_result convertToSlpBurn (p_TxInput_slpBurn input) = Inr slpBurn" ..
  show ?thesis
    by (simp add: convertToTxInput_def p b)
qed

lemma convertToTxInputs_convert:
  "list_all convertible_TxInput inputs
   \<Longrightarrow> \<exists>ins. map_result convertToTxInput inputs = Inr ins"
proof (induction inputs)
  case Nil
  then show ?case by simp
next
  case (Cons input inputs)
  then obtain ins where 1: "map_result convertToTxInput inputs = Inr ins"
    by auto
  from Cons.prems convertToTxInput_converts [of input] obtain i where
    2: "convertToTxInput input = Inr i"
    by auto
  from 1 2 show ?case
    by simp
qed

text \<open>
  C10. Empty values on the wire become absent fields. Every input that has its
  \<^verbatim>\<open>prevOut\<close> (and whose burn has its token) is converted, and the converted input has no
  \<^verbatim>\<open>outputScript\<close> exactly when the wire script is empty. Every transaction whose inputs
  are such inputs, whose token data (if any) has an \<^verbatim>\<open>SlpMeta\<close> with enum values in 0..3
  and whose network is in 0..3 is converted, and the converted transaction has no
  \<^verbatim>\<open>slpErrorMsg\<close> exactly when the wire string is empty. Every \<^verbatim>\<open>SlpMeta\<close> with enum values
  in 0..3 is converted, and the converted \<^verbatim>\<open>SlpMeta\<close> has a \<^verbatim>\<open>groupTokenId\<close> exactly when the
  wire \<^verbatim>\<open>groupTokenId\<close> is 32 bytes long. A field that is present holds the wire value (in
  hex for the byte fields).
\<close>

theorem empty_sentinels_absent:
  "(convertible_TxInput input \<longrightarrow>
      (\<exists>i. convertToTxInput input = Inr i
        \<and> (TxInput_outputScript i = None \<longleftrightarrow> p_TxInput_outputScript input = [])
        \<and> TxInput_outputScript i =
            (if p_TxInput_outputScript input = [] then None
             else Some (toHex (p_TxInput_outputScript input)))))
   \<and> (convertible_Tx t \<longrightarrow>
      (\<exists>r. convertToTx decoder t = Inr r
        \<and> (Tx_slpErrorMsg r = None \<longleftrightarrow> p_Tx_slpErrorMsg t = [])
        \<and> Tx_slpErrorMsg r =
            (if p_Tx_slpErrorMsg t = [] then None else Some (p_Tx_slpErrorMsg t))))
   \<and> (convertible_SlpMeta meta \<longrightarrow>
      (\<exists>sm. convertToSlpMeta meta = Inr sm
        \<and> (SlpMeta_groupTokenId sm \<noteq> None \<longleftrightarrow> length (p_SlpMeta_groupTokenId meta) = 32)
        \<and> SlpMeta_groupTokenId sm =
            (if length (p_SlpMeta_groupTokenId meta) = 32
             then Some (toHex (p_SlpMeta_groupTokenId meta)) else None)))"
proof (intro conjI impI)
  assume "convertible_TxInput input"
  from convertToTxInput_converts [OF this]
  show "\<exists>i. convertToTxInput input = Inr i
        \<and> (TxInput_outputScript i = None \<longleftrightarrow> p_TxInput_outputScript input = [])
        \<and> TxInput_outputScript i =
            (if p_TxInput_outputScript input = [] then None
             else Some (toHex (p_TxInput_outputScript input)))"
    by auto
next
  assume c: "convertible_Tx t"
  then obtain inputs where 1: "map_result convertToTxInput (p_Tx_inputs t) = Inr inputs"
    using convertToTxInputs_convert [of "p_Tx_inputs t"] by (auto simp add: convertible_Tx_def)
  have "\<exists>slpTxData. option_result (convertToSlpTxData decoder) (p_Tx_slpTxData t)
      = Inr slpTxData"
  proof (cases "p_Tx_slpTxData t")
    case None
    then show ?thesis by simp
  next
    case (Some d)
    with c obtain slpMeta where m: "p_SlpTxData_slpMeta d = Some slpMeta"
      and cm: "convertible_SlpMeta slpMeta"
      by (auto simp add: convertible_Tx_def split: option.splits)
    from convertToSlpMeta_converts [OF cm] obtain sm where
      "convertToSlpMeta slpMeta = Inr sm"
      by blast
    with Some m show ?thesis
      by (simp add: convertToSlpTxData_def)
  qed
  then obtain slpTxData where
    2: "option_result (convertToSlpTxData decoder) (p_Tx_slpTxData t) = Inr slpTxData" ..
  from c have "p_Tx_network t = 0 \<or> p_Tx_network t = 1 \<or> p_Tx_network t = 2
      \<or> p_Tx_network t = 3"
    unfolding convertible_Tx_def by linarith
  then obtain network where 3: "convertToNetwork (p_Tx_network t) = Inr network"
    by (auto simp add: convertToNetwork_def Network_BCH_def Network_XEC_def Network_XPI_def
        Network_XRG_def)
  show "\<exists>r. convertToTx decoder t = Inr r
        \<and> (Tx_slpErrorMsg r = None \<longleftrightarrow> p_Tx_slpErrorMsg t = [])
        \<and> Tx_slpErrorMsg r =
            (if p_Tx_slpErrorMsg t = [] then None else Some (p_Tx_slpErrorMsg t))"
    by (simp add: convertToTx_def 1 2 3)
next
  assume "convertible_SlpMeta meta"
  from convertToSlpMeta_converts [OF this]
  show "\<exists>sm. convertToSlpMeta meta = Inr sm
        \<and> (SlpMeta_groupTokenId sm \<noteq> None \<longleftrightarrow> length (p_SlpMeta_groupTokenId meta) = 32)
        \<and> SlpMeta_groupTokenId sm =
            (if length (p_SlpMeta_groupTokenId meta) = 32
             then Some (toHex (p_SlpMeta_groupTokenId meta)) else None)"
    by auto
qed

theorem empty_sentinels_absent_witness:
  "(\<exists>i. convertToTxInput
      \<lparr>p_TxInput_prevOut = Some \<lparr>p_OutPoint_txid = [1, 2], p_OutPoint_outIdx = 0\<rparr>,
       p_TxInput_inputScript = [81], p_TxInput_outputScript = [118, 169], p_TxInput_value = 0,
       p_TxInput_sequenceNo = 0, p_TxInput_slpBurn = None, p_TxInput_slpToken = None\<rparr> = Inr i
      \<and> TxInput_outputScript i = Some (str ''76a9''))
   \<and> (\<exists>i. convertToTxInput
      \<lparr>p_TxInput_prevOut = Some \<lparr>p_OutPoint_txid = [1, 2], p_OutPoint_outIdx = 0\<rparr>,
       p_TxInput_inputScript = [81], p_TxInput_outputScript = [], p_TxInput_value = 0,
       p_TxInput_sequenceNo = 0, p_TxInput_slpBurn = None, p_TxInput_slpToken = None\<rparr> = Inr i
      \<and> TxInput_outputScript i = None)
   \<and> (\<exists>r. convertToTx (\<lambda>bs. [])
      \<lparr>p_Tx_txid = [1, 2], p_Tx_version = 0,
       p_Tx_inputs = [\<lparr>p_TxInput_prevOut = Some \<lparr>p_OutPoint_txid = [1, 2], p_OutPoint_outIdx = 0\<rparr>,
                       p_TxInput_inputScript = [81], p_TxInput_outputScript = [118, 169], p_TxInput_value = 0,
                       p_TxInput_sequenceNo = 0, p_TxInput_slpBurn = None, p_TxInput_slpToken = None\<rparr>],
       p_Tx_outputs = [], p_Tx_lockTime = 0, p_Tx_slpTxData = None,
       p_Tx_slpErrorMsg = str ''bad'', p_Tx_block = None, p_Tx_timeFirstSeen = 0,
       p_Tx_network = 1\<rparr> = Inr r
      \<and> Tx_slpErrorMsg r = Some (str ''bad''))
   \<and> (\<exists>r. convertToTx (\<lambda>bs. [])
      \<lparr>p_Tx_txid = [1, 2], p_Tx_version = 0,
       p_Tx_inputs = [\<lparr>p_TxInput_prevOut = Some \<lparr>p_OutPoint_txid = [1, 2], p_OutPoint_outIdx = 0\<rparr>,
                       p_TxInput_inputScript = [81], p_TxInput_outputScript = [118, 169], p_TxInput_value = 0,
                       p_TxInput_sequenceNo = 0, p_TxInput_slpBurn = None, p_TxInput_slpToken = None\<rparr>],
       p_Tx_outputs = [], p_Tx_lockTime = 0, p_Tx_slpTxData = None,
       p_Tx_slpErrorMsg = [], p_Tx_block = None, p_Tx_timeFirstSeen = 0,
       p_Tx_network = 1\<rparr> = Inr r
      \<and> Tx_slpErrorMsg r = None)
   \<and> (\<exists>sm. convertToSlpMeta
      \<lparr>p_SlpMeta_tokenType = 2, p_SlpMeta_txType = 0, p_SlpMeta_tokenId = [],
       p_SlpMeta_groupTokenId = [1, 2, 3, 4, 5, 6, 7, 8, 9, 10, 11, 12, 13, 14, 15, 16,
          17, 18, 19, 20, 21, 22, 23, 24, 25, 26, 27, 28, 29, 30, 31, 32]\<rparr> = Inr sm
      \<and> SlpMeta_groupTokenId sm
          = Some (str ''0102030405060708090a0b0c0d0e0f101112131415161718191a1b1c1d1e1f20''))
   \<and> (\<exists>sm. convertToSlpMeta
      \<lparr>p_SlpMeta_tokenType = 2, p_SlpMeta_txType = 0, p_SlpMeta_tokenId = [],
       p_SlpMeta_groupTokenId = [1, 2]\<rparr> = Inr sm
      \<and> SlpMeta_groupTokenId sm = None)"
proof -
  let ?a = "\<lparr>p_TxInput_prevOut = Some \<lparr>p_OutPoint_txid = [1, 2], p_OutPoint_outIdx = 0\<rparr>,
       p_TxInput_inputScript = [81], p_TxInput_outputScript = [118, 169], p_TxInput_value = 0,
       p_TxInput_sequenceNo = 0, p_TxInput_slpBurn = None, p_TxInput_slpToken = None\<rparr>"
  let ?b = "\<lparr>p_TxInput_prevOut = Some \<lparr>p_OutPoint_txid = [1, 2], p_OutPoint_outIdx = 0\<rparr>,
       p_TxInput_inputScript = [81], p_TxInput_outputScript = [], p_TxInput_value = 0,
       p_TxInput_sequenceNo = 0, p_TxInput_slpBurn = None, p_TxInput_slpToken = None\<rparr>"
  let ?t1 = "\<lparr>p_Tx_txid = [1, 2], p_Tx_version = 0,
       p_Tx_inputs = [\<lparr>p_TxInput_prevOut = Some \<lparr>p_OutPoint_txid = [1, 2], p_OutPoint_outIdx = 0\<rparr>,
                       p_TxInput_inputScript = [81], p_TxInput_outputScript = [118, 169], p_TxInput_value = 0,
                       p_TxInput_sequenceNo = 0, p_TxInput_slpBurn = None, p_TxInput_slpToken = None\<rparr>],
       p_Tx_outputs = [], p_Tx_lockTime = 0, p_Tx_slpTxData = None,
       p_Tx_slpErrorMsg = str ''bad'', p_Tx_block = None, p_Tx_timeFirstSeen = 0,
       p_Tx_network = 1\<rparr>"
  let ?t2 = "\<lparr>p_Tx_txid = [1, 2], p_Tx_version = 0,
       p_Tx_inputs = [\<lparr>p_TxInput_prevOut = Some \<lparr>p_OutPoint_txid = [1, 2], p_OutPoint_outIdx = 0\<rparr>,
                       p_TxInput_inputScript = [81], p_TxInput_outputScript = [118, 169], p_TxInput_value = 0,
                       p_TxInput_sequenceNo = 0, p_TxInput_slpBurn = None, p_TxInput_slpToken = None\<rparr>],
       p_Tx_outputs = [], p_Tx_lockTime = 0, p_Tx_slpTxData = None,
       p_Tx_slpErrorMsg = [], p_Tx_block = None, p_Tx_timeFirstSeen = 0,
       p_Tx_network = 1\<rparr>"
  let ?m1 = "\<lparr>p_SlpMeta_tokenType = 2, p_SlpMeta_txType = 0, p_SlpMeta_tokenId = [],
       p_SlpMeta_groupTokenId = [1, 2, 3, 4, 5, 6, 7, 8, 9, 10, 11, 12, 13, 14, 15, 16,
          17, 18, 19, 20, 21, 22, 23, 24, 25, 26, 27, 28, 29, 30, 31, 32]\<rparr>"
  let ?m2 = "\<lparr>p_SlpMeta_tokenType = 2, p_SlpMeta_txType = 0, p_SlpMeta_tokenId = [],
       p_SlpMeta_groupTokenId = [1, 2]\<rparr>"
  have a: "convertible_TxInput ?a" and b: "convertible_TxInput ?b"
    by (simp_all add: convertible_TxInput_def)
  have t1: "convertible_Tx ?t1" and t2: "convertible_Tx ?t2"
    by (simp_all add: convertible_Tx_def convertible_TxInput_def)
  have m1: "convertible_SlpMeta ?m1" and m2: "convertible_SlpMeta ?m2"
    by (simp_all add: convertible_SlpMeta_def)
  have h: "toHex [118, 169] = str ''76a9''"
    by (simp add: hex_eval)
  have g: "toHex [1, 2, 3, 4, 5, 6, 7, 8, 9, 10, 11, 12, 13, 14, 15, 16,
      17, 18, 19, 20, 21, 22, 23, 24, 25, 26, 27, 28, 29, 30, 31, 32]
      = str ''0102030405060708090a0b0c0d0e0f101112131415161718191a1b1c1d1e1f20''"
    by (simp add: hex_eval)
  have e: "str ''bad'' \<noteq> []"
    by (simp add: str_def)
  from empty_sentinels_absent [of ?a ?t1 "\<lambda>bs. []" ?m1] a t1 m1 h g e
  have 1: "\<exists>i. convertToTxInput ?a = Inr i \<and> TxInput_outputScript i = Some (str ''76a9'')"
    and 2: "\<exists>r. convertToTx (\<lambda>bs. []) ?t1 = Inr r \<and> Tx_slpErrorMsg r = Some (str ''bad'')"
    and 3: "\<exists>sm. convertToSlpMeta ?m1 = Inr sm
      \<and> SlpMeta_groupTokenId sm
          = Some (str ''0102030405060708090a0b0c0d0e0f101112131415161718191a1b1c1d1e1f20'')"
    by simp_all blast+
  from empty_sentinels_absent [of ?b ?t2 "\<lambda>bs. []" ?m2] b t2 m2
  have 4: "\<exists>i. convertToTxInput ?b = Inr i \<and> TxInput_outputScript i = None"
    and 5: "\<exists>r. convertToTx (\<lambda>bs. []) ?t2 = Inr r \<and> Tx_slpErrorMsg r = None"
    and 6: "\<exists>sm. convertToSlpMeta ?m2 = Inr sm \<and> SlpMeta_groupTokenId sm = None"
    by simp_all
  from 1 4 2 5 3 6 show ?thesis
    by (intro conjI)
qed

subsection \<open>The query helpers\<close>

text \<open>
  C6, as the code has it. A response with status 200 is answered with its body,
  unchanged. A response with another status always ends in a throw, never in a body:
  when the body decodes as an \<^verbatim>\<open>Error\<close> message the error thrown is built from the path
  and the message's \<^verbatim>\<open>errorCode\<close> and \<^verbatim>\<open>msg\<close>, and when the body does not decode the
  decoder's own error is the one thrown.
\<close>

theorem query_helper_status:
  "(axios_get (url @ path) = Inr response \<and> response_status response = 200
      \<longrightarrow> u_get axios_get url path = Inr (response_data response))
   \<and> (axios_get (url @ path) = Inr response \<and> response_status response \<noteq> 200
      \<longrightarrow> (\<exists>e. u_get axios_get url path = Inl e))
   \<and> (axios_get (url @ path) = Inr response \<and> response_status response \<noteq> 200
        \<and> Error_decode (response_data response) = Inr error
      \<longrightarrow> u_get axios_get url path =
            Inl (Error (str ''Failed getting '' @ path @ str '' ('' @ p_Error_errorCode error
                        @ str ''): '' @ p_Error_msg error)))
   \<and> (axios_get (url @ path) = Inr response \<and> response_status response \<noteq> 200
        \<and> Error_decode (response_data response) = Inl e
      \<longrightarrow> u_get axios_get url path = Inl e)
   \<and> (axios_post (url @ path) data = Inr response \<and> response_status response = 200
      \<longrightarrow> u_post axios_post url path data = Inr (response_data response))
   \<and> (axios_post (url @ path) data = Inr response \<and> response_status response \<noteq> 200
      \<longrightarrow> (\<exists>e. u_post axios_post url path data = Inl e))
   \<and> (axios_post (url @ path) data = Inr response \<and> response_status response \<noteq> 200
        \<and> Error_decode (response_data response) = Inr error
      \<longrightarrow> u_post axios_post url path data =
            Inl (Error (str ''Failed getting '' @ path @ str '' ('' @ p_Error_errorCode error
                        @ str ''): '' @ p_Error_msg error)))
   \<and> (axios_post (url @ path) data = Inr response \<and> response_status response \<noteq> 200
        \<and> Error_decode (response_data response) = Inl e
      \<longrightarrow> u_post axios_post url path data = Inl e)"
  by (cases "Error_decode (response_data response)")
    (simp_all add: u_get_def u_post_def ensureResponseErrorThrown_def)

lemma Error_decode_example:
  "Error_decode [10, 3, 52, 48, 52, 18, 1, 120, 24, 1]
     = Inr \<lparr>p_Error_errorCode = str ''404'', p_Error_msg = str ''x'', p_Error_isUserError = True\<rparr>"
  by (simp add: reader_eval Error_decode_def Error_decode_from_def Error_decode_loop.simps
      Error_field_def baseError_def str_def)

theorem query_helper_status_witness:
  "u_get (\<lambda>u. Inr \<lparr>response_status = 200, response_data = [1, 2]\<rparr>)
      (str ''https://chronik.be.cash/xec'') (str ''/tx/00'') = Inr [1, 2]
   \<and> u_get (\<lambda>u. Inr \<lparr>response_status = 404,
                       response_data = [10, 3, 52, 48, 52, 18, 1, 120, 24, 1]\<rparr>)
      (str ''https://chronik.be.cash/xec'') (str ''/tx/00'')
      = Inl (Error (str ''Failed getting /tx/00 (404): x''))
   \<and> u_post (\<lambda>u d. Inr \<lparr>response_status = 200, response_data = d\<rparr>)
      (str ''https://chronik.be.cash/xec'') (str ''/validate-utxos'') [7] = Inr [7]"
  using query_helper_status
    [where axios_get = "\<lambda>u. Inr \<lparr>response_status = 200, response_data = [1, 2]\<rparr>"
       and url = "str ''https://chronik.be.cash/xec''" and path = "str ''/tx/00''"
       and response = "\<lparr>response_status = 200, response_data = [1, 2]\<rparr>"]
    query_helper_status
    [where axios_get = "\<lambda>u. Inr \<lparr>response_status = 404,
                       response_data = [10, 3, 52, 48, 52, 18, 1, 120, 24, 1]\<rparr>"
       and url = "str ''https://chronik.be.cash/xec''" and path = "str ''/tx/00''"
       and response = "\<lparr>response_status = 404,
                       response_data = [10, 3, 52, 48, 52, 18, 1, 120, 24, 1]\<rparr>"
       and error = "\<lparr>p_Error_errorCode = str ''404'', p_Error_msg = str ''x'',
                      p_Error_isUserError = True\<rparr>"]
    query_helper_status
    [where axios_post = "\<lambda>u d. Inr \<lparr>response_status = 200, response_data = d\<rparr>"
       and url = "str ''https://chronik.be.cash/xec''" and path = "str ''/validate-utxos''"
       and data = "[7]" and response = "\<lparr>response_status = 200, response_data = [7]\<rparr>"]
    Error_decode_example
  by (simp add: str_def)

text \<open>
  C6, as the claim has it, fails on a body that is not an \<^verbatim>\<open>Error\<close> message: for the
  status 502 with the body \<^verbatim>\<open><html>\<close> the helper throws the decoder's error for the
  wire type 4, and no error built from an \<^verbatim>\<open>errorCode\<close> and a \<^verbatim>\<open>msg\<close>.
\<close>

theorem query_helper_undecodable_body:
  "u_get (\<lambda>u. Inr \<lparr>response_status = 502, response_data = map of_char ''<html>''\<rparr>)
     (str ''https://chronik.be.cash/xec'') (str ''/tx/00'') = Inl (InvalidWireType 4)"
  by (simp add: u_get_def ensureResponseErrorThrown_def reader_eval Error_decode_def
      Error_decode_from_def Error_decode_loop.simps Error_field_def)

subsection \<open>The websocket endpoint\<close>

lemma socket_send_subs: "ep_subs (snd (socket_send k frame this)) = ep_subs this"
  by (simp add: socket_send_def split: ReadyState.splits)

lemma socket_send_ws: "ep_ws (snd (socket_send k frame this)) = ep_ws this"
  by (simp add: socket_send_def split: ReadyState.splits)

lemma socket_send_readyState:
  "socket_readyState (ep_sockets (snd (socket_send k frame this)) ! k)
     = socket_readyState (ep_sockets this ! k)"
proof (cases "k < length (ep_sockets this)")
  case True
  then show ?thesis
    by (simp add: socket_send_def split: ReadyState.splits)
next
  case False
  then show ?thesis
    by (simp add: socket_send_def list_update_beyond split: ReadyState.splits)
qed

lemma socket_send_fst:
  "socket_readyState (ep_sockets this' ! k) = socket_readyState (ep_sockets this ! k)
   \<Longrightarrow> fst (socket_send k frame this') = fst (socket_send k frame this)"
  by (simp add: socket_send_def split: ReadyState.splits)

lemma u_subUnsub_subs: "ep_subs (snd (u_subUnsub b t p this)) = ep_subs this"
  by (simp add: u_subUnsub_def socket_send_subs split: sum.splits option.splits)

lemma u_subUnsub_ws: "ep_ws (snd (u_subUnsub b t p this)) = ep_ws this"
  by (simp add: u_subUnsub_def socket_send_ws split: sum.splits option.splits)

lemma u_subUnsub_readyState:
  "ep_ws this = Some k
   \<Longrightarrow> socket_readyState (ep_sockets (snd (u_subUnsub b t p this)) ! k)
       = socket_readyState (ep_sockets this ! k)"
  by (simp add: u_subUnsub_def socket_send_readyState split: sum.splits)

lemma u_subUnsub_fst:
  "ep_ws this' = ep_ws this
   \<Longrightarrow> (\<And>k. ep_ws this = Some k
         \<Longrightarrow> socket_readyState (ep_sockets this' ! k) = socket_readyState (ep_sockets this ! k))
   \<Longrightarrow> fst (u_subUnsub b t p this') = fst (u_subUnsub b t p this)"
proof (cases "fromHex p")
  case (Inl e)
  then show ?thesis
    by (simp add: u_subUnsub_def)
next
  case (Inr payload)
  assume ws: "ep_ws this' = ep_ws this"
    and rs: "\<And>k. ep_ws this = Some k
         \<Longrightarrow> socket_readyState (ep_sockets this' ! k) = socket_readyState (ep_sockets this ! k)"
  show ?thesis
  proof (cases "ep_ws this")
    case None
    with Inr ws show ?thesis
      by (simp add: u_subUnsub_def)
  next
    case (Some k)
    from socket_send_fst [OF rs [OF Some]] Inr ws Some show ?thesis
      by (simp add: u_subUnsub_def)
  qed
qed



lemma subs_forEach_append:
  "ep_ws this = Some k \<Longrightarrow> k < length (ep_sockets this)
   \<Longrightarrow> socket_readyState (ep_sockets this ! k) = OPEN
   \<Longrightarrow> map_result (\<lambda>sub. fromHex (sub_scriptPayload sub)) pre = Inr payloads
   \<Longrightarrow> subs_forEach (pre @ rest) this =
       subs_forEach rest (this\<lparr>ep_sockets := (ep_sockets this)
          [k := (ep_sockets this ! k)\<lparr>socket_sent := socket_sent (ep_sockets this ! k)
                  @ subscribe_frames pre payloads\<rparr>]\<rparr>)"
proof (induction pre arbitrary: this payloads)
  case Nil
  then show ?case by (simp add: subscribe_frames_def)
next
  case (Cons sub subs)
  from Cons.prems(4) obtain payload ps where
    p: "fromHex (sub_scriptPayload sub) = Inr payload"
    and ps: "map_result (\<lambda>sub. fromHex (sub_scriptPayload sub)) subs = Inr ps"
    and eq: "payloads = payload # ps"
    by (auto simp add: bind_eq_Inr)
  let ?frame = "Subscription_encode
            \<lparr>p_Subscription_scriptType = sub_scriptType sub,
             p_Subscription_payload = payload,
             p_Subscription_isSubscribe = True\<rparr>"
  let ?this1 = "this\<lparr>ep_sockets := (ep_sockets this)
             [k := (ep_sockets this ! k)
                \<lparr>socket_sent := socket_sent (ep_sockets this ! k) @ [?frame]\<rparr>]\<rparr>"
  have step: "u_subUnsub True (sub_scriptType sub) (sub_scriptPayload sub) this = (None, ?this1)"
    using Cons.prems(1,3) p by (simp add: u_subUnsub_def socket_send_def)
  have ws1: "ep_ws ?this1 = Some k" and len1: "k < length (ep_sockets ?this1)"
    and open1: "socket_readyState (ep_sockets ?this1 ! k) = OPEN"
    using Cons.prems(1,2,3) by simp_all
  from Cons.IH [OF ws1 len1 open1 ps] step eq Cons.prems(2) show ?case
    by (simp add: subscribe_frames_def)
qed

lemma subs_forEach_sends:
  assumes "ep_ws this = Some k" "k < length (ep_sockets this)"
    and "socket_readyState (ep_sockets this ! k) = OPEN"
    and "map_result (\<lambda>sub. fromHex (sub_scriptPayload sub)) subs = Inr payloads"
  shows "subs_forEach subs this =
       (None, this\<lparr>ep_sockets := (ep_sockets this)
          [k := (ep_sockets this ! k)\<lparr>socket_sent := socket_sent (ep_sockets this ! k)
                  @ subscribe_frames subs payloads\<rparr>]\<rparr>)"
  using subs_forEach_append [OF assms, of "[]"] by simp

lemma subs_forEach_stops:
  assumes "ep_ws this = Some k" "k < length (ep_sockets this)"
    and "socket_readyState (ep_sockets this ! k) = OPEN"
    and "map_result (\<lambda>sub. fromHex (sub_scriptPayload sub)) pre = Inr payloads"
    and "fromHex (sub_scriptPayload bad) = Inl e"
  shows "subs_forEach (pre @ bad # post) this =
       (Some e, this\<lparr>ep_sockets := (ep_sockets this)
          [k := (ep_sockets this ! k)\<lparr>socket_sent := socket_sent (ep_sockets this ! k)
                  @ subscribe_frames pre payloads\<rparr>]\<rparr>)"
  using subs_forEach_append [OF assms(1-4), of "bad # post"] assms(5)
  by (simp add: u_subUnsub_def)

lemma socket_opened_sends:
  assumes "ep_ws this = Some k" "k < length (ep_sockets this)"
    and "map_result (\<lambda>sub. fromHex (sub_scriptPayload sub)) (ep_subs this) = Inr payloads"
  shows "\<exists>this2. socket_opened k this = (None, this2)
      \<and> ep_ws this2 = Some k \<and> ep_subs this2 = ep_subs this
      \<and> length (ep_sockets this2) = length (ep_sockets this)
      \<and> socket_sent (ep_sockets this2 ! k)
          = socket_sent (ep_sockets this ! k) @ subscribe_frames (ep_subs this) payloads"
proof -
  let ?o = "this\<lparr>ep_sockets := (ep_sockets this)
       [k := (ep_sockets this ! k)\<lparr>socket_readyState := OPEN\<rparr>]\<rparr>"
  have 1: "ep_ws ?o = Some k" and 2: "k < length (ep_sockets ?o)"
    and 3: "socket_readyState (ep_sockets ?o ! k) = OPEN"
    and 4: "map_result (\<lambda>sub. fromHex (sub_scriptPayload sub)) (ep_subs ?o) = Inr payloads"
    using assms by simp_all
  show ?thesis
    using subs_forEach_sends [OF 1 2 3 4] assms(1,2)
    by (simp add: socket_opened_def ws_onopen_def)
qed

lemma socket_opened_stops:
  assumes "ep_ws this = Some k" "k < length (ep_sockets this)"
    and "ep_subs this = pre @ bad # post"
    and "map_result (\<lambda>sub. fromHex (sub_scriptPayload sub)) pre = Inr payloads"
    and "fromHex (sub_scriptPayload bad) = Inl e"
  shows "\<exists>this2. socket_opened k this = (Some e, this2)
      \<and> socket_sent (ep_sockets this2 ! k)
          = socket_sent (ep_sockets this ! k) @ subscribe_frames pre payloads"
proof -
  let ?o = "this\<lparr>ep_sockets := (ep_sockets this)
       [k := (ep_sockets this ! k)\<lparr>socket_readyState := OPEN\<rparr>]\<rparr>"
  have 1: "ep_ws ?o = Some k" and 2: "k < length (ep_sockets ?o)"
    and 3: "socket_readyState (ep_sockets ?o ! k) = OPEN"
    using assms by simp_all
  show ?thesis
    using subs_forEach_stops [OF 1 2 3 assms(4,5), of post] assms(2,3)
    by (simp add: socket_opened_def ws_onopen_def)
qed

lemma socket_closed_reconnects:
  assumes "\<not> ep_closed this"
  shows "ep_ws (socket_closed j this) = Some (length (ep_sockets this))"
    and "length (ep_sockets (socket_closed j this)) = Suc (length (ep_sockets this))"
    and "ep_sockets (socket_closed j this) ! length (ep_sockets this)
          = \<lparr>socket_url = ep_wsUrl this, socket_readyState = CONNECTING,
             socket_sent = [], socket_close_called = False\<rparr>"
    and "ep_subs (socket_closed j this) = ep_subs this"
  using assms by (simp_all add: socket_closed_def ws_onclose_def u_connect_def nth_append)




subsection \<open>Field numbers and enum values\<close>

text \<open>
  C2. \<^verbatim>\<open>Tx.encode\<close> writes txid as field 1, version as field 2, the inputs as field 3, the
  outputs as field 4, lockTime as field 5, the token data as field 6, the token error
  message as field 7, the block metadata as field 8, timeFirstSeen as field 9 and the
  network as field 10 (varints with wire type 0, the others length-delimited with wire
  type 2); and the enums have the values 0 to 3 in the order of the spec, which is how
  the conversion layer reads them.
\<close>

theorem Tx_encode_field_numbers:
  "Tx_encode m =
     (if p_Tx_txid m \<noteq> [] then field_key 1 2 @ w_bytes (p_Tx_txid m) else [])
     @ (if p_Tx_version m \<noteq> 0 then field_key 2 0 @ w_int32 (p_Tx_version m) else [])
     @ concat (map (\<lambda>v. field_key 3 2 @ ldelim (TxInput_encode v)) (p_Tx_inputs m))
     @ concat (map (\<lambda>v. field_key 4 2 @ ldelim (TxOutput_encode v)) (p_Tx_outputs m))
     @ (if p_Tx_lockTime m \<noteq> 0 then field_key 5 0 @ w_uint32 (p_Tx_lockTime m) else [])
     @ (case p_Tx_slpTxData m of None \<Rightarrow> []
        | Some v \<Rightarrow> field_key 6 2 @ ldelim (SlpTxData_encode v))
     @ (if p_Tx_slpErrorMsg m \<noteq> [] then field_key 7 2 @ w_string (p_Tx_slpErrorMsg m) else [])
     @ (case p_Tx_block m of None \<Rightarrow> []
        | Some v \<Rightarrow> field_key 8 2 @ ldelim (BlockMetadata_encode v))
     @ (if p_Tx_timeFirstSeen m \<noteq> 0 then field_key 9 0 @ w_int64 (p_Tx_timeFirstSeen m) else [])
     @ (if p_Tx_network m \<noteq> 0 then field_key 10 0 @ w_int32 (p_Tx_network m) else [])
   \<and> Network_BCH = 0 \<and> Network_XEC = 1 \<and> Network_XPI = 2 \<and> Network_XRG = 3
   \<and> SlpTxType_GENESIS = 0 \<and> SlpTxType_SEND = 1 \<and> SlpTxType_MINT = 2
   \<and> SlpTxType_UNKNOWN_TX_TYPE = 3
   \<and> UtxoStateVariant_UNSPENT = 0 \<and> UtxoStateVariant_SPENT = 1
   \<and> UtxoStateVariant_NO_SUCH_TX = 2 \<and> UtxoStateVariant_NO_SUCH_OUTPUT = 3
   \<and> convertToNetwork 0 = Inr BCH \<and> convertToNetwork 1 = Inr XEC
   \<and> convertToNetwork 2 = Inr XPI \<and> convertToNetwork 3 = Inr XRG
   \<and> convertToUtxoStateVariant 0 = Inr UNSPENT \<and> convertToUtxoStateVariant 1 = Inr SPENT
   \<and> convertToUtxoStateVariant 2 = Inr NO_SUCH_TX
   \<and> convertToUtxoStateVariant 3 = Inr NO_SUCH_OUTPUT"
proof -
  have "Tx_encode m =
     (if p_Tx_txid m \<noteq> [] then field_key 1 2 @ w_bytes (p_Tx_txid m) else [])
     @ (if p_Tx_version m \<noteq> 0 then field_key 2 0 @ w_int32 (p_Tx_version m) else [])
     @ concat (map (\<lambda>v. field_key 3 2 @ ldelim (TxInput_encode v)) (p_Tx_inputs m))
     @ concat (map (\<lambda>v. field_key 4 2 @ ldelim (TxOutput_encode v)) (p_Tx_outputs m))
     @ (if p_Tx_lockTime m \<noteq> 0 then field_key 5 0 @ w_uint32 (p_Tx_lockTime m) else [])
     @ (case p_Tx_slpTxData m of None \<Rightarrow> []
        | Some v \<Rightarrow> field_key 6 2 @ ldelim (SlpTxData_encode v))
     @ (if p_Tx_slpErrorMsg m \<noteq> [] then field_key 7 2 @ w_string (p_Tx_slpErrorMsg m) else [])
     @ (case p_Tx_block m of None \<Rightarrow> []
        | Some v \<Rightarrow> field_key 8 2 @ ldelim (BlockMetadata_encode v))
     @ (if p_Tx_timeFirstSeen m \<noteq> 0 then field_key 9 0 @ w_int64 (p_Tx_timeFirstSeen m) else [])
     @ (if p_Tx_network m \<noteq> 0 then field_key 10 0 @ w_int32 (p_Tx_network m) else [])"
    by (simp add: Tx_encode_def field_key_def split del: if_split
        cong: option.case_cong if_cong)
  moreover have "Network_BCH = 0 \<and> Network_XEC = 1 \<and> Network_XPI = 2 \<and> Network_XRG = 3
   \<and> SlpTxType_GENESIS = 0 \<and> SlpTxType_SEND = 1 \<and> SlpTxType_MINT = 2
   \<and> SlpTxType_UNKNOWN_TX_TYPE = 3
   \<and> UtxoStateVariant_UNSPENT = 0 \<and> UtxoStateVariant_SPENT = 1
   \<and> UtxoStateVariant_NO_SUCH_TX = 2 \<and> UtxoStateVariant_NO_SUCH_OUTPUT = 3
   \<and> convertToNetwork 0 = Inr BCH \<and> convertToNetwork 1 = Inr XEC
   \<and> convertToNetwork 2 = Inr XPI \<and> convertToNetwork 3 = Inr XRG
   \<and> convertToUtxoStateVariant 0 = Inr UNSPENT \<and> convertToUtxoStateVariant 1 = Inr SPENT
   \<and> convertToUtxoStateVariant 2 = Inr NO_SUCH_TX
   \<and> convertToUtxoStateVariant 3 = Inr NO_SUCH_OUTPUT"
    by (simp add: Network_BCH_def Network_XEC_def Network_XPI_def Network_XRG_def
        SlpTxType_GENESIS_def SlpTxType_SEND_def SlpTxType_MINT_def SlpTxType_UNKNOWN_TX_TYPE_def
        UtxoStateVariant_UNSPENT_def UtxoStateVariant_SPENT_def UtxoStateVariant_NO_SUCH_TX_def
        UtxoStateVariant_NO_SUCH_OUTPUT_def convertToNetwork_def convertToUtxoStateVariant_def)
  ultimately show ?thesis
    by (rule conjI)
qed


subsection \<open>Varints written and read back\<close>

text \<open>What \<^verbatim>\<open>Reader.uint32\<close>, \<^verbatim>\<open>int32\<close>, \<^verbatim>\<open>int64\<close>, \<^verbatim>\<open>uint64\<close>, \<^verbatim>\<open>bool\<close> and \<^verbatim>\<open>bytes\<close> read from
  the bytes that the methods of the same name of \<^verbatim>\<open>Writer\<close> wrote.\<close>

lemma unat_byte_of: "n < 256 \<Longrightarrow> unat (byte_of n) = n"
  by (simp add: byte_of_def unat_of_nat)

lemma byte_of_less_128: "n < 256 \<Longrightarrow> byte_of n < 128 \<longleftrightarrow> n < 128"
  by (simp add: word_less_nat_alt unat_byte_of)

lemma writeVarint_small: "n < 128 \<Longrightarrow> writeVarint n = [byte_of n]"
  by (subst writeVarint.simps) simp

lemma writeVarint_big:
  "128 \<le> n \<Longrightarrow> writeVarint n = byte_of (n mod 128 + 128) # writeVarint (n div 128)"
  by (subst writeVarint.simps) simp

lemma read_groups_writeVarint:
  "n < 128 ^ Suc k \<Longrightarrow> read_groups (Suc k) (writeVarint n @ rest) = (n, True, rest)"
proof (induction k arbitrary: n)
  case 0
  then show ?case
    by (simp add: writeVarint_small byte_of_less_128 unat_byte_of)
next
  case (Suc k)
  show ?case
  proof (cases "n < 128")
    case True
    then show ?thesis
      by (simp add: writeVarint_small byte_of_less_128 unat_byte_of)
  next
    case False
    have b: "n mod 128 + 128 < 256"
      by simp
    from Suc.prems have "n div 128 < 128 ^ Suc k"
      by (simp add: less_mult_imp_div_less mult.commute)
    from Suc.IH [OF this] False show ?thesis
      by (simp add: writeVarint_big byte_of_less_128 [OF b] unat_byte_of [OF b])
  qed
qed

lemma read_groups_writeVarint_more:
  "128 ^ k \<le> n \<Longrightarrow> read_groups k (writeVarint n @ rest)
     = (n mod 128 ^ k, False, drop k (writeVarint n @ rest))"
proof (induction k arbitrary: n)
  case 0
  then show ?case by simp
next
  case (Suc k)
  have b: "n mod 128 + 128 < 256"
    by simp
  from Suc.prems have big: "128 \<le> n"
    by (metis le_trans one_le_numeral one_le_power mult.right_neutral mult_le_mono2 power_Suc)
  from Suc.prems have "128 ^ k \<le> n div 128"
    by (simp add: less_eq_div_iff_mult_less_eq mult.commute)
  from Suc.IH [OF this] big show ?case
    by (simp add: writeVarint_big byte_of_less_128 [OF b] unat_byte_of [OF b] mod_mult2_eq)
qed

lemma length_writeVarint:
  "128 ^ k \<le> n \<Longrightarrow> n < 128 ^ Suc k \<Longrightarrow> length (writeVarint n) = Suc k"
proof (induction k arbitrary: n)
  case 0
  then show ?case by (simp add: writeVarint_small)
next
  case (Suc k)
  from Suc.prems have big: "128 \<le> n"
    by (metis le_trans one_le_numeral one_le_power mult.right_neutral mult_le_mono2 power_Suc)
  from Suc.prems have 1: "128 ^ k \<le> n div 128"
    by (simp add: less_eq_div_iff_mult_less_eq mult.commute)
  from Suc.prems have 2: "n div 128 < 128 ^ Suc k"
    by (simp add: less_mult_imp_div_less mult.commute)
  from Suc.IH [OF 1 2] big show ?case
    by (simp add: writeVarint_big)
qed

lemma length_writeVarint_ge: "128 ^ k \<le> n \<Longrightarrow> k < length (writeVarint n)"
proof (induction k arbitrary: n)
  case 0
  then show ?case by (subst writeVarint.simps) simp
next
  case (Suc k)
  from Suc.prems have big: "128 \<le> n"
    by (metis le_trans one_le_numeral one_le_power mult.right_neutral mult_le_mono2 power_Suc)
  from Suc.prems have 1: "128 ^ k \<le> n div 128"
    by (simp add: less_eq_div_iff_mult_less_eq mult.commute)
  from Suc.IH [OF 1] big show ?case
    by (simp add: writeVarint_big)
qed

lemma writeVarint_nonempty: "writeVarint n \<noteq> []"
  by (subst writeVarint.simps) simp

lemma read_groups_writeVarint':
  "0 < k \<Longrightarrow> n < 128 ^ k \<Longrightarrow> read_groups k (writeVarint n @ rest) = (n, True, rest)"
  using read_groups_writeVarint [of n "k - 1" rest] by simp

lemma r_uint32_w_uint32:
  assumes "0 \<le> v" "v < 2 ^ 32"
  shows "r_uint32 (w_uint32 v @ rest) = Inr (v, rest)"
proof -
  from assms have m: "v mod 2 ^ 32 = v"
    by simp
  from assms have "nat v < 128 ^ 5"
    by simp
  from read_groups_writeVarint' [OF _ this] assms show ?thesis
    unfolding r_uint32_def w_uint32_def m by simp
qed

lemma length_writeVarint_10:
  assumes "2 ^ 63 \<le> n" "n < 2 ^ 64"
  shows "length (writeVarint n) = 10"
proof -
  from assms have "128 ^ 9 \<le> n" "n < 128 ^ Suc 9"
    by simp_all
  from length_writeVarint [OF this] show ?thesis
    by simp
qed

lemma neg_mod_eq:
  fixes v m :: int
  assumes "- m \<le> v" "v < 0"
  shows "v mod m = m + v"
proof -
  have "v mod m = (v + m) mod m"
    by simp
  also from assms have "\<dots> = v + m"
    by (intro mod_pos_pos_trivial) linarith+
  finally show ?thesis
    by simp
qed

lemma r_int32_w_int32:
  assumes "- (2 ^ 31) \<le> v" "v < 2 ^ 31"
  shows "r_int32 (w_int32 v @ rest) = Inr (v, rest)"
proof (cases "v < 0")
  case False
  with assms have "r_uint32 (w_uint32 v @ rest) = Inr (v, rest)"
    by (intro r_uint32_w_uint32) simp_all
  with False assms show ?thesis
    by (simp add: r_int32_def w_int32_def)
next
  case True
  define n where "n = nat (v mod 2 ^ 64)"
  from True assms have v: "v mod 2 ^ 64 = 2 ^ 64 + v"
    by (intro neg_mod_eq) simp_all
  from True assms have n: "int n = 2 ^ 64 + v"
    unfolding n_def v by simp
  from n True assms have "int (2 ^ 63) \<le> int n" "int n < int (2 ^ 64)"
    by simp_all
  then have bounds: "2 ^ 63 \<le> n" "n < 2 ^ 64"
    by (simp_all only: of_nat_le_iff of_nat_less_iff)
  then have g: "128 ^ 5 \<le> n"
    by simp
  have len: "length (writeVarint n) = 10"
    using bounds by (rule length_writeVarint_10)
  have "int (n mod 128 ^ 5 mod 2 ^ 32) = (2 ^ 64 + v) mod 2 ^ 32"
    using n by (simp add: mod_mod_cancel zmod_int)
  also have "\<dots> = v mod 2 ^ 32"
    by (simp add: mod_add_cong [of "2 ^ 64" "2 ^ 32" 0 v v, simplified])
  also from True assms have "\<dots> = 2 ^ 32 + v"
    by (intro neg_mod_eq) simp_all
  finally have val: "int (n mod 128 ^ 5 mod 2 ^ 32) = 2 ^ 32 + v" .
  from assms have big: "\<not> 2 ^ 32 + v < (2::int) ^ 31"
    by simp
  from True show ?thesis
    unfolding r_int32_def w_int32_def r_uint32_def n_def [symmetric]
    using val big
    by (simp add: read_groups_writeVarint_more [OF g] len del: power_numeral)
qed

lemma nth_writeVarint:
  "128 ^ k \<le> n \<Longrightarrow> n < 128 ^ Suc k \<Longrightarrow> writeVarint n ! k = byte_of (n div 128 ^ k)"
proof (induction k arbitrary: n)
  case 0
  then show ?case by (simp add: writeVarint_small)
next
  case (Suc k)
  from Suc.prems have big: "128 \<le> n"
    by (metis le_trans one_le_numeral one_le_power mult.right_neutral mult_le_mono2 power_Suc)
  from Suc.prems have 1: "128 ^ k \<le> n div 128"
    by (simp add: less_eq_div_iff_mult_less_eq mult.commute)
  from Suc.prems have 2: "n div 128 < 128 ^ Suc k"
    by (simp add: less_mult_imp_div_less mult.commute)
  from Suc.IH [OF 1 2] big show ?case
    by (simp add: writeVarint_big div_mult2_eq)
qed

lemma readLongVarint_writeVarint:
  "readLongVarint (writeVarint (unat w) @ rest) = Inr (w, rest)"
proof -
  define n where "n = unat w"
  have "n < 2 ^ 64"
    unfolding n_def using unsigned_less [of w] by simp
  then have n10: "n < 128 ^ 10"
    by simp
  have w: "of_nat n = w"
    by (simp add: n_def)
  show ?thesis
  proof (cases "4 < length (writeVarint n @ rest)")
    case True
    with read_groups_writeVarint' [OF _ n10, of rest] w show ?thesis
      unfolding n_def [symmetric] readLongVarint_def by simp
  next
    case False
    show ?thesis
    proof (cases "n < 128 ^ 3")
      case True
      with read_groups_writeVarint' [OF _ True, of rest] False w show ?thesis
        unfolding n_def [symmetric] readLongVarint_def by simp
    next
      case big: False
      then have g3: "128 ^ 3 \<le> n"
        by simp
      from False have le4: "length (writeVarint n) + length rest \<le> 4"
        by simp
      with length_writeVarint_ge [OF g3] have len: "length (writeVarint n) = 4"
        by linarith
      with le4 have "length rest = 0"
        by linarith
      then have rest: "rest = []"
        by simp
      have l4: "n < 128 ^ Suc 3"
      proof (rule ccontr)
        assume "\<not> n < 128 ^ Suc 3"
        then have "128 ^ 4 \<le> n"
          by simp
        from length_writeVarint_ge [OF this] len show False
          by simp
      qed
      have d: "n div 128 ^ 3 < 128"
        using l4 by (simp add: less_mult_imp_div_less)
      then have d256: "n div 128 ^ 3 < 256"
        by simp
      have b: "byte_at (writeVarint n) 3 = n div 128 ^ 3"
        using nth_writeVarint [OF g3 l4] len unat_byte_of [OF d256]
        by (simp add: byte_at_def)
      have val: "n mod 128 ^ 3 + byte_at (writeVarint n) 3 mod 128 * 2097152 = n"
        unfolding b using d by simp
      have "of_nat (n mod 128 ^ 3 + byte_at (writeVarint n) 3 mod 128 * 2097152) = w"
        unfolding val by (rule w)
      with read_groups_writeVarint_more [OF g3, of "[]"] len show ?thesis
        unfolding n_def [symmetric] readLongVarint_def rest
        by (simp del: power_numeral)
    qed
  qed
qed

lemma r_int64_w_int64: "r_int64 (w_int64 v @ rest) = Inr (v, rest)"
  by (simp add: r_int64_def w_int64_def readLongVarint_writeVarint)

lemma r_uint64_w_uint64: "r_uint64 (w_uint64 v @ rest) = Inr (v, rest)"
  by (simp add: r_uint64_def w_uint64_def readLongVarint_writeVarint)

lemma r_bool_w_bool: "r_bool (w_bool v @ rest) = Inr (v, rest)"
  by (cases v) (simp_all add: r_bool_def w_bool_def r_uint32_def read_groups_Cons)

lemma r_bytes_w_bytes:
  assumes "length v < 2 ^ 32"
  shows "r_bytes (w_bytes v @ rest) = Inr (v, rest)"
proof (cases "v = []")
  case True
  then show ?thesis
    by (simp add: r_bytes_def w_bytes_def r_uint32_def read_groups_Cons)
next
  case False
  from assms have l: "0 \<le> int (length v)" "int (length v) < 2 ^ 32"
    by simp_all
  from False assms have "int (length v) mod 2 ^ 32 \<noteq> 0"
    by simp
  with r_uint32_w_uint32 [OF l, of "v @ rest"] show ?thesis
    by (simp add: r_bytes_def w_bytes_def)
qed

subsection \<open>UTF-8 written and read back\<close>

text \<open>Arithmetic of the two-, three- and four-byte forms, then \<^verbatim>\<open>utf8.read\<close> after
  \<^verbatim>\<open>utf8.write\<close> on every string of UTF-16 code units, lone surrogates included.\<close>

lemma add_mod_drop:
  fixes a k m :: nat
  assumes "a < m" "k mod m = 0"
  shows "(a + k) mod m = a"
proof -
  have "(a + k) mod m = (a mod m + k mod m) mod m"
    by (simp add: mod_add_eq)
  with assms show ?thesis
    by simp
qed

lemma split_64: "(c::nat) div 64 * 64 + c mod 64 = c"
  by simp

lemma split_step: "(x::nat) div a div b * (b * a) + x div a mod b * a = x div a * a"
proof -
  have "(x div a div b * b + x div a mod b) * a = x div a * a"
    by (simp only: div_mult_mod_eq)
  moreover have "(x div a div b * b + x div a mod b) * a
      = x div a div b * (b * a) + x div a mod b * a"
    by (simp only: distrib_right mult.assoc)
  ultimately show ?thesis
    by (simp only:)
qed

lemma split_4096: "(c::nat) div 4096 * 4096 + c div 64 mod 64 * 64 + c mod 64 = c"
proof -
  have "c div 4096 = c div 64 div 64"
    using div_mult2_eq [of c 64 64] by simp
  with split_step [of c 64 64] have "c div 4096 * 4096 + c div 64 mod 64 * 64 = c div 64 * 64"
    by simp
  then show ?thesis
    by simp
qed

lemma split_262144:
  "(p::nat) div 262144 * 262144 + p div 4096 mod 64 * 4096 + p div 64 mod 64 * 64 + p mod 64 = p"
proof -
  have "p div 262144 = p div 4096 div 64"
    using div_mult2_eq [of p 4096 64] by simp
  with split_step [of p 4096 64]
  have "p div 262144 * 262144 + p div 4096 mod 64 * 4096 = p div 4096 * 4096"
    by simp
  then have "p div 262144 * 262144 + p div 4096 mod 64 * 4096 + p div 64 mod 64 * 64 + p mod 64
      = p div 4096 * 4096 + p div 64 mod 64 * 64 + p mod 64"
    by simp
  then show ?thesis
    by (simp only: split_4096)
qed

lemma surrogates:
  fixes c d :: nat
  assumes "55296 \<le> c" "c < 56320" "56320 \<le> d" "d < 57344"
  shows "55296 + (int (65536 + c mod 1024 * 1024 + d mod 1024) - 65536) div 1024 = int c"
    and "56320 + (int (65536 + c mod 1024 * 1024 + d mod 1024) - 65536) mod 1024 = int d"
    and "65536 + c mod 1024 * 1024 + d mod 1024 < 1114112"
proof -
  from assms have "(c - 55296 + 55296) mod 1024 = c - 55296"
    by (intro add_mod_drop) simp_all
  with assms have c: "c mod 1024 = c - 55296"
    by simp
  from assms have "(d - 56320 + 56320) mod 1024 = d - 56320"
    by (intro add_mod_drop) simp_all
  with assms have d: "d mod 1024 = d - 56320"
    by simp
  have e: "int (65536 + c mod 1024 * 1024 + d mod 1024) - 65536
      = int (d mod 1024) + int (c mod 1024) * 1024"
    by simp
  show "55296 + (int (65536 + c mod 1024 * 1024 + d mod 1024) - 65536) div 1024 = int c"
    unfolding e using assms by (simp add: c zdiv_int [symmetric] del: of_nat_diff)
  show "56320 + (int (65536 + c mod 1024 * 1024 + d mod 1024) - 65536) mod 1024 = int d"
    unfolding e using assms by (simp add: d zmod_int [symmetric] del: of_nat_diff)
  show "65536 + c mod 1024 * 1024 + d mod 1024 < 1114112"
    unfolding c d using assms by simp
qed

lemma fromCharCode_unat: "fromCharCode (int (unat c)) = c"
  by (simp add: fromCharCode_def)

lemma utf8_read_1:
  "c < 128 \<Longrightarrow> utf8_read (byte_of c # bs) = fromCharCode (int c) # utf8_read bs"
  by (simp add: unat_byte_of)

lemma byte_at_Cons:
  "byte_at (x # xs) 0 = unat x"
  "byte_at (x # y # xs) 1 = unat y"
  "byte_at (x # y # z # xs) 2 = unat z"
  by (simp_all add: byte_at_def)

lemma utf8_read_2:
  assumes "128 \<le> c" "c < 2048"
  shows "utf8_read (byte_of (c div 64 + 192) # byte_of (c mod 64 + 128) # bs)
     = fromCharCode (int c) # utf8_read bs"
proof -
  from assms have q: "c div 64 < 32"
    by (simp add: less_mult_imp_div_less)
  then have a: "unat (byte_of (c div 64 + 192)) = c div 64 + 192"
    by (intro unat_byte_of) simp
  have b: "unat (byte_of (c mod 64 + 128)) = c mod 64 + 128"
    by (intro unat_byte_of) simp
  have h1: "(c div 64 + 192) mod 32 = c div 64"
    using q by (intro add_mod_drop) simp_all
  have h2: "(c mod 64 + 128) mod 64 = c mod 64"
    by (intro add_mod_drop) simp_all
  from q have t: "\<not> c div 64 + 192 < 128" "191 < c div 64 + 192" "c div 64 + 192 < 224"
    by simp_all
  show ?thesis
    apply (subst utf8_read.simps)
    apply (simp only: Let_def a b t byte_at_Cons h1 h2 if_True if_False simp_thms
        drop_Suc_Cons drop_0 One_nat_def split_64)
    done
qed

lemma utf8_read_3:
  assumes "2048 \<le> c" "c < 65536"
  shows "utf8_read (byte_of (c div 4096 + 224) # byte_of (c div 64 mod 64 + 128)
            # byte_of (c mod 64 + 128) # bs)
     = fromCharCode (int c) # utf8_read bs"
proof -
  from assms have q: "c div 4096 < 16"
    by (simp add: less_mult_imp_div_less)
  then have a: "unat (byte_of (c div 4096 + 224)) = c div 4096 + 224"
    by (intro unat_byte_of) simp
  have b: "unat (byte_of (c div 64 mod 64 + 128)) = c div 64 mod 64 + 128"
    by (intro unat_byte_of) simp
  have d: "unat (byte_of (c mod 64 + 128)) = c mod 64 + 128"
    by (intro unat_byte_of) simp
  have h1: "(c div 4096 + 224) mod 16 = c div 4096"
    using q by (intro add_mod_drop) simp_all
  have h2: "(c div 64 mod 64 + 128) mod 64 = c div 64 mod 64"
    by (intro add_mod_drop) simp_all
  have h3: "(c mod 64 + 128) mod 64 = c mod 64"
    by (intro add_mod_drop) simp_all
  from q have t: "\<not> c div 4096 + 224 < 128" "\<not> (191 < c div 4096 + 224 \<and> c div 4096 + 224 < 224)"
    "\<not> 239 < c div 4096 + 224"
    by simp_all
  show ?thesis
    apply (subst utf8_read.simps)
    apply (simp only: Let_def a b d t byte_at_Cons h1 h2 h3 if_True if_False simp_thms)
    apply (simp only: split_4096 numeral_2_eq_2 drop_Suc_Cons drop_0)
    done
qed

lemma utf8_read_4:
  assumes "65536 \<le> p" "p < 1114112"
  shows "utf8_read (byte_of (p div 262144 + 240) # byte_of (p div 4096 mod 64 + 128)
            # byte_of (p div 64 mod 64 + 128) # byte_of (p mod 64 + 128) # bs)
     = fromCharCode (55296 + (int p - 65536) div 1024)
         # fromCharCode (56320 + (int p - 65536) mod 1024) # utf8_read bs"
proof -
  from assms have q: "p div 262144 < 8"
    by (simp add: less_mult_imp_div_less)
  then have a: "unat (byte_of (p div 262144 + 240)) = p div 262144 + 240"
    by (intro unat_byte_of) simp
  have b: "unat (byte_of (p div 4096 mod 64 + 128)) = p div 4096 mod 64 + 128"
    by (intro unat_byte_of) simp
  have d: "unat (byte_of (p div 64 mod 64 + 128)) = p div 64 mod 64 + 128"
    by (intro unat_byte_of) simp
  have e: "unat (byte_of (p mod 64 + 128)) = p mod 64 + 128"
    by (intro unat_byte_of) simp
  have h1: "(p div 262144 + 240) mod 8 = p div 262144"
    using q by (intro add_mod_drop) simp_all
  have h2: "(p div 4096 mod 64 + 128) mod 64 = p div 4096 mod 64"
    by (intro add_mod_drop) simp_all
  have h3: "(p div 64 mod 64 + 128) mod 64 = p div 64 mod 64"
    by (intro add_mod_drop) simp_all
  have h4: "(p mod 64 + 128) mod 64 = p mod 64"
    by (intro add_mod_drop) simp_all
  from q have t: "\<not> p div 262144 + 240 < 128"
    "\<not> (191 < p div 262144 + 240 \<and> p div 262144 + 240 < 224)" "239 < p div 262144 + 240"
    by simp_all
  show ?thesis
    apply (subst utf8_read.simps)
    apply (simp only: Let_def a b d e t byte_at_Cons h1 h2 h3 h4 if_True if_False simp_thms)
    apply (simp only: split_262144 numeral_3_eq_3 drop_Suc_Cons drop_0)
    done
qed

lemma utf8_write_Cons:
  "utf8_write (c1 # s) =
     (let c = unat c1 in
      if c < 128 then byte_of c # utf8_write s
      else if c < 2048 then byte_of (c div 64 + 192) # byte_of (c mod 64 + 128) # utf8_write s
      else if 55296 \<le> c \<and> c < 56320 \<and> s \<noteq> [] \<and> 56320 \<le> unat (hd s) \<and> unat (hd s) < 57344
      then (let p = 65536 + (c mod 1024) * 1024 + unat (hd s) mod 1024 in
            byte_of (p div 262144 + 240) # byte_of (p div 4096 mod 64 + 128)
              # byte_of (p div 64 mod 64 + 128) # byte_of (p mod 64 + 128) # utf8_write (tl s))
      else byte_of (c div 4096 + 224) # byte_of (c div 64 mod 64 + 128)
             # byte_of (c mod 64 + 128) # utf8_write s)"
  by (cases s) (simp_all add: Let_def)

lemma utf8_roundtrip: "utf8_read (utf8_write s) = s"
proof (induction "length s" arbitrary: s rule: less_induct)
  case less
  show ?case
  proof (cases s)
    case Nil
    then show ?thesis by simp
  next
    case (Cons c1 s')
    define c where "c = unat c1"
    have c16: "c < 65536"
      unfolding c_def using unsigned_less [of c1] by simp
    have c1: "fromCharCode (int c) = c1"
      unfolding c_def by (rule fromCharCode_unat)
    have IH: "utf8_read (utf8_write s') = s'"
      using less Cons by simp
    consider (one) "c < 128" | (two) "128 \<le> c" "c < 2048"
      | (four) "2048 \<le> c" "55296 \<le> c \<and> c < 56320 \<and> s' \<noteq> []
            \<and> 56320 \<le> unat (hd s') \<and> unat (hd s') < 57344"
      | (three) "2048 \<le> c" "\<not> (55296 \<le> c \<and> c < 56320 \<and> s' \<noteq> []
            \<and> 56320 \<le> unat (hd s') \<and> unat (hd s') < 57344)"
      by linarith
    then show ?thesis
    proof cases
      case one
      then show ?thesis
        unfolding Cons utf8_write_Cons c_def [symmetric]
        by (simp add: utf8_read_1 c1 IH del: utf8_read.simps)
    next
      case two
      then show ?thesis
        unfolding Cons utf8_write_Cons c_def [symmetric]
        by (simp add: utf8_read_2 c1 IH del: utf8_read.simps)
    next
      case three
      have w: "utf8_write (c1 # s') = byte_of (c div 4096 + 224) # byte_of (c div 64 mod 64 + 128)
             # byte_of (c mod 64 + 128) # utf8_write s'"
        unfolding utf8_write_Cons c_def [symmetric] Let_def using three by auto
      show ?thesis
        unfolding Cons w utf8_read_3 [OF three(1) c16] c1 IH ..
    next
      case four
      then obtain c2 s'' where s': "s' = c2 # s''"
        by (cases s') auto
      define d where "d = unat c2"
      have c2: "fromCharCode (int d) = c2"
        unfolding d_def by (rule fromCharCode_unat)
      from four s' have r: "55296 \<le> c" "c < 56320" "56320 \<le> d" "d < 57344"
        by (simp_all add: d_def)
      have IH': "utf8_read (utf8_write s'') = s''"
        using less Cons s' by simp
      have p: "65536 \<le> 65536 + c mod 1024 * 1024 + d mod 1024"
        by simp
      from r have w: "utf8_write (c1 # c2 # s'') =
          (let p = 65536 + c mod 1024 * 1024 + d mod 1024 in
            byte_of (p div 262144 + 240) # byte_of (p div 4096 mod 64 + 128)
              # byte_of (p div 64 mod 64 + 128) # byte_of (p mod 64 + 128) # utf8_write s'')"
        unfolding utf8_write_Cons c_def [symmetric] by (simp add: d_def Let_def)
      show ?thesis
        unfolding Cons s' w Let_def utf8_read_4 [OF p surrogates(3) [OF r]]
          surrogates(1) [OF r] surrogates(2) [OF r] c1 c2 IH' ..
    qed
  qed
qed

lemma r_string_w_string:
  assumes "utf8_length v < 2 ^ 32"
  shows "r_string (w_string v @ rest) = Inr (v, rest)"
proof (cases "utf8_write v = []")
  case True
  then have "utf8_read (utf8_write v) = []"
    by simp
  then have "v = []"
    by (simp add: utf8_roundtrip)
  then show ?thesis
    by (simp add: r_string_def w_string_def utf8_length_def r_bytes_def r_uint32_def
        read_groups_Cons)
next
  case False
  from assms have l: "0 \<le> int (utf8_length v)" "int (utf8_length v) < 2 ^ 32"
    by simp_all
  from False r_uint32_w_uint32 [OF l, of "utf8_write v @ rest"] show ?thesis
    by (simp add: r_string_def w_string_def r_bytes_def utf8_length_def utf8_roundtrip)
qed

subsection \<open>One step of a decoding loop\<close>

text \<open>Every generated \<^verbatim>\<open>decode\<close> has the same loop: while the reader is before \<^verbatim>\<open>end\<close>, read a
  tag and dispatch on it.\<close>

lemma decode_loop_step:
  fixes L :: "bytes \<Rightarrow> int \<Rightarrow> 'm \<Rightarrow> error + ('m \<times> bytes)"
  assumes eq: "\<And>reader stop message. L reader stop message =
     (if stop < int (length reader)
      then (case r_uint32 reader of Inl e \<Rightarrow> Inl e
            | Inr (tag, reader1) \<Rightarrow>
                (case field tag reader1 message of Inl e \<Rightarrow> Inl e
                 | Inr (message1, reader2) \<Rightarrow> L reader2 stop message1))
      else Inr (message, reader))"
    and tag: "0 \<le> tag" "tag < 2 ^ 32"
    and stop: "stop \<le> int (length payload)"
  shows "L (w_uint32 tag @ payload) stop m =
     (case field tag payload m of Inl e \<Rightarrow> Inl e | Inr (m1, r2) \<Rightarrow> L r2 stop m1)"
proof -
  have "w_uint32 tag \<noteq> []"
    by (simp add: w_uint32_def writeVarint_nonempty)
  then have "1 \<le> int (length (w_uint32 tag))"
    by (cases "w_uint32 tag") simp_all
  with stop have "stop < int (length (w_uint32 tag)) + int (length payload)"
    by linarith
  then have "stop < int (length (w_uint32 tag @ payload))"
    by simp
  then show ?thesis
    by (subst eq) (simp add: r_uint32_w_uint32 [OF tag])
qed

lemma decode_loop_end:
  fixes L :: "bytes \<Rightarrow> int \<Rightarrow> 'm \<Rightarrow> error + ('m \<times> bytes)"
  assumes eq: "\<And>reader stop message. L reader stop message =
     (if stop < int (length reader)
      then (case r_uint32 reader of Inl e \<Rightarrow> Inl e
            | Inr (tag, reader1) \<Rightarrow>
                (case field tag reader1 message of Inl e \<Rightarrow> Inl e
                 | Inr (message1, reader2) \<Rightarrow> L reader2 stop message1))
      else Inr (message, reader))"
  shows "L reader (int (length reader)) m = Inr (m, reader)"
  by (subst eq) simp

subsection \<open>Decoding what was encoded, message by message\<close>

text \<open>For each message: the field that \<^verbatim>\<open>encode\<close> wrote (or left out, at its default) is read
  back into the message under construction; hence the loop rebuilds the message, alone or nested
  behind its length.\<close>

lemmas OutPoint_step = decode_loop_step [OF OutPoint_decode_loop.simps]
lemmas OutPoint_end = decode_loop_end [OF OutPoint_decode_loop.simps]

lemma OutPoint_piece_txid:
  assumes "stop \<le> int (length rest)" "p_OutPoint_txid acc = []" "length (v) < 2 ^ 32"
  shows "OutPoint_decode_loop ((if v \<noteq> [] then w_uint32 10 @ w_bytes v else []) @ rest) stop acc
     = OutPoint_decode_loop rest stop (acc\<lparr>p_OutPoint_txid := v\<rparr>)"
proof (cases "v = []")
  case True
  with assms(2) have "acc\<lparr>p_OutPoint_txid := v\<rparr> = acc"
    by simp
  with True show ?thesis
    by simp
next
  case False
  from assms(1) have s: "stop \<le> int (length (w_bytes v @ rest))"
    by simp
  from False show ?thesis
    by (simp add: OutPoint_step [OF _ _ s] OutPoint_field_def set_field_def
        r_bytes_w_bytes [OF assms(3)])
qed

lemma OutPoint_piece_outIdx:
  assumes "stop \<le> int (length rest)" "p_OutPoint_outIdx acc = 0" "0 \<le> v" "v < 2 ^ 32"
  shows "OutPoint_decode_loop ((if v \<noteq> 0 then w_uint32 16 @ w_uint32 v else []) @ rest) stop acc
     = OutPoint_decode_loop rest stop (acc\<lparr>p_OutPoint_outIdx := v\<rparr>)"
proof (cases "v = 0")
  case True
  with assms(2) have "acc\<lparr>p_OutPoint_outIdx := v\<rparr> = acc"
    by simp
  with True show ?thesis
    by simp
next
  case False
  from assms(1) have s: "stop \<le> int (length (w_uint32 v @ rest))"
    by simp
  from False show ?thesis
    by (simp add: OutPoint_step [OF _ _ s] OutPoint_field_def set_field_def
        r_uint32_w_uint32 [OF assms(3,4)])
qed

lemma OutPoint_roundtrip_loop:
  assumes "wf_OutPoint m"
  shows "OutPoint_decode_loop (OutPoint_encode m @ rest) (int (length rest)) baseOutPoint = Inr (m, rest)"
  using assms
  by (simp add: OutPoint_encode_def wf_OutPoint_def baseOutPoint_def OutPoint_end
      OutPoint_piece_txid OutPoint_piece_outIdx
      split del: if_split)

lemma OutPoint_nested:
  assumes "wf_OutPoint m" "length (OutPoint_encode m) < 2 ^ 32"
  shows "nested OutPoint_decode_from (ldelim (OutPoint_encode m) @ rest) = Inr (m, rest)"
proof -
  from assms(2) have l: "0 \<le> int (length (OutPoint_encode m))" "int (length (OutPoint_encode m)) < 2 ^ 32"
    by simp_all
  show ?thesis
    by (simp add: nested_def ldelim_def r_uint32_w_uint32 [OF l] OutPoint_decode_from_def
        OutPoint_roundtrip_loop [OF assms(1)])
qed

lemma OutPoint_roundtrip:
  assumes "wf_OutPoint m"
  shows "OutPoint_decode (OutPoint_encode m) = Inr m"
  using OutPoint_roundtrip_loop [OF assms, of "[]"]
  by (simp add: OutPoint_decode_def OutPoint_decode_from_def)

lemmas SlpToken_step = decode_loop_step [OF SlpToken_decode_loop.simps]
lemmas SlpToken_end = decode_loop_end [OF SlpToken_decode_loop.simps]

lemma SlpToken_piece_amount:
  assumes "stop \<le> int (length rest)" "p_SlpToken_amount acc = 0"
  shows "SlpToken_decode_loop ((if v \<noteq> 0 then w_uint32 8 @ w_uint64 v else []) @ rest) stop acc
     = SlpToken_decode_loop rest stop (acc\<lparr>p_SlpToken_amount := v\<rparr>)"
proof (cases "v = 0")
  case True
  with assms(2) have "acc\<lparr>p_SlpToken_amount := v\<rparr> = acc"
    by simp
  with True show ?thesis
    by simp
next
  case False
  from assms(1) have s: "stop \<le> int (length (w_uint64 v @ rest))"
    by simp
  from False show ?thesis
    by (simp add: SlpToken_step [OF _ _ s] SlpToken_field_def set_field_def r_uint64_w_uint64)
qed

lemma SlpToken_piece_isMintBaton:
  assumes "stop \<le> int (length rest)" "p_SlpToken_isMintBaton acc = False"
  shows "SlpToken_decode_loop ((if v then w_uint32 16 @ w_bool v else []) @ rest) stop acc
     = SlpToken_decode_loop rest stop (acc\<lparr>p_SlpToken_isMintBaton := v\<rparr>)"
proof (cases "\<not> v")
  case True
  with assms(2) have "acc\<lparr>p_SlpToken_isMintBaton := v\<rparr> = acc"
    by simp
  with True show ?thesis
    by simp
next
  case False
  from assms(1) have s: "stop \<le> int (length (w_bool True @ rest))"
    by simp
  from False show ?thesis
    by (simp add: SlpToken_step [OF _ _ s] SlpToken_field_def set_field_def r_bool_w_bool)
qed

lemma SlpToken_roundtrip_loop:
  assumes "wf_SlpToken m"
  shows "SlpToken_decode_loop (SlpToken_encode m @ rest) (int (length rest)) baseSlpToken = Inr (m, rest)"
  using assms
  by (simp add: SlpToken_encode_def wf_SlpToken_def baseSlpToken_def SlpToken_end
      SlpToken_piece_amount SlpToken_piece_isMintBaton
      split del: if_split)

lemma SlpToken_nested:
  assumes "wf_SlpToken m" "length (SlpToken_encode m) < 2 ^ 32"
  shows "nested SlpToken_decode_from (ldelim (SlpToken_encode m) @ rest) = Inr (m, rest)"
proof -
  from assms(2) have l: "0 \<le> int (length (SlpToken_encode m))" "int (length (SlpToken_encode m)) < 2 ^ 32"
    by simp_all
  show ?thesis
    by (simp add: nested_def ldelim_def r_uint32_w_uint32 [OF l] SlpToken_decode_from_def
        SlpToken_roundtrip_loop [OF assms(1)])
qed

lemma SlpToken_roundtrip:
  assumes "wf_SlpToken m"
  shows "SlpToken_decode (SlpToken_encode m) = Inr m"
  using SlpToken_roundtrip_loop [OF assms, of "[]"]
  by (simp add: SlpToken_decode_def SlpToken_decode_from_def)

lemmas SlpBurn_step = decode_loop_step [OF SlpBurn_decode_loop.simps]
lemmas SlpBurn_end = decode_loop_end [OF SlpBurn_decode_loop.simps]

lemma SlpBurn_piece_token:
  assumes "stop \<le> int (length rest)" "p_SlpBurn_token acc = None"
    "case v of None \<Rightarrow> True | Some y \<Rightarrow> wf_SlpToken y \<and> length (SlpToken_encode y) < 2 ^ 32"
  shows "SlpBurn_decode_loop
      ((case v of None \<Rightarrow> [] | Some y \<Rightarrow> w_uint32 10 @ ldelim (SlpToken_encode y)) @ rest) stop acc
     = SlpBurn_decode_loop rest stop (acc\<lparr>p_SlpBurn_token := v\<rparr>)"
proof (cases v)
  case None
  with assms(2) have "acc\<lparr>p_SlpBurn_token := v\<rparr> = acc"
    by simp
  with None show ?thesis
    by simp
next
  case (Some y)
  with assms(3) have y: "wf_SlpToken y" "length (SlpToken_encode y) < 2 ^ 32"
    by simp_all
  from assms(1) have s: "stop \<le> int (length (ldelim (SlpToken_encode y) @ rest))"
    by simp
  from Some show ?thesis
    by (simp add: SlpBurn_step [OF _ _ s] SlpBurn_field_def set_field_def SlpToken_nested [OF y])
qed

lemma SlpBurn_piece_tokenId:
  assumes "stop \<le> int (length rest)" "p_SlpBurn_tokenId acc = []" "length (v) < 2 ^ 32"
  shows "SlpBurn_decode_loop ((if v \<noteq> [] then w_uint32 18 @ w_bytes v else []) @ rest) stop acc
     = SlpBurn_decode_loop rest stop (acc\<lparr>p_SlpBurn_tokenId := v\<rparr>)"
proof (cases "v = []")
  case True
  with assms(2) have "acc\<lparr>p_SlpBurn_tokenId := v\<rparr> = acc"
    by simp
  with True show ?thesis
    by simp
next
  case False
  from assms(1) have s: "stop \<le> int (length (w_bytes v @ rest))"
    by simp
  from False show ?thesis
    by (simp add: SlpBurn_step [OF _ _ s] SlpBurn_field_def set_field_def
        r_bytes_w_bytes [OF assms(3)])
qed

lemma SlpBurn_roundtrip_loop:
  assumes "wf_SlpBurn m"
  shows "SlpBurn_decode_loop (SlpBurn_encode m @ rest) (int (length rest)) baseSlpBurn = Inr (m, rest)"
  using assms
  by (simp add: SlpBurn_encode_def wf_SlpBurn_def baseSlpBurn_def SlpBurn_end
      SlpBurn_piece_token SlpBurn_piece_tokenId
      split del: if_split)

lemma SlpBurn_nested:
  assumes "wf_SlpBurn m" "length (SlpBurn_encode m) < 2 ^ 32"
  shows "nested SlpBurn_decode_from (ldelim (SlpBurn_encode m) @ rest) = Inr (m, rest)"
proof -
  from assms(2) have l: "0 \<le> int (length (SlpBurn_encode m))" "int (length (SlpBurn_encode m)) < 2 ^ 32"
    by simp_all
  show ?thesis
    by (simp add: nested_def ldelim_def r_uint32_w_uint32 [OF l] SlpBurn_decode_from_def
        SlpBurn_roundtrip_loop [OF assms(1)])
qed

lemma SlpBurn_roundtrip:
  assumes "wf_SlpBurn m"
  shows "SlpBurn_decode (SlpBurn_encode m) = Inr m"
  using SlpBurn_roundtrip_loop [OF assms, of "[]"]
  by (simp add: SlpBurn_decode_def SlpBurn_decode_from_def)

lemmas SlpMeta_step = decode_loop_step [OF SlpMeta_decode_loop.simps]
lemmas SlpMeta_end = decode_loop_end [OF SlpMeta_decode_loop.simps]

lemma SlpMeta_piece_tokenType:
  assumes "stop \<le> int (length rest)" "p_SlpMeta_tokenType acc = 0" "- (2 ^ 31) \<le> v" "v < 2 ^ 31"
  shows "SlpMeta_decode_loop ((if v \<noteq> 0 then w_uint32 8 @ w_int32 v else []) @ rest) stop acc
     = SlpMeta_decode_loop rest stop (acc\<lparr>p_SlpMeta_tokenType := v\<rparr>)"
proof (cases "v = 0")
  case True
  with assms(2) have "acc\<lparr>p_SlpMeta_tokenType := v\<rparr> = acc"
    by simp
  with True show ?thesis
    by simp
next
  case False
  from assms(1) have s: "stop \<le> int (length (w_int32 v @ rest))"
    by simp
  from False show ?thesis
    by (simp add: SlpMeta_step [OF _ _ s] SlpMeta_field_def set_field_def
        r_int32_w_int32 [OF assms(3,4)])
qed

lemma SlpMeta_piece_txType:
  assumes "stop \<le> int (length rest)" "p_SlpMeta_txType acc = 0" "- (2 ^ 31) \<le> v" "v < 2 ^ 31"
  shows "SlpMeta_decode_loop ((if v \<noteq> 0 then w_uint32 16 @ w_int32 v else []) @ rest) stop acc
     = SlpMeta_decode_loop rest stop (acc\<lparr>p_SlpMeta_txType := v\<rparr>)"
proof (cases "v = 0")
  case True
  with assms(2) have "acc\<lparr>p_SlpMeta_txType := v\<rparr> = acc"
    by simp
  with True show ?thesis
    by simp
next
  case False
  from assms(1) have s: "stop \<le> int (length (w_int32 v @ rest))"
    by simp
  from False show ?thesis
    by (simp add: SlpMeta_step [OF _ _ s] SlpMeta_field_def set_field_def
        r_int32_w_int32 [OF assms(3,4)])
qed

lemma SlpMeta_piece_tokenId:
  assumes "stop \<le> int (length rest)" "p_SlpMeta_tokenId acc = []" "length (v) < 2 ^ 32"
  shows "SlpMeta_decode_loop ((if v \<noteq> [] then w_uint32 26 @ w_bytes v else []) @ rest) stop acc
     = SlpMeta_decode_loop rest stop (acc\<lparr>p_SlpMeta_tokenId := v\<rparr>)"
proof (cases "v = []")
  case True
  with assms(2) have "acc\<lparr>p_SlpMeta_tokenId := v\<rparr> = acc"
    by simp
  with True show ?thesis
    by simp
next
  case False
  from assms(1) have s: "stop \<le> int (length (w_bytes v @ rest))"
    by simp
  from False show ?thesis
    by (simp add: SlpMeta_step [OF _ _ s] SlpMeta_field_def set_field_def
        r_bytes_w_bytes [OF assms(3)])
qed

lemma SlpMeta_piece_groupTokenId:
  assumes "stop \<le> int (length rest)" "p_SlpMeta_groupTokenId acc = []" "length (v) < 2 ^ 32"
  shows "SlpMeta_decode_loop ((if v \<noteq> [] then w_uint32 34 @ w_bytes v else []) @ rest) stop acc
     = SlpMeta_decode_loop rest stop (acc\<lparr>p_SlpMeta_groupTokenId := v\<rparr>)"
proof (cases "v = []")
  case True
  with assms(2) have "acc\<lparr>p_SlpMeta_groupTokenId := v\<rparr> = acc"
    by simp
  with True show ?thesis
    by simp
next
  case False
  from assms(1) have s: "stop \<le> int (length (w_bytes v @ rest))"
    by simp
  from False show ?thesis
    by (simp add: SlpMeta_step [OF _ _ s] SlpMeta_field_def set_field_def
        r_bytes_w_bytes [OF assms(3)])
qed

lemma SlpMeta_roundtrip_loop:
  assumes "wf_SlpMeta m"
  shows "SlpMeta_decode_loop (SlpMeta_encode m @ rest) (int (length rest)) baseSlpMeta = Inr (m, rest)"
  using assms
  by (simp add: SlpMeta_encode_def wf_SlpMeta_def baseSlpMeta_def SlpMeta_end
      SlpMeta_piece_tokenType SlpMeta_piece_txType SlpMeta_piece_tokenId SlpMeta_piece_groupTokenId
      split del: if_split)

lemma SlpMeta_nested:
  assumes "wf_SlpMeta m" "length (SlpMeta_encode m) < 2 ^ 32"
  shows "nested SlpMeta_decode_from (ldelim (SlpMeta_encode m) @ rest) = Inr (m, rest)"
proof -
  from assms(2) have l: "0 \<le> int (length (SlpMeta_encode m))" "int (length (SlpMeta_encode m)) < 2 ^ 32"
    by simp_all
  show ?thesis
    by (simp add: nested_def ldelim_def r_uint32_w_uint32 [OF l] SlpMeta_decode_from_def
        SlpMeta_roundtrip_loop [OF assms(1)])
qed

lemma SlpMeta_roundtrip:
  assumes "wf_SlpMeta m"
  shows "SlpMeta_decode (SlpMeta_encode m) = Inr m"
  using SlpMeta_roundtrip_loop [OF assms, of "[]"]
  by (simp add: SlpMeta_decode_def SlpMeta_decode_from_def)

lemmas SlpGenesisInfo_step = decode_loop_step [OF SlpGenesisInfo_decode_loop.simps]
lemmas SlpGenesisInfo_end = decode_loop_end [OF SlpGenesisInfo_decode_loop.simps]

lemma SlpGenesisInfo_piece_tokenTicker:
  assumes "stop \<le> int (length rest)" "p_SlpGenesisInfo_tokenTicker acc = []" "length (v) < 2 ^ 32"
  shows "SlpGenesisInfo_decode_loop ((if v \<noteq> [] then w_uint32 10 @ w_bytes v else []) @ rest) stop acc
     = SlpGenesisInfo_decode_loop rest stop (acc\<lparr>p_SlpGenesisInfo_tokenTicker := v\<rparr>)"
proof (cases "v = []")
  case True
  with assms(2) have "acc\<lparr>p_SlpGenesisInfo_tokenTicker := v\<rparr> = acc"
    by simp
  with True show ?thesis
    by simp
next
  case False
  from assms(1) have s: "stop \<le> int (length (w_bytes v @ rest))"
    by simp
  from False show ?thesis
    by (simp add: SlpGenesisInfo_step [OF _ _ s] SlpGenesisInfo_field_def set_field_def
        r_bytes_w_bytes [OF assms(3)])
qed

lemma SlpGenesisInfo_piece_tokenName:
  assumes "stop \<le> int (length rest)" "p_SlpGenesisInfo_tokenName acc = []" "length (v) < 2 ^ 32"
  shows "SlpGenesisInfo_decode_loop ((if v \<noteq> [] then w_uint32 18 @ w_bytes v else []) @ rest) stop acc
     = SlpGenesisInfo_decode_loop rest stop (acc\<lparr>p_SlpGenesisInfo_tokenName := v\<rparr>)"
proof (cases "v = []")
  case True
  with assms(2) have "acc\<lparr>p_SlpGenesisInfo_tokenName := v\<rparr> = acc"
    by simp
  with True show ?thesis
    by simp
next
  case False
  from assms(1) have s: "stop \<le> int (length (w_bytes v @ rest))"
    by simp
  from False show ?thesis
    by (simp add: SlpGenesisInfo_step [OF _ _ s] SlpGenesisInfo_field_def set_field_def
        r_bytes_w_bytes [OF assms(3)])
qed

lemma SlpGenesisInfo_piece_tokenDocumentUrl:
  assumes "stop \<le> int (length rest)" "p_SlpGenesisInfo_tokenDocumentUrl acc = []" "length (v) < 2 ^ 32"
  shows "SlpGenesisInfo_decode_loop ((if v \<noteq> [] then w_uint32 26 @ w_bytes v else []) @ rest) stop acc
     = SlpGenesisInfo_decode_loop rest stop (acc\<lparr>p_SlpGenesisInfo_tokenDocumentUrl := v\<rparr>)"
proof (cases "v = []")
  case True
  with assms(2) have "acc\<lparr>p_SlpGenesisInfo_tokenDocumentUrl := v\<rparr> = acc"
    by simp
  with True show ?thesis
    by simp
next
  case False
  from assms(1) have s: "stop \<le> int (length (w_bytes v @ rest))"
    by simp
  from False show ?thesis
    by (simp add: SlpGenesisInfo_step [OF _ _ s] SlpGenesisInfo_field_def set_field_def
        r_bytes_w_bytes [OF assms(3)])
qed

lemma SlpGenesisInfo_piece_tokenDocumentHash:
  assumes "stop \<le> int (length rest)" "p_SlpGenesisInfo_tokenDocumentHash acc = []" "length (v) < 2 ^ 32"
  shows "SlpGenesisInfo_decode_loop ((if v \<noteq> [] then w_uint32 34 @ w_bytes v else []) @ rest) stop acc
     = SlpGenesisInfo_decode_loop rest stop (acc\<lparr>p_SlpGenesisInfo_tokenDocumentHash := v\<rparr>)"
proof (cases "v = []")
  case True
  with assms(2) have "acc\<lparr>p_SlpGenesisInfo_tokenDocumentHash := v\<rparr> = acc"
    by simp
  with True show ?thesis
    by simp
next
  case False
  from assms(1) have s: "stop \<le> int (length (w_bytes v @ rest))"
    by simp
  from False show ?thesis
    by (simp add: SlpGenesisInfo_step [OF _ _ s] SlpGenesisInfo_field_def set_field_def
        r_bytes_w_bytes [OF assms(3)])
qed

lemma SlpGenesisInfo_piece_decimals:
  assumes "stop \<le> int (length rest)" "p_SlpGenesisInfo_decimals acc = 0" "0 \<le> v" "v < 2 ^ 32"
  shows "SlpGenesisInfo_decode_loop ((if v \<noteq> 0 then w_uint32 40 @ w_uint32 v else []) @ rest) stop acc
     = SlpGenesisInfo_decode_loop rest stop (acc\<lparr>p_SlpGenesisInfo_decimals := v\<rparr>)"
proof (cases "v = 0")
  case True
  with assms(2) have "acc\<lparr>p_SlpGenesisInfo_decimals := v\<rparr> = acc"
    by simp
  with True show ?thesis
    by simp
next
  case False
  from assms(1) have s: "stop \<le> int (length (w_uint32 v @ rest))"
    by simp
  from False show ?thesis
    by (simp add: SlpGenesisInfo_step [OF _ _ s] SlpGenesisInfo_field_def set_field_def
        r_uint32_w_uint32 [OF assms(3,4)])
qed

lemma SlpGenesisInfo_roundtrip_loop:
  assumes "wf_SlpGenesisInfo m"
  shows "SlpGenesisInfo_decode_loop (SlpGenesisInfo_encode m @ rest) (int (length rest)) baseSlpGenesisInfo = Inr (m, rest)"
  using assms
  by (simp add: SlpGenesisInfo_encode_def wf_SlpGenesisInfo_def baseSlpGenesisInfo_def SlpGenesisInfo_end
      SlpGenesisInfo_piece_tokenTicker SlpGenesisInfo_piece_tokenName SlpGenesisInfo_piece_tokenDocumentUrl SlpGenesisInfo_piece_tokenDocumentHash SlpGenesisInfo_piece_decimals
      split del: if_split)

lemma SlpGenesisInfo_nested:
  assumes "wf_SlpGenesisInfo m" "length (SlpGenesisInfo_encode m) < 2 ^ 32"
  shows "nested SlpGenesisInfo_decode_from (ldelim (SlpGenesisInfo_encode m) @ rest) = Inr (m, rest)"
proof -
  from assms(2) have l: "0 \<le> int (length (SlpGenesisInfo_encode m))" "int (length (SlpGenesisInfo_encode m)) < 2 ^ 32"
    by simp_all
  show ?thesis
    by (simp add: nested_def ldelim_def r_uint32_w_uint32 [OF l] SlpGenesisInfo_decode_from_def
        SlpGenesisInfo_roundtrip_loop [OF assms(1)])
qed

lemma SlpGenesisInfo_roundtrip:
  assumes "wf_SlpGenesisInfo m"
  shows "SlpGenesisInfo_decode (SlpGenesisInfo_encode m) = Inr m"
  using SlpGenesisInfo_roundtrip_loop [OF assms, of "[]"]
  by (simp add: SlpGenesisInfo_decode_def SlpGenesisInfo_decode_from_def)

lemmas SlpTxData_step = decode_loop_step [OF SlpTxData_decode_loop.simps]
lemmas SlpTxData_end = decode_loop_end [OF SlpTxData_decode_loop.simps]

lemma SlpTxData_piece_slpMeta:
  assumes "stop \<le> int (length rest)" "p_SlpTxData_slpMeta acc = None"
    "case v of None \<Rightarrow> True | Some y \<Rightarrow> wf_SlpMeta y \<and> length (SlpMeta_encode y) < 2 ^ 32"
  shows "SlpTxData_decode_loop
      ((case v of None \<Rightarrow> [] | Some y \<Rightarrow> w_uint32 10 @ ldelim (SlpMeta_encode y)) @ rest) stop acc
     = SlpTxData_decode_loop rest stop (acc\<lparr>p_SlpTxData_slpMeta := v\<rparr>)"
proof (cases v)
  case None
  with assms(2) have "acc\<lparr>p_SlpTxData_slpMeta := v\<rparr> = acc"
    by simp
  with None show ?thesis
    by simp
next
  case (Some y)
  with assms(3) have y: "wf_SlpMeta y" "length (SlpMeta_encode y) < 2 ^ 32"
    by simp_all
  from assms(1) have s: "stop \<le> int (length (ldelim (SlpMeta_encode y) @ rest))"
    by simp
  from Some show ?thesis
    by (simp add: SlpTxData_step [OF _ _ s] SlpTxData_field_def set_field_def SlpMeta_nested [OF y])
qed

lemma SlpTxData_piece_genesisInfo:
  assumes "stop \<le> int (length rest)" "p_SlpTxData_genesisInfo acc = None"
    "case v of None \<Rightarrow> True | Some y \<Rightarrow> wf_SlpGenesisInfo y \<and> length (SlpGenesisInfo_encode y) < 2 ^ 32"
  shows "SlpTxData_decode_loop
      ((case v of None \<Rightarrow> [] | Some y \<Rightarrow> w_uint32 18 @ ldelim (SlpGenesisInfo_encode y)) @ rest) stop acc
     = SlpTxData_decode_loop rest stop (acc\<lparr>p_SlpTxData_genesisInfo := v\<rparr>)"
proof (cases v)
  case None
  with assms(2) have "acc\<lparr>p_SlpTxData_genesisInfo := v\<rparr> = acc"
    by simp
  with None show ?thesis
    by simp
next
  case (Some y)
  with assms(3) have y: "wf_SlpGenesisInfo y" "length (SlpGenesisInfo_encode y) < 2 ^ 32"
    by simp_all
  from assms(1) have s: "stop \<le> int (length (ldelim (SlpGenesisInfo_encode y) @ rest))"
    by simp
  from Some show ?thesis
    by (simp add: SlpTxData_step [OF _ _ s] SlpTxData_field_def set_field_def SlpGenesisInfo_nested [OF y])
qed

lemma SlpTxData_roundtrip_loop:
  assumes "wf_SlpTxData m"
  shows "SlpTxData_decode_loop (SlpTxData_encode m @ rest) (int (length rest)) baseSlpTxData = Inr (m, rest)"
  using assms
  by (simp add: SlpTxData_encode_def wf_SlpTxData_def baseSlpTxData_def SlpTxData_end
      SlpTxData_piece_slpMeta SlpTxData_piece_genesisInfo
      split del: if_split)

lemma SlpTxData_nested:
  assumes "wf_SlpTxData m" "length (SlpTxData_encode m) < 2 ^ 32"
  shows "nested SlpTxData_decode_from (ldelim (SlpTxData_encode m) @ rest) = Inr (m, rest)"
proof -
  from assms(2) have l: "0 \<le> int (length (SlpTxData_encode m))" "int (length (SlpTxData_encode m)) < 2 ^ 32"
    by simp_all
  show ?thesis
    by (simp add: nested_def ldelim_def r_uint32_w_uint32 [OF l] SlpTxData_decode_from_def
        SlpTxData_roundtrip_loop [OF assms(1)])
qed

lemma SlpTxData_roundtrip:
  assumes "wf_SlpTxData m"
  shows "SlpTxData_decode (SlpTxData_encode m) = Inr m"
  using SlpTxData_roundtrip_loop [OF assms, of "[]"]
  by (simp add: SlpTxData_decode_def SlpTxData_decode_from_def)

lemmas BlockMetadata_step = decode_loop_step [OF BlockMetadata_decode_loop.simps]
lemmas BlockMetadata_end = decode_loop_end [OF BlockMetadata_decode_loop.simps]

lemma BlockMetadata_piece_height:
  assumes "stop \<le> int (length rest)" "p_BlockMetadata_height acc = 0" "- (2 ^ 31) \<le> v" "v < 2 ^ 31"
  shows "BlockMetadata_decode_loop ((if v \<noteq> 0 then w_uint32 8 @ w_int32 v else []) @ rest) stop acc
     = BlockMetadata_decode_loop rest stop (acc\<lparr>p_BlockMetadata_height := v\<rparr>)"
proof (cases "v = 0")
  case True
  with assms(2) have "acc\<lparr>p_BlockMetadata_height := v\<rparr> = acc"
    by simp
  with True show ?thesis
    by simp
next
  case False
  from assms(1) have s: "stop \<le> int (length (w_int32 v @ rest))"
    by simp
  from False show ?thesis
    by (simp add: BlockMetadata_step [OF _ _ s] BlockMetadata_field_def set_field_def
        r_int32_w_int32 [OF assms(3,4)])
qed

lemma BlockMetadata_piece_hash:
  assumes "stop \<le> int (length rest)" "p_BlockMetadata_hash acc = []" "length (v) < 2 ^ 32"
  shows "BlockMetadata_decode_loop ((if v \<noteq> [] then w_uint32 18 @ w_bytes v else []) @ rest) stop acc
     = BlockMetadata_decode_loop rest stop (acc\<lparr>p_BlockMetadata_hash := v\<rparr>)"
proof (cases "v = []")
  case True
  with assms(2) have "acc\<lparr>p_BlockMetadata_hash := v\<rparr> = acc"
    by simp
  with True show ?thesis
    by simp
next
  case False
  from assms(1) have s: "stop \<le> int (length (w_bytes v @ rest))"
    by simp
  from False show ?thesis
    by (simp add: BlockMetadata_step [OF _ _ s] BlockMetadata_field_def set_field_def
        r_bytes_w_bytes [OF assms(3)])
qed

lemma BlockMetadata_piece_timestamp:
  assumes "stop \<le> int (length rest)" "p_BlockMetadata_timestamp acc = 0"
  shows "BlockMetadata_decode_loop ((if v \<noteq> 0 then w_uint32 24 @ w_int64 v else []) @ rest) stop acc
     = BlockMetadata_decode_loop rest stop (acc\<lparr>p_BlockMetadata_timestamp := v\<rparr>)"
proof (cases "v = 0")
  case True
  with assms(2) have "acc\<lparr>p_BlockMetadata_timestamp := v\<rparr> = acc"
    by simp
  with True show ?thesis
    by simp
next
  case False
  from assms(1) have s: "stop \<le> int (length (w_int64 v @ rest))"
    by simp
  from False show ?thesis
    by (simp add: BlockMetadata_step [OF _ _ s] BlockMetadata_field_def set_field_def r_int64_w_int64)
qed

lemma BlockMetadata_roundtrip_loop:
  assumes "wf_BlockMetadata m"
  shows "BlockMetadata_decode_loop (BlockMetadata_encode m @ rest) (int (length rest)) baseBlockMetadata = Inr (m, rest)"
  using assms
  by (simp add: BlockMetadata_encode_def wf_BlockMetadata_def baseBlockMetadata_def BlockMetadata_end
      BlockMetadata_piece_height BlockMetadata_piece_hash BlockMetadata_piece_timestamp
      split del: if_split)

lemma BlockMetadata_nested:
  assumes "wf_BlockMetadata m" "length (BlockMetadata_encode m) < 2 ^ 32"
  shows "nested BlockMetadata_decode_from (ldelim (BlockMetadata_encode m) @ rest) = Inr (m, rest)"
proof -
  from assms(2) have l: "0 \<le> int (length (BlockMetadata_encode m))" "int (length (BlockMetadata_encode m)) < 2 ^ 32"
    by simp_all
  show ?thesis
    by (simp add: nested_def ldelim_def r_uint32_w_uint32 [OF l] BlockMetadata_decode_from_def
        BlockMetadata_roundtrip_loop [OF assms(1)])
qed

lemma BlockMetadata_roundtrip:
  assumes "wf_BlockMetadata m"
  shows "BlockMetadata_decode (BlockMetadata_encode m) = Inr m"
  using BlockMetadata_roundtrip_loop [OF assms, of "[]"]
  by (simp add: BlockMetadata_decode_def BlockMetadata_decode_from_def)

lemmas TxInput_step = decode_loop_step [OF TxInput_decode_loop.simps]
lemmas TxInput_end = decode_loop_end [OF TxInput_decode_loop.simps]

lemma TxInput_piece_prevOut:
  assumes "stop \<le> int (length rest)" "p_TxInput_prevOut acc = None"
    "case v of None \<Rightarrow> True | Some y \<Rightarrow> wf_OutPoint y \<and> length (OutPoint_encode y) < 2 ^ 32"
  shows "TxInput_decode_loop
      ((case v of None \<Rightarrow> [] | Some y \<Rightarrow> w_uint32 10 @ ldelim (OutPoint_encode y)) @ rest) stop acc
     = TxInput_decode_loop rest stop (acc\<lparr>p_TxInput_prevOut := v\<rparr>)"
proof (cases v)
  case None
  with assms(2) have "acc\<lparr>p_TxInput_prevOut := v\<rparr> = acc"
    by simp
  with None show ?thesis
    by simp
next
  case (Some y)
  with assms(3) have y: "wf_OutPoint y" "length (OutPoint_encode y) < 2 ^ 32"
    by simp_all
  from assms(1) have s: "stop \<le> int (length (ldelim (OutPoint_encode y) @ rest))"
    by simp
  from Some show ?thesis
    by (simp add: TxInput_step [OF _ _ s] TxInput_field_def set_field_def OutPoint_nested [OF y])
qed

lemma TxInput_piece_inputScript:
  assumes "stop \<le> int (length rest)" "p_TxInput_inputScript acc = []" "length (v) < 2 ^ 32"
  shows "TxInput_decode_loop ((if v \<noteq> [] then w_uint32 18 @ w_bytes v else []) @ rest) stop acc
     = TxInput_decode_loop rest stop (acc\<lparr>p_TxInput_inputScript := v\<rparr>)"
proof (cases "v = []")
  case True
  with assms(2) have "acc\<lparr>p_TxInput_inputScript := v\<rparr> = acc"
    by simp
  with True show ?thesis
    by simp
next
  case False
  from assms(1) have s: "stop \<le> int (length (w_bytes v @ rest))"
    by simp
  from False show ?thesis
    by (simp add: TxInput_step [OF _ _ s] TxInput_field_def set_field_def
        r_bytes_w_bytes [OF assms(3)])
qed

lemma TxInput_piece_outputScript:
  assumes "stop \<le> int (length rest)" "p_TxInput_outputScript acc = []" "length (v) < 2 ^ 32"
  shows "TxInput_decode_loop ((if v \<noteq> [] then w_uint32 26 @ w_bytes v else []) @ rest) stop acc
     = TxInput_decode_loop rest stop (acc\<lparr>p_TxInput_outputScript := v\<rparr>)"
proof (cases "v = []")
  case True
  with assms(2) have "acc\<lparr>p_TxInput_outputScript := v\<rparr> = acc"
    by simp
  with True show ?thesis
    by simp
next
  case False
  from assms(1) have s: "stop \<le> int (length (w_bytes v @ rest))"
    by simp
  from False show ?thesis
    by (simp add: TxInput_step [OF _ _ s] TxInput_field_def set_field_def
        r_bytes_w_bytes [OF assms(3)])
qed

lemma TxInput_piece_value:
  assumes "stop \<le> int (length rest)" "p_TxInput_value acc = 0"
  shows "TxInput_decode_loop ((if v \<noteq> 0 then w_uint32 32 @ w_int64 v else []) @ rest) stop acc
     = TxInput_decode_loop rest stop (acc\<lparr>p_TxInput_value := v\<rparr>)"
proof (cases "v = 0")
  case True
  with assms(2) have "acc\<lparr>p_TxInput_value := v\<rparr> = acc"
    by simp
  with True show ?thesis
    by simp
next
  case False
  from assms(1) have s: "stop \<le> int (length (w_int64 v @ rest))"
    by simp
  from False show ?thesis
    by (simp add: TxInput_step [OF _ _ s] TxInput_field_def set_field_def r_int64_w_int64)
qed

lemma TxInput_piece_sequenceNo:
  assumes "stop \<le> int (length rest)" "p_TxInput_sequenceNo acc = 0" "0 \<le> v" "v < 2 ^ 32"
  shows "TxInput_decode_loop ((if v \<noteq> 0 then w_uint32 40 @ w_uint32 v else []) @ rest) stop acc
     = TxInput_decode_loop rest stop (acc\<lparr>p_TxInput_sequenceNo := v\<rparr>)"
proof (cases "v = 0")
  case True
  with assms(2) have "acc\<lparr>p_TxInput_sequenceNo := v\<rparr> = acc"
    by simp
  with True show ?thesis
    by simp
next
  case False
  from assms(1) have s: "stop \<le> int (length (w_uint32 v @ rest))"
    by simp
  from False show ?thesis
    by (simp add: TxInput_step [OF _ _ s] TxInput_field_def set_field_def
        r_uint32_w_uint32 [OF assms(3,4)])
qed

lemma TxInput_piece_slpBurn:
  assumes "stop \<le> int (length rest)" "p_TxInput_slpBurn acc = None"
    "case v of None \<Rightarrow> True | Some y \<Rightarrow> wf_SlpBurn y \<and> length (SlpBurn_encode y) < 2 ^ 32"
  shows "TxInput_decode_loop
      ((case v of None \<Rightarrow> [] | Some y \<Rightarrow> w_uint32 50 @ ldelim (SlpBurn_encode y)) @ rest) stop acc
     = TxInput_decode_loop rest stop (acc\<lparr>p_TxInput_slpBurn := v\<rparr>)"
proof (cases v)
  case None
  with assms(2) have "acc\<lparr>p_TxInput_slpBurn := v\<rparr> = acc"
    by simp
  with None show ?thesis
    by simp
next
  case (Some y)
  with assms(3) have y: "wf_SlpBurn y" "length (SlpBurn_encode y) < 2 ^ 32"
    by simp_all
  from assms(1) have s: "stop \<le> int (length (ldelim (SlpBurn_encode y) @ rest))"
    by simp
  from Some show ?thesis
    by (simp add: TxInput_step [OF _ _ s] TxInput_field_def set_field_def SlpBurn_nested [OF y])
qed

lemma TxInput_piece_slpToken:
  assumes "stop \<le> int (length rest)" "p_TxInput_slpToken acc = None"
    "case v of None \<Rightarrow> True | Some y \<Rightarrow> wf_SlpToken y \<and> length (SlpToken_encode y) < 2 ^ 32"
  shows "TxInput_decode_loop
      ((case v of None \<Rightarrow> [] | Some y \<Rightarrow> w_uint32 58 @ ldelim (SlpToken_encode y)) @ rest) stop acc
     = TxInput_decode_loop rest stop (acc\<lparr>p_TxInput_slpToken := v\<rparr>)"
proof (cases v)
  case None
  with assms(2) have "acc\<lparr>p_TxInput_slpToken := v\<rparr> = acc"
    by simp
  with None show ?thesis
    by simp
next
  case (Some y)
  with assms(3) have y: "wf_SlpToken y" "length (SlpToken_encode y) < 2 ^ 32"
    by simp_all
  from assms(1) have s: "stop \<le> int (length (ldelim (SlpToken_encode y) @ rest))"
    by simp
  from Some show ?thesis
    by (simp add: TxInput_step [OF _ _ s] TxInput_field_def set_field_def SlpToken_nested [OF y])
qed

lemma TxInput_roundtrip_loop:
  assumes "wf_TxInput m"
  shows "TxInput_decode_loop (TxInput_encode m @ rest) (int (length rest)) baseTxInput = Inr (m, rest)"
  using assms
  by (simp add: TxInput_encode_def wf_TxInput_def baseTxInput_def TxInput_end
      TxInput_piece_prevOut TxInput_piece_inputScript TxInput_piece_outputScript TxInput_piece_value TxInput_piece_sequenceNo TxInput_piece_slpBurn TxInput_piece_slpToken
      split del: if_split)

lemma TxInput_nested:
  assumes "wf_TxInput m" "length (TxInput_encode m) < 2 ^ 32"
  shows "nested TxInput_decode_from (ldelim (TxInput_encode m) @ rest) = Inr (m, rest)"
proof -
  from assms(2) have l: "0 \<le> int (length (TxInput_encode m))" "int (length (TxInput_encode m)) < 2 ^ 32"
    by simp_all
  show ?thesis
    by (simp add: nested_def ldelim_def r_uint32_w_uint32 [OF l] TxInput_decode_from_def
        TxInput_roundtrip_loop [OF assms(1)])
qed

lemma TxInput_roundtrip:
  assumes "wf_TxInput m"
  shows "TxInput_decode (TxInput_encode m) = Inr m"
  using TxInput_roundtrip_loop [OF assms, of "[]"]
  by (simp add: TxInput_decode_def TxInput_decode_from_def)

lemmas TxOutput_step = decode_loop_step [OF TxOutput_decode_loop.simps]
lemmas TxOutput_end = decode_loop_end [OF TxOutput_decode_loop.simps]

lemma TxOutput_piece_value:
  assumes "stop \<le> int (length rest)" "p_TxOutput_value acc = 0"
  shows "TxOutput_decode_loop ((if v \<noteq> 0 then w_uint32 8 @ w_int64 v else []) @ rest) stop acc
     = TxOutput_decode_loop rest stop (acc\<lparr>p_TxOutput_value := v\<rparr>)"
proof (cases "v = 0")
  case True
  with assms(2) have "acc\<lparr>p_TxOutput_value := v\<rparr> = acc"
    by simp
  with True show ?thesis
    by simp
next
  case False
  from assms(1) have s: "stop \<le> int (length (w_int64 v @ rest))"
    by simp
  from False show ?thesis
    by (simp add: TxOutput_step [OF _ _ s] TxOutput_field_def set_field_def r_int64_w_int64)
qed

lemma TxOutput_piece_outputScript:
  assumes "stop \<le> int (length rest)" "p_TxOutput_outputScript acc = []" "length (v) < 2 ^ 32"
  shows "TxOutput_decode_loop ((if v \<noteq> [] then w_uint32 18 @ w_bytes v else []) @ rest) stop acc
     = TxOutput_decode_loop rest stop (acc\<lparr>p_TxOutput_outputScript := v\<rparr>)"
proof (cases "v = []")
  case True
  with assms(2) have "acc\<lparr>p_TxOutput_outputScript := v\<rparr> = acc"
    by simp
  with True show ?thesis
    by simp
next
  case False
  from assms(1) have s: "stop \<le> int (length (w_bytes v @ rest))"
    by simp
  from False show ?thesis
    by (simp add: TxOutput_step [OF _ _ s] TxOutput_field_def set_field_def
        r_bytes_w_bytes [OF assms(3)])
qed

lemma TxOutput_piece_slpToken:
  assumes "stop \<le> int (length rest)" "p_TxOutput_slpToken acc = None"
    "case v of None \<Rightarrow> True | Some y \<Rightarrow> wf_SlpToken y \<and> length (SlpToken_encode y) < 2 ^ 32"
  shows "TxOutput_decode_loop
      ((case v of None \<Rightarrow> [] | Some y \<Rightarrow> w_uint32 26 @ ldelim (SlpToken_encode y)) @ rest) stop acc
     = TxOutput_decode_loop rest stop (acc\<lparr>p_TxOutput_slpToken := v\<rparr>)"
proof (cases v)
  case None
  with assms(2) have "acc\<lparr>p_TxOutput_slpToken := v\<rparr> = acc"
    by simp
  with None show ?thesis
    by simp
next
  case (Some y)
  with assms(3) have y: "wf_SlpToken y" "length (SlpToken_encode y) < 2 ^ 32"
    by simp_all
  from assms(1) have s: "stop \<le> int (length (ldelim (SlpToken_encode y) @ rest))"
    by simp
  from Some show ?thesis
    by (simp add: TxOutput_step [OF _ _ s] TxOutput_field_def set_field_def SlpToken_nested [OF y])
qed

lemma TxOutput_piece_spentBy:
  assumes "stop \<le> int (length rest)" "p_TxOutput_spentBy acc = None"
    "case v of None \<Rightarrow> True | Some y \<Rightarrow> wf_OutPoint y \<and> length (OutPoint_encode y) < 2 ^ 32"
  shows "TxOutput_decode_loop
      ((case v of None \<Rightarrow> [] | Some y \<Rightarrow> w_uint32 34 @ ldelim (OutPoint_encode y)) @ rest) stop acc
     = TxOutput_decode_loop rest stop (acc\<lparr>p_TxOutput_spentBy := v\<rparr>)"
proof (cases v)
  case None
  with assms(2) have "acc\<lparr>p_TxOutput_spentBy := v\<rparr> = acc"
    by simp
  with None show ?thesis
    by simp
next
  case (Some y)
  with assms(3) have y: "wf_OutPoint y" "length (OutPoint_encode y) < 2 ^ 32"
    by simp_all
  from assms(1) have s: "stop \<le> int (length (ldelim (OutPoint_encode y) @ rest))"
    by simp
  from Some show ?thesis
    by (simp add: TxOutput_step [OF _ _ s] TxOutput_field_def set_field_def OutPoint_nested [OF y])
qed

lemma TxOutput_roundtrip_loop:
  assumes "wf_TxOutput m"
  shows "TxOutput_decode_loop (TxOutput_encode m @ rest) (int (length rest)) baseTxOutput = Inr (m, rest)"
  using assms
  by (simp add: TxOutput_encode_def wf_TxOutput_def baseTxOutput_def TxOutput_end
      TxOutput_piece_value TxOutput_piece_outputScript TxOutput_piece_slpToken TxOutput_piece_spentBy
      split del: if_split)

lemma TxOutput_nested:
  assumes "wf_TxOutput m" "length (TxOutput_encode m) < 2 ^ 32"
  shows "nested TxOutput_decode_from (ldelim (TxOutput_encode m) @ rest) = Inr (m, rest)"
proof -
  from assms(2) have l: "0 \<le> int (length (TxOutput_encode m))" "int (length (TxOutput_encode m)) < 2 ^ 32"
    by simp_all
  show ?thesis
    by (simp add: nested_def ldelim_def r_uint32_w_uint32 [OF l] TxOutput_decode_from_def
        TxOutput_roundtrip_loop [OF assms(1)])
qed

lemma TxOutput_roundtrip:
  assumes "wf_TxOutput m"
  shows "TxOutput_decode (TxOutput_encode m) = Inr m"
  using TxOutput_roundtrip_loop [OF assms, of "[]"]
  by (simp add: TxOutput_decode_def TxOutput_decode_from_def)

lemmas Tx_step = decode_loop_step [OF Tx_decode_loop.simps]
lemmas Tx_end = decode_loop_end [OF Tx_decode_loop.simps]

lemma Tx_piece_txid:
  assumes "stop \<le> int (length rest)" "p_Tx_txid acc = []" "length (v) < 2 ^ 32"
  shows "Tx_decode_loop ((if v \<noteq> [] then w_uint32 10 @ w_bytes v else []) @ rest) stop acc
     = Tx_decode_loop rest stop (acc\<lparr>p_Tx_txid := v\<rparr>)"
proof (cases "v = []")
  case True
  with assms(2) have "acc\<lparr>p_Tx_txid := v\<rparr> = acc"
    by simp
  with True show ?thesis
    by simp
next
  case False
  from assms(1) have s: "stop \<le> int (length (w_bytes v @ rest))"
    by simp
  from False show ?thesis
    by (simp add: Tx_step [OF _ _ s] Tx_field_def set_field_def
        r_bytes_w_bytes [OF assms(3)])
qed

lemma Tx_piece_version:
  assumes "stop \<le> int (length rest)" "p_Tx_version acc = 0" "- (2 ^ 31) \<le> v" "v < 2 ^ 31"
  shows "Tx_decode_loop ((if v \<noteq> 0 then w_uint32 16 @ w_int32 v else []) @ rest) stop acc
     = Tx_decode_loop rest stop (acc\<lparr>p_Tx_version := v\<rparr>)"
proof (cases "v = 0")
  case True
  with assms(2) have "acc\<lparr>p_Tx_version := v\<rparr> = acc"
    by simp
  with True show ?thesis
    by simp
next
  case False
  from assms(1) have s: "stop \<le> int (length (w_int32 v @ rest))"
    by simp
  from False show ?thesis
    by (simp add: Tx_step [OF _ _ s] Tx_field_def set_field_def
        r_int32_w_int32 [OF assms(3,4)])
qed

lemma Tx_piece_inputs:
  assumes "stop \<le> int (length rest)"
    "list_all (\<lambda>y. wf_TxInput y \<and> length (TxInput_encode y) < 2 ^ 32) vs"
  shows "Tx_decode_loop
      (concat (map (\<lambda>y. w_uint32 26 @ ldelim (TxInput_encode y)) vs) @ rest) stop acc
     = Tx_decode_loop rest stop (acc\<lparr>p_Tx_inputs := p_Tx_inputs acc @ vs\<rparr>)"
  using assms(2)
proof (induction vs arbitrary: acc)
  case Nil
  show ?case
    by simp
next
  case (Cons y vs)
  from Cons.prems have y: "wf_TxInput y" "length (TxInput_encode y) < 2 ^ 32"
    and vs: "list_all (\<lambda>y. wf_TxInput y \<and> length (TxInput_encode y) < 2 ^ 32) vs"
    by simp_all
  from assms(1) have s: "stop \<le> int (length (ldelim (TxInput_encode y)
      @ concat (map (\<lambda>y. w_uint32 26 @ ldelim (TxInput_encode y)) vs) @ rest))"
    by simp
  show ?case
    by (simp add: Tx_step [OF _ _ s] Tx_field_def set_field_def TxInput_nested [OF y]
        Cons.IH [OF vs])
qed

lemma Tx_piece_outputs:
  assumes "stop \<le> int (length rest)"
    "list_all (\<lambda>y. wf_TxOutput y \<and> length (TxOutput_encode y) < 2 ^ 32) vs"
  shows "Tx_decode_loop
      (concat (map (\<lambda>y. w_uint32 34 @ ldelim (TxOutput_encode y)) vs) @ rest) stop acc
     = Tx_decode_loop rest stop (acc\<lparr>p_Tx_outputs := p_Tx_outputs acc @ vs\<rparr>)"
  using assms(2)
proof (induction vs arbitrary: acc)
  case Nil
  show ?case
    by simp
next
  case (Cons y vs)
  from Cons.prems have y: "wf_TxOutput y" "length (TxOutput_encode y) < 2 ^ 32"
    and vs: "list_all (\<lambda>y. wf_TxOutput y \<and> length (TxOutput_encode y) < 2 ^ 32) vs"
    by simp_all
  from assms(1) have s: "stop \<le> int (length (ldelim (TxOutput_encode y)
      @ concat (map (\<lambda>y. w_uint32 34 @ ldelim (TxOutput_encode y)) vs) @ rest))"
    by simp
  show ?case
    by (simp add: Tx_step [OF _ _ s] Tx_field_def set_field_def TxOutput_nested [OF y]
        Cons.IH [OF vs])
qed

lemma Tx_piece_lockTime:
  assumes "stop \<le> int (length rest)" "p_Tx_lockTime acc = 0" "0 \<le> v" "v < 2 ^ 32"
  shows "Tx_decode_loop ((if v \<noteq> 0 then w_uint32 40 @ w_uint32 v else []) @ rest) stop acc
     = Tx_decode_loop rest stop (acc\<lparr>p_Tx_lockTime := v\<rparr>)"
proof (cases "v = 0")
  case True
  with assms(2) have "acc\<lparr>p_Tx_lockTime := v\<rparr> = acc"
    by simp
  with True show ?thesis
    by simp
next
  case False
  from assms(1) have s: "stop \<le> int (length (w_uint32 v @ rest))"
    by simp
  from False show ?thesis
    by (simp add: Tx_step [OF _ _ s] Tx_field_def set_field_def
        r_uint32_w_uint32 [OF assms(3,4)])
qed

lemma Tx_piece_slpTxData:
  assumes "stop \<le> int (length rest)" "p_Tx_slpTxData acc = None"
    "case v of None \<Rightarrow> True | Some y \<Rightarrow> wf_SlpTxData y \<and> length (SlpTxData_encode y) < 2 ^ 32"
  shows "Tx_decode_loop
      ((case v of None \<Rightarrow> [] | Some y \<Rightarrow> w_uint32 50 @ ldelim (SlpTxData_encode y)) @ rest) stop acc
     = Tx_decode_loop rest stop (acc\<lparr>p_Tx_slpTxData := v\<rparr>)"
proof (cases v)
  case None
  with assms(2) have "acc\<lparr>p_Tx_slpTxData := v\<rparr> = acc"
    by simp
  with None show ?thesis
    by simp
next
  case (Some y)
  with assms(3) have y: "wf_SlpTxData y" "length (SlpTxData_encode y) < 2 ^ 32"
    by simp_all
  from assms(1) have s: "stop \<le> int (length (ldelim (SlpTxData_encode y) @ rest))"
    by simp
  from Some show ?thesis
    by (simp add: Tx_step [OF _ _ s] Tx_field_def set_field_def SlpTxData_nested [OF y])
qed

lemma Tx_piece_slpErrorMsg:
  assumes "stop \<le> int (length rest)" "p_Tx_slpErrorMsg acc = []" "utf8_length (v) < 2 ^ 32"
  shows "Tx_decode_loop ((if v \<noteq> [] then w_uint32 58 @ w_string v else []) @ rest) stop acc
     = Tx_decode_loop rest stop (acc\<lparr>p_Tx_slpErrorMsg := v\<rparr>)"
proof (cases "v = []")
  case True
  with assms(2) have "acc\<lparr>p_Tx_slpErrorMsg := v\<rparr> = acc"
    by simp
  with True show ?thesis
    by simp
next
  case False
  from assms(1) have s: "stop \<le> int (length (w_string v @ rest))"
    by simp
  from False show ?thesis
    by (simp add: Tx_step [OF _ _ s] Tx_field_def set_field_def
        r_string_w_string [OF assms(3)])
qed

lemma Tx_piece_block:
  assumes "stop \<le> int (length rest)" "p_Tx_block acc = None"
    "case v of None \<Rightarrow> True | Some y \<Rightarrow> wf_BlockMetadata y \<and> length (BlockMetadata_encode y) < 2 ^ 32"
  shows "Tx_decode_loop
      ((case v of None \<Rightarrow> [] | Some y \<Rightarrow> w_uint32 66 @ ldelim (BlockMetadata_encode y)) @ rest) stop acc
     = Tx_decode_loop rest stop (acc\<lparr>p_Tx_block := v\<rparr>)"
proof (cases v)
  case None
  with assms(2) have "acc\<lparr>p_Tx_block := v\<rparr> = acc"
    by simp
  with None show ?thesis
    by simp
next
  case (Some y)
  with assms(3) have y: "wf_BlockMetadata y" "length (BlockMetadata_encode y) < 2 ^ 32"
    by simp_all
  from assms(1) have s: "stop \<le> int (length (ldelim (BlockMetadata_encode y) @ rest))"
    by simp
  from Some show ?thesis
    by (simp add: Tx_step [OF _ _ s] Tx_field_def set_field_def BlockMetadata_nested [OF y])
qed

lemma Tx_piece_timeFirstSeen:
  assumes "stop \<le> int (length rest)" "p_Tx_timeFirstSeen acc = 0"
  shows "Tx_decode_loop ((if v \<noteq> 0 then w_uint32 72 @ w_int64 v else []) @ rest) stop acc
     = Tx_decode_loop rest stop (acc\<lparr>p_Tx_timeFirstSeen := v\<rparr>)"
proof (cases "v = 0")
  case True
  with assms(2) have "acc\<lparr>p_Tx_timeFirstSeen := v\<rparr> = acc"
    by simp
  with True show ?thesis
    by simp
next
  case False
  from assms(1) have s: "stop \<le> int (length (w_int64 v @ rest))"
    by simp
  from False show ?thesis
    by (simp add: Tx_step [OF _ _ s] Tx_field_def set_field_def r_int64_w_int64)
qed

lemma Tx_piece_network:
  assumes "stop \<le> int (length rest)" "p_Tx_network acc = 0" "- (2 ^ 31) \<le> v" "v < 2 ^ 31"
  shows "Tx_decode_loop ((if v \<noteq> 0 then w_uint32 80 @ w_int32 v else []) @ rest) stop acc
     = Tx_decode_loop rest stop (acc\<lparr>p_Tx_network := v\<rparr>)"
proof (cases "v = 0")
  case True
  with assms(2) have "acc\<lparr>p_Tx_network := v\<rparr> = acc"
    by simp
  with True show ?thesis
    by simp
next
  case False
  from assms(1) have s: "stop \<le> int (length (w_int32 v @ rest))"
    by simp
  from False show ?thesis
    by (simp add: Tx_step [OF _ _ s] Tx_field_def set_field_def
        r_int32_w_int32 [OF assms(3,4)])
qed

lemma Tx_roundtrip_loop:
  assumes "wf_Tx m"
  shows "Tx_decode_loop (Tx_encode m @ rest) (int (length rest)) baseTx = Inr (m, rest)"
  using assms
  by (simp add: Tx_encode_def wf_Tx_def baseTx_def Tx_end
      Tx_piece_txid Tx_piece_version Tx_piece_inputs Tx_piece_outputs Tx_piece_lockTime Tx_piece_slpTxData Tx_piece_slpErrorMsg Tx_piece_block Tx_piece_timeFirstSeen Tx_piece_network
      split del: if_split)

lemma Tx_nested:
  assumes "wf_Tx m" "length (Tx_encode m) < 2 ^ 32"
  shows "nested Tx_decode_from (ldelim (Tx_encode m) @ rest) = Inr (m, rest)"
proof -
  from assms(2) have l: "0 \<le> int (length (Tx_encode m))" "int (length (Tx_encode m)) < 2 ^ 32"
    by simp_all
  show ?thesis
    by (simp add: nested_def ldelim_def r_uint32_w_uint32 [OF l] Tx_decode_from_def
        Tx_roundtrip_loop [OF assms(1)])
qed

lemmas UtxoState_step = decode_loop_step [OF UtxoState_decode_loop.simps]
lemmas UtxoState_end = decode_loop_end [OF UtxoState_decode_loop.simps]

lemma UtxoState_piece_height:
  assumes "stop \<le> int (length rest)" "p_UtxoState_height acc = 0" "- (2 ^ 31) \<le> v" "v < 2 ^ 31"
  shows "UtxoState_decode_loop ((if v \<noteq> 0 then w_uint32 8 @ w_int32 v else []) @ rest) stop acc
     = UtxoState_decode_loop rest stop (acc\<lparr>p_UtxoState_height := v\<rparr>)"
proof (cases "v = 0")
  case True
  with assms(2) have "acc\<lparr>p_UtxoState_height := v\<rparr> = acc"
    by simp
  with True show ?thesis
    by simp
next
  case False
  from assms(1) have s: "stop \<le> int (length (w_int32 v @ rest))"
    by simp
  from False show ?thesis
    by (simp add: UtxoState_step [OF _ _ s] UtxoState_field_def set_field_def
        r_int32_w_int32 [OF assms(3,4)])
qed

lemma UtxoState_piece_isConfirmed:
  assumes "stop \<le> int (length rest)" "p_UtxoState_isConfirmed acc = False"
  shows "UtxoState_decode_loop ((if v then w_uint32 16 @ w_bool v else []) @ rest) stop acc
     = UtxoState_decode_loop rest stop (acc\<lparr>p_UtxoState_isConfirmed := v\<rparr>)"
proof (cases "\<not> v")
  case True
  with assms(2) have "acc\<lparr>p_UtxoState_isConfirmed := v\<rparr> = acc"
    by simp
  with True show ?thesis
    by simp
next
  case False
  from assms(1) have s: "stop \<le> int (length (w_bool True @ rest))"
    by simp
  from False show ?thesis
    by (simp add: UtxoState_step [OF _ _ s] UtxoState_field_def set_field_def r_bool_w_bool)
qed

lemma UtxoState_piece_state:
  assumes "stop \<le> int (length rest)" "p_UtxoState_state acc = 0" "- (2 ^ 31) \<le> v" "v < 2 ^ 31"
  shows "UtxoState_decode_loop ((if v \<noteq> 0 then w_uint32 24 @ w_int32 v else []) @ rest) stop acc
     = UtxoState_decode_loop rest stop (acc\<lparr>p_UtxoState_state := v\<rparr>)"
proof (cases "v = 0")
  case True
  with assms(2) have "acc\<lparr>p_UtxoState_state := v\<rparr> = acc"
    by simp
  with True show ?thesis
    by simp
next
  case False
  from assms(1) have s: "stop \<le> int (length (w_int32 v @ rest))"
    by simp
  from False show ?thesis
    by (simp add: UtxoState_step [OF _ _ s] UtxoState_field_def set_field_def
        r_int32_w_int32 [OF assms(3,4)])
qed

lemma UtxoState_roundtrip_loop:
  assumes "wf_UtxoState m"
  shows "UtxoState_decode_loop (UtxoState_encode m @ rest) (int (length rest)) baseUtxoState = Inr (m, rest)"
  using assms
  by (simp add: UtxoState_encode_def wf_UtxoState_def baseUtxoState_def UtxoState_end
      UtxoState_piece_height UtxoState_piece_isConfirmed UtxoState_piece_state
      split del: if_split)

lemma UtxoState_nested:
  assumes "wf_UtxoState m" "length (UtxoState_encode m) < 2 ^ 32"
  shows "nested UtxoState_decode_from (ldelim (UtxoState_encode m) @ rest) = Inr (m, rest)"
proof -
  from assms(2) have l: "0 \<le> int (length (UtxoState_encode m))" "int (length (UtxoState_encode m)) < 2 ^ 32"
    by simp_all
  show ?thesis
    by (simp add: nested_def ldelim_def r_uint32_w_uint32 [OF l] UtxoState_decode_from_def
        UtxoState_roundtrip_loop [OF assms(1)])
qed

lemma UtxoState_roundtrip:
  assumes "wf_UtxoState m"
  shows "UtxoState_decode (UtxoState_encode m) = Inr m"
  using UtxoState_roundtrip_loop [OF assms, of "[]"]
  by (simp add: UtxoState_decode_def UtxoState_decode_from_def)

lemmas ValidateUtxoRequest_step = decode_loop_step [OF ValidateUtxoRequest_decode_loop.simps]
lemmas ValidateUtxoRequest_end = decode_loop_end [OF ValidateUtxoRequest_decode_loop.simps]

lemma ValidateUtxoRequest_piece_outpoints:
  assumes "stop \<le> int (length rest)"
    "list_all (\<lambda>y. wf_OutPoint y \<and> length (OutPoint_encode y) < 2 ^ 32) vs"
  shows "ValidateUtxoRequest_decode_loop
      (concat (map (\<lambda>y. w_uint32 10 @ ldelim (OutPoint_encode y)) vs) @ rest) stop acc
     = ValidateUtxoRequest_decode_loop rest stop (acc\<lparr>p_ValidateUtxoRequest_outpoints := p_ValidateUtxoRequest_outpoints acc @ vs\<rparr>)"
  using assms(2)
proof (induction vs arbitrary: acc)
  case Nil
  show ?case
    by simp
next
  case (Cons y vs)
  from Cons.prems have y: "wf_OutPoint y" "length (OutPoint_encode y) < 2 ^ 32"
    and vs: "list_all (\<lambda>y. wf_OutPoint y \<and> length (OutPoint_encode y) < 2 ^ 32) vs"
    by simp_all
  from assms(1) have s: "stop \<le> int (length (ldelim (OutPoint_encode y)
      @ concat (map (\<lambda>y. w_uint32 10 @ ldelim (OutPoint_encode y)) vs) @ rest))"
    by simp
  show ?case
    by (simp add: ValidateUtxoRequest_step [OF _ _ s] ValidateUtxoRequest_field_def set_field_def OutPoint_nested [OF y]
        Cons.IH [OF vs])
qed

lemma ValidateUtxoRequest_roundtrip_loop:
  assumes "wf_ValidateUtxoRequest m"
  shows "ValidateUtxoRequest_decode_loop (ValidateUtxoRequest_encode m @ rest) (int (length rest)) baseValidateUtxoRequest = Inr (m, rest)"
  using assms
  by (simp add: ValidateUtxoRequest_encode_def wf_ValidateUtxoRequest_def baseValidateUtxoRequest_def ValidateUtxoRequest_end
      ValidateUtxoRequest_piece_outpoints
      split del: if_split)

lemma ValidateUtxoRequest_nested:
  assumes "wf_ValidateUtxoRequest m" "length (ValidateUtxoRequest_encode m) < 2 ^ 32"
  shows "nested ValidateUtxoRequest_decode_from (ldelim (ValidateUtxoRequest_encode m) @ rest) = Inr (m, rest)"
proof -
  from assms(2) have l: "0 \<le> int (length (ValidateUtxoRequest_encode m))" "int (length (ValidateUtxoRequest_encode m)) < 2 ^ 32"
    by simp_all
  show ?thesis
    by (simp add: nested_def ldelim_def r_uint32_w_uint32 [OF l] ValidateUtxoRequest_decode_from_def
        ValidateUtxoRequest_roundtrip_loop [OF assms(1)])
qed

lemma ValidateUtxoRequest_roundtrip:
  assumes "wf_ValidateUtxoRequest m"
  shows "ValidateUtxoRequest_decode (ValidateUtxoRequest_encode m) = Inr m"
  using ValidateUtxoRequest_roundtrip_loop [OF assms, of "[]"]
  by (simp add: ValidateUtxoRequest_decode_def ValidateUtxoRequest_decode_from_def)

lemmas ValidateUtxoResponse_step = decode_loop_step [OF ValidateUtxoResponse_decode_loop.simps]
lemmas ValidateUtxoResponse_end = decode_loop_end [OF ValidateUtxoResponse_decode_loop.simps]

lemma ValidateUtxoResponse_piece_utxoStates:
  assumes "stop \<le> int (length rest)"
    "list_all (\<lambda>y. wf_UtxoState y \<and> length (UtxoState_encode y) < 2 ^ 32) vs"
  shows "ValidateUtxoResponse_decode_loop
      (concat (map (\<lambda>y. w_uint32 10 @ ldelim (UtxoState_encode y)) vs) @ rest) stop acc
     = ValidateUtxoResponse_decode_loop rest stop (acc\<lparr>p_ValidateUtxoResponse_utxoStates := p_ValidateUtxoResponse_utxoStates acc @ vs\<rparr>)"
  using assms(2)
proof (induction vs arbitrary: acc)
  case Nil
  show ?case
    by simp
next
  case (Cons y vs)
  from Cons.prems have y: "wf_UtxoState y" "length (UtxoState_encode y) < 2 ^ 32"
    and vs: "list_all (\<lambda>y. wf_UtxoState y \<and> length (UtxoState_encode y) < 2 ^ 32) vs"
    by simp_all
  from assms(1) have s: "stop \<le> int (length (ldelim (UtxoState_encode y)
      @ concat (map (\<lambda>y. w_uint32 10 @ ldelim (UtxoState_encode y)) vs) @ rest))"
    by simp
  show ?case
    by (simp add: ValidateUtxoResponse_step [OF _ _ s] ValidateUtxoResponse_field_def set_field_def UtxoState_nested [OF y]
        Cons.IH [OF vs])
qed

lemma ValidateUtxoResponse_roundtrip_loop:
  assumes "wf_ValidateUtxoResponse m"
  shows "ValidateUtxoResponse_decode_loop (ValidateUtxoResponse_encode m @ rest) (int (length rest)) baseValidateUtxoResponse = Inr (m, rest)"
  using assms
  by (simp add: ValidateUtxoResponse_encode_def wf_ValidateUtxoResponse_def baseValidateUtxoResponse_def ValidateUtxoResponse_end
      ValidateUtxoResponse_piece_utxoStates
      split del: if_split)

lemma ValidateUtxoResponse_nested:
  assumes "wf_ValidateUtxoResponse m" "length (ValidateUtxoResponse_encode m) < 2 ^ 32"
  shows "nested ValidateUtxoResponse_decode_from (ldelim (ValidateUtxoResponse_encode m) @ rest) = Inr (m, rest)"
proof -
  from assms(2) have l: "0 \<le> int (length (ValidateUtxoResponse_encode m))" "int (length (ValidateUtxoResponse_encode m)) < 2 ^ 32"
    by simp_all
  show ?thesis
    by (simp add: nested_def ldelim_def r_uint32_w_uint32 [OF l] ValidateUtxoResponse_decode_from_def
        ValidateUtxoResponse_roundtrip_loop [OF assms(1)])
qed

lemma ValidateUtxoResponse_roundtrip:
  assumes "wf_ValidateUtxoResponse m"
  shows "ValidateUtxoResponse_decode (ValidateUtxoResponse_encode m) = Inr m"
  using ValidateUtxoResponse_roundtrip_loop [OF assms, of "[]"]
  by (simp add: ValidateUtxoResponse_decode_def ValidateUtxoResponse_decode_from_def)

subsection \<open>The round trip of Tx\<close>

text \<open>C5. For every well-formed \<^verbatim>\<open>Tx\<close> message \<open>m\<close> (every \<^verbatim>\<open>int32\<close> and \<^verbatim>\<open>uint32\<close> field within
  its range, every nested message well-formed, every bytes, string and nested field shorter than
  2^32 bytes on the wire), decoding the bytes that \<^verbatim>\<open>Tx.encode(m).finish()\<close> produces returns,
  without throwing, a message equal to \<open>m\<close>.\<close>

theorem Tx_decode_encode:
  "wf_Tx m \<Longrightarrow> Tx_decode (Tx_encode m) = Inr m"
  using Tx_roundtrip_loop [of m "[]"]
  by (simp add: Tx_decode_def Tx_decode_from_def)

theorem Tx_decode_encode_witness:
  "Tx_decode (Tx_encode
      \<lparr>p_Tx_txid = [1, 2], p_Tx_version = - 1,
       p_Tx_inputs = [\<lparr>p_TxInput_prevOut = Some \<lparr>p_OutPoint_txid = [3], p_OutPoint_outIdx = 1\<rparr>,
                       p_TxInput_inputScript = [81], p_TxInput_outputScript = [],
                       p_TxInput_value = 5, p_TxInput_sequenceNo = 4294967295,
                       p_TxInput_slpBurn = None, p_TxInput_slpToken = None\<rparr>],
       p_Tx_outputs = [\<lparr>p_TxOutput_value = 5, p_TxOutput_outputScript = [106],
                        p_TxOutput_slpToken =
                          Some \<lparr>p_SlpToken_amount = 7, p_SlpToken_isMintBaton = True\<rparr>,
                        p_TxOutput_spentBy = None\<rparr>],
       p_Tx_lockTime = 0, p_Tx_slpTxData = None, p_Tx_slpErrorMsg = str ''e'',
       p_Tx_block = Some \<lparr>p_BlockMetadata_height = 7, p_BlockMetadata_hash = [9],
                           p_BlockMetadata_timestamp = 1\<rparr>,
       p_Tx_timeFirstSeen = 0, p_Tx_network = 1\<rparr>)
   = Inr \<lparr>p_Tx_txid = [1, 2], p_Tx_version = - 1,
       p_Tx_inputs = [\<lparr>p_TxInput_prevOut = Some \<lparr>p_OutPoint_txid = [3], p_OutPoint_outIdx = 1\<rparr>,
                       p_TxInput_inputScript = [81], p_TxInput_outputScript = [],
                       p_TxInput_value = 5, p_TxInput_sequenceNo = 4294967295,
                       p_TxInput_slpBurn = None, p_TxInput_slpToken = None\<rparr>],
       p_Tx_outputs = [\<lparr>p_TxOutput_value = 5, p_TxOutput_outputScript = [106],
                        p_TxOutput_slpToken =
                          Some \<lparr>p_SlpToken_amount = 7, p_SlpToken_isMintBaton = True\<rparr>,
                        p_TxOutput_spentBy = None\<rparr>],
       p_Tx_lockTime = 0, p_Tx_slpTxData = None, p_Tx_slpErrorMsg = str ''e'',
       p_Tx_block = Some \<lparr>p_BlockMetadata_height = 7, p_BlockMetadata_hash = [9],
                           p_BlockMetadata_timestamp = 1\<rparr>,
       p_Tx_timeFirstSeen = 0, p_Tx_network = 1\<rparr>"
proof -
  have op: "OutPoint_encode \<lparr>p_OutPoint_txid = [3], p_OutPoint_outIdx = 1\<rparr> = [10, 1, 3, 16, 1]"
    by (simp add: OutPoint_encode_def writer_eval)
  have i: "length (TxInput_encode
      \<lparr>p_TxInput_prevOut = Some \<lparr>p_OutPoint_txid = [3], p_OutPoint_outIdx = 1\<rparr>,
       p_TxInput_inputScript = [81], p_TxInput_outputScript = [],
       p_TxInput_value = 5, p_TxInput_sequenceNo = 4294967295,
       p_TxInput_slpBurn = None, p_TxInput_slpToken = None\<rparr>) < 2 ^ 32"
    by (simp add: TxInput_encode_def op writer_eval)
  have t: "SlpToken_encode \<lparr>p_SlpToken_amount = 7, p_SlpToken_isMintBaton = True\<rparr> = [8, 7, 16, 1]"
    by (simp add: SlpToken_encode_def writer_eval)
  have o: "length (TxOutput_encode
      \<lparr>p_TxOutput_value = 5, p_TxOutput_outputScript = [106],
       p_TxOutput_slpToken = Some \<lparr>p_SlpToken_amount = 7, p_SlpToken_isMintBaton = True\<rparr>,
       p_TxOutput_spentBy = None\<rparr>) < 2 ^ 32"
    by (simp add: TxOutput_encode_def t writer_eval)
  have b: "length (BlockMetadata_encode \<lparr>p_BlockMetadata_height = 7, p_BlockMetadata_hash = [9],
                           p_BlockMetadata_timestamp = 1\<rparr>) < 2 ^ 32"
    by (simp add: BlockMetadata_encode_def writer_eval)
  have e: "utf8_length (str ''e'') < 2 ^ 32"
    by (simp add: utf8_length_def str_def byte_of_def)
  show ?thesis
    by (rule Tx_decode_encode)
      (use i o b e in \<open>simp add: wf_Tx_def wf_TxInput_def wf_TxOutput_def wf_OutPoint_def
        wf_SlpToken_def wf_BlockMetadata_def op t\<close>)
qed

subsection \<open>validateUtxos\<close>

lemma map_result_Inr_nth:
  "map_result f xs = Inr ys \<Longrightarrow> i < length xs \<Longrightarrow> f (xs ! i) = Inr (ys ! i)"
proof (induction xs arbitrary: ys i)
  case Nil
  then show ?case by simp
next
  case (Cons x xs)
  from Cons.prems(1) obtain y ys' where
    y: "f x = Inr y" and ys': "map_result f xs = Inr ys'" and eq: "ys = y # ys'"
    by (auto simp add: bind_eq_Inr)
  show ?case
  proof (cases i)
    case 0
    with y eq show ?thesis by simp
  next
    case (Suc j)
    with Cons.prems(2) have "j < length xs"
      by simp
    from Cons.IH [OF ys' this] Suc eq show ?thesis
      by simp
  qed
qed

lemma map_result_map:
  "(\<And>x. x \<in> set xs \<Longrightarrow> f x = Inr (g x)) \<Longrightarrow> map_result f xs = Inr (map g xs)"
  by (induction xs) simp_all



end
